(* ===== verification/Prelude.thy ===== *)
theory Prelude
  imports Main "HOL-Library.AList" "HOL-Library.Word"
begin

text \<open>
  Shared ground of the development: the HOL counterparts of the Qt value types the code
  computes with, and the collections of simplification rules the component theories use.

  A \<open>QString\<close> and a \<open>QByteArray\<close> are HOL strings (lists of characters); where the
  code tells a null string from an empty one, the model uses \<open>string option\<close> with
  \<open>None\<close> for null.  A \<open>QStringList\<close> is a list.  A \<open>QProcessEnvironment\<close> is
  an association list with distinct keys, changed only by \<open>env_insert\<close> and
  \<open>env_remove\<close>; statements about it go through \<open>env_get\<close>.
\<close>

named_theorems env_simps \<open>lookups after updates of a process environment\<close>
named_theorems step_defs \<open>definitions of the handlers of a component\<close>

type_synonym QString = string
type_synonym QByteArray = string
type_synonym QStringList = "string list"
type_synonym byte = "8 word"
type_synonym qint32 = "32 word"
type_synonym quint32 = "32 word"
type_synonym qint64 = "64 word"

section \<open>Strings and lists\<close>

text \<open>\<open>indexOf\<close> of \<open>QString\<close> and \<open>QStringList\<close>: the first position, or -1.\<close>

fun index_from :: "int \<Rightarrow> 'a \<Rightarrow> 'a list \<Rightarrow> int" where
  "index_from i x [] = -1"
| "index_from i x (y # ys) = (if x = y then i else index_from (i + 1) x ys)"

definition index_of :: "'a \<Rightarrow> 'a list \<Rightarrow> int" where
  "index_of x xs = index_from 0 x xs"

text \<open>
  \<open>left(n)\<close> gives the whole string for a negative \<open>n\<close>, \<open>mid(p)\<close> everything from
  position \<open>p\<close> on.
\<close>

definition q_left :: "'a list \<Rightarrow> int \<Rightarrow> 'a list" where
  "q_left s n = (if n < 0 then s else take (nat n) s)"

definition q_mid :: "'a list \<Rightarrow> int \<Rightarrow> 'a list" where
  "q_mid s p = drop (nat p) s"

definition starts_with :: "'a list \<Rightarrow> 'a list \<Rightarrow> bool" where
  "starts_with p s \<longleftrightarrow> take (length p) s = p"

definition ends_with :: "'a list \<Rightarrow> 'a list \<Rightarrow> bool" where
  "ends_with p s \<longleftrightarrow> length p \<le> length s \<and> drop (length s - length p) s = p"

text \<open>\<open>contains\<close> of a string in a string.\<close>

fun contains_str :: "'a list \<Rightarrow> 'a list \<Rightarrow> bool" where
  "contains_str p [] = (p = [])"
| "contains_str p (x # xs) = (starts_with p (x # xs) \<or> contains_str p xs)"

text \<open>Case folding of the ASCII letters.\<close>

definition lower :: "char \<Rightarrow> char" where
  "lower ch = (let n = (of_char ch :: nat) in if 65 \<le> n \<and> n \<le> 90 then char_of (n + 32) else ch)"

text \<open>\<open>split(sep)\<close>, empty parts kept.\<close>

fun split_on :: "'a \<Rightarrow> 'a list \<Rightarrow> 'a list list" where
  "split_on c [] = [[]]"
| "split_on c (x # xs) =
     (if x = c then [] # split_on c xs
      else (case split_on c xs of [] \<Rightarrow> [[x]] | p # ps \<Rightarrow> (x # p) # ps))"

text \<open>\<open>QString::number\<close> and \<open>arg(int)\<close>: decimal digits with a sign.\<close>

fun digits_of :: "nat \<Rightarrow> string" where
  "digits_of n =
     (if n < 10 then [char_of (n + 48)] else digits_of (n div 10) @ [char_of (n mod 10 + 48)])"

declare digits_of.simps [simp del]

definition number :: "int \<Rightarrow> QString" where
  "number i = (if i < 0 then ''-'' @ digits_of (nat (- i)) else digits_of (nat i))"

text \<open>\<open>toLongLong\<close>/\<open>toInt\<close> of a decimal string: 0 when it is not one.\<close>

definition digit_val :: "char \<Rightarrow> nat option" where
  "digit_val c = (let n = (of_char c :: nat) in if 48 \<le> n \<and> n \<le> 57 then Some (n - 48) else None)"

fun parse_digits :: "nat \<Rightarrow> string \<Rightarrow> nat option" where
  "parse_digits acc [] = Some acc"
| "parse_digits acc (c # cs) =
     (case digit_val c of None \<Rightarrow> None | Some d \<Rightarrow> parse_digits (10 * acc + d) cs)"

definition is_space :: "char \<Rightarrow> bool" where
  "is_space c \<longleftrightarrow> c \<in> {CHR '' '', CHR 0x09, CHR 0x0A, CHR 0x0B, CHR 0x0C, CHR 0x0D}"

definition trimmed :: "string \<Rightarrow> string" where
  "trimmed s = rev (dropWhile is_space (rev (dropWhile is_space s)))"

definition parse_signed :: "string \<Rightarrow> int option" where
  "parse_signed s = (case s of [] \<Rightarrow> None
     | c # cs \<Rightarrow>
         if c = CHR ''-'' then (if cs = [] then None else map_option (\<lambda>n. - int n) (parse_digits 0 cs))
         else if c = CHR ''+'' then (if cs = [] then None else map_option int (parse_digits 0 cs))
         else map_option int (parse_digits 0 s))"

definition parse_int :: "string \<Rightarrow> int option" where
  "parse_int s = parse_signed (trimmed s)"

text \<open>
  \<open>toLongLong\<close> and \<open>toInt\<close> give 0 for a string that is not a number or whose number
  does not fit the type.
\<close>

definition to_bounded :: "int \<Rightarrow> string \<Rightarrow> int" where
  "to_bounded b s = (case parse_int s of None \<Rightarrow> 0
     | Some i \<Rightarrow> if - b \<le> i \<and> i < b then i else 0)"

definition to_long_long :: "string \<Rightarrow> int" where
  "to_long_long s = to_bounded (2 ^ 63) s"

definition to_int :: "string \<Rightarrow> int" where
  "to_int s = to_bounded (2 ^ 31) s"

lemma index_from_ge: "index_from i x xs = -1 \<or> i \<le> index_from i x xs"
proof (induction xs arbitrary: i)
  case Nil
  show ?case by simp
next
  case (Cons y ys)
  from Cons.IH [of "i + 1"] show ?case by auto
qed

lemma index_from_shift:
  "0 \<le> i \<Longrightarrow> index_from i x xs = (if x \<in> set xs then i + index_from 0 x xs else -1)"
proof (induction xs arbitrary: i)
  case Nil
  show ?case by simp
next
  case (Cons y ys)
  from Cons.IH [of "i + 1"] Cons.IH [of 1] Cons.prems show ?case by auto
qed

lemma index_of_Nil [simp]: "index_of x [] = -1"
  by (simp add: index_of_def)

lemma index_of_Cons [simp]:
  "index_of x (y # ys) = (if x = y then 0 else if x \<in> set ys then 1 + index_of x ys else -1)"
  by (simp add: index_of_def index_from_shift [of 1])

lemma index_of_nonneg_iff [simp]: "0 \<le> index_of x xs \<longleftrightarrow> x \<in> set xs"
  by (induction xs) auto

lemma index_of_neg_iff [simp]: "index_of x xs < 0 \<longleftrightarrow> x \<notin> set xs"
  using index_of_nonneg_iff [of x xs] by linarith

lemma index_of_notin: "x \<notin> set xs \<Longrightarrow> index_of x xs = -1"
  by (induction xs) auto

lemma index_of_append:
  "index_of x (xs @ ys) =
     (if x \<in> set xs then index_of x xs
      else if x \<in> set ys then int (length xs) + index_of x ys else -1)"
  by (induction xs) (auto simp: index_of_notin)

lemma index_of_app_hit [simp]: "x \<notin> set xs \<Longrightarrow> index_of x (xs @ x # ys) = int (length xs)"
  by (simp add: index_of_append)

lemma q_left_app [simp]: "q_left (xs @ ys) (int (length xs)) = xs"
  by (simp add: q_left_def)

lemma q_mid_app [simp]: "q_mid (xs @ y # ys) (int (length xs) + 1) = ys"
  by (simp add: q_mid_def nat_add_distrib)

lemma starts_with_append [simp]: "starts_with p (p @ s)"
  by (simp add: starts_with_def)

lemma split_on_neq_Nil [simp]: "split_on c xs \<noteq> []"
  by (induction xs) (auto split: list.splits)

lemma split_on_notin [simp]: "c \<notin> set xs \<Longrightarrow> split_on c xs = [xs]"
  by (induction xs) (auto split: list.splits)

lemma split_on_app [simp]: "c \<notin> set xs \<Longrightarrow> split_on c (xs @ c # ys) = xs # split_on c ys"
  by (induction xs) (auto split: list.splits)

section \<open>Decimal numbers round trip\<close>

lemma of_char_digit: "n < 10 \<Longrightarrow> (of_char (char_of (n + 48) :: char) :: nat) = n + 48"
  by (simp add: of_char_of)

lemma digit_val_char: "n < 10 \<Longrightarrow> digit_val (char_of (n + 48)) = Some n"
  unfolding digit_val_def Let_def by (simp add: of_char_of)

lemma parse_digits_append:
  "parse_digits a (xs @ ys) = Option.bind (parse_digits a xs) (\<lambda>b. parse_digits b ys)"
  by (induction xs arbitrary: a) (auto split: option.splits)

lemma parse_digits_of: "parse_digits 0 (digits_of n) = Some n"
proof (induction n rule: digits_of.induct)
  case (1 n)
  show ?case
  proof (cases "n < 10")
    case True
    then show ?thesis by (simp add: digits_of.simps [of n] digit_val_char del: char_of_def)
  next
    case False
    with "1.IH" have "parse_digits 0 (digits_of (n div 10)) = Some (n div 10)" by simp
    moreover have "digit_val (char_of (n mod 10 + 48)) = Some (n mod 10)"
      by (rule digit_val_char) simp
    ultimately show ?thesis
      using False by (simp add: digits_of.simps [of n] parse_digits_append)
  qed
qed

lemma digits_of_set: "c \<in> set (digits_of n) \<Longrightarrow> 48 \<le> (of_char c :: nat) \<and> (of_char c :: nat) \<le> 57"
proof (induction n rule: digits_of.induct)
  case (1 n)
  then show ?case
    by (cases "n < 10") (auto simp: digits_of.simps [of n] of_char_of)
qed

lemma digits_of_nonempty [simp]: "digits_of n \<noteq> []"
  by (subst digits_of.simps) simp

lemma digit_not_special:
  "48 \<le> (of_char c :: nat) \<Longrightarrow> \<not> is_space c \<and> c \<noteq> CHR ''-'' \<and> c \<noteq> CHR ''+''"
  by (auto simp: is_space_def)

lemma dropWhile_id: "\<forall>x \<in> set xs. \<not> P x \<Longrightarrow> dropWhile P xs = xs"
  by (cases xs) auto

lemma trimmed_digits: "trimmed (digits_of n) = digits_of n"
proof -
  have "\<forall>c \<in> set (digits_of n). \<not> is_space c"
    using digits_of_set digit_not_special by blast
  then show ?thesis by (simp add: trimmed_def dropWhile_id)
qed

lemma digits_of_head: "\<exists>c cs. digits_of n = c # cs \<and> c \<noteq> CHR ''-'' \<and> c \<noteq> CHR ''+''"
proof -
  obtain c cs where d: "digits_of n = c # cs" by (cases "digits_of n") auto
  then show ?thesis using digits_of_set [of c n] digit_not_special [of c] by simp
qed

lemma parse_int_number: "0 \<le> i \<Longrightarrow> parse_int (number i) = Some i"
  using digits_of_head [of "nat i"] parse_digits_of [of "nat i"]
  by (auto simp: parse_int_def parse_signed_def number_def trimmed_digits)

lemma to_long_long_number: "0 \<le> i \<Longrightarrow> i < 2 ^ 63 \<Longrightarrow> to_long_long (number i) = i"
  by (simp add: to_long_long_def to_bounded_def parse_int_number)

lemma to_int_number: "0 \<le> i \<Longrightarrow> i < 2 ^ 31 \<Longrightarrow> to_int (number i) = i"
  by (simp add: to_int_def to_bounded_def parse_int_number)

lemma number_inj: "0 \<le> i \<Longrightarrow> 0 \<le> j \<Longrightarrow> number i = number j \<longleftrightarrow> i = j"
  by (metis option.inject parse_int_number)

lemma number_not_dash: "0 \<le> i \<Longrightarrow> number i \<noteq> CHR ''-'' # s"
  using digits_of_head [of "nat i"] by (auto simp: number_def)

section \<open>Process environments\<close>

type_synonym env = "(string \<times> string) list"

definition env_insert :: "string \<Rightarrow> string \<Rightarrow> env \<Rightarrow> env" where
  "env_insert k v e = AList.update k v e"

definition env_remove :: "string \<Rightarrow> env \<Rightarrow> env" where
  "env_remove k e = AList.delete k e"

definition env_get :: "env \<Rightarrow> string \<Rightarrow> string option" where
  "env_get e k = map_of e k"

text \<open>\<open>value(name)\<close> is the empty string for a variable that is not set.\<close>

definition env_value :: "env \<Rightarrow> string \<Rightarrow> string" where
  "env_value e k = (case env_get e k of None \<Rightarrow> [] | Some v \<Rightarrow> v)"

definition env_contains :: "env \<Rightarrow> string \<Rightarrow> bool" where
  "env_contains e k \<longleftrightarrow> env_get e k \<noteq> None"

definition env_keys :: "env \<Rightarrow> string list" where
  "env_keys e = map fst e"

text \<open>\<open>insert(env)\<close>: every variable of the second environment, overwriting the first.\<close>

fun env_insert_all :: "env \<Rightarrow> env \<Rightarrow> env" where
  "env_insert_all e [] = e"
| "env_insert_all e ((k, v) # kvs) = env_insert_all (env_insert k v e) kvs"

definition env_ok :: "env \<Rightarrow> bool" where
  "env_ok e \<longleftrightarrow> distinct (map fst e)"

lemma env_get_Nil [env_simps, simp]: "env_get [] k = None"
  by (simp add: env_get_def)

lemma env_get_insert [env_simps, simp]:
  "env_get (env_insert k v e) k' = (if k' = k then Some v else env_get e k')"
  by (simp add: env_get_def env_insert_def update_conv)

lemma env_get_remove [env_simps, simp]:
  "env_get (env_remove k e) k' = (if k' = k then None else env_get e k')"
  by (simp add: env_get_def env_remove_def delete_conv)

lemma env_value_insert [env_simps, simp]:
  "env_value (env_insert k v e) k' = (if k' = k then v else env_value e k')"
  by (simp add: env_value_def)

lemma env_contains_insert [env_simps, simp]:
  "env_contains (env_insert k v e) k' \<longleftrightarrow> k' = k \<or> env_contains e k'"
  by (simp add: env_contains_def)

lemma env_ok_Nil [simp]: "env_ok []"
  by (simp add: env_ok_def)

lemma env_ok_insert [simp]: "env_ok e \<Longrightarrow> env_ok (env_insert k v e)"
  by (simp add: env_ok_def env_insert_def distinct_update)

lemma env_ok_remove [simp]: "env_ok e \<Longrightarrow> env_ok (env_remove k e)"
  by (simp add: env_ok_def env_remove_def distinct_delete)

lemma env_get_Cons: "env_get ((k', v) # e) k = (if k = k' then Some v else env_get e k)"
  by (simp add: env_get_def)

lemma env_ok_Cons: "env_ok ((k, v) # e) \<longleftrightarrow> env_get e k = None \<and> env_ok e"
  by (auto simp: env_ok_def env_get_def map_of_eq_None_iff)

lemma env_get_insert_all [env_simps]:
  "env_ok f \<Longrightarrow> env_get (env_insert_all e f) k = (case env_get f k of None \<Rightarrow> env_get e k | Some v \<Rightarrow> Some v)"
  by (induction e f rule: env_insert_all.induct)
    (auto simp: env_get_Cons env_ok_Cons split: option.splits)

lemma env_ok_insert_all [simp]: "env_ok e \<Longrightarrow> env_ok (env_insert_all e f)"
  by (induction e f rule: env_insert_all.induct) auto

lemma env_keys_get: "k \<in> set (env_keys e) \<longleftrightarrow> env_get e k \<noteq> None"
  by (simp add: env_keys_def env_get_def map_of_eq_None_iff)

lemma env_keys_insert: "set (env_keys (env_insert k v e)) = insert k (set (env_keys e))"
  by (auto simp: env_keys_get split: if_splits)

lemma env_keys_remove: "set (env_keys (env_remove k e)) = set (env_keys e) - {k}"
  by (auto simp: env_keys_get split: if_splits)

end
