(* ===== verification/Wire.thy ===== *)
theory Wire
  imports Prelude
begin

text \<open>
  The messages between the daemon and its helper (\<open>src/auth/AuthMessages.h\<close>): the value
  types \<open>Prompt\<close> and \<open>Request\<close>, the message numbers, and the stream operators that
  write and read them.

  \<open>QDataStream\<close> belongs to Qt, so its operators on the basic types are a parameter: a
  record of encoders and decoders.  What the code relies on, that a value written by
  \<open><<\<close> is read back by \<open>>>\<close> and leaves the rest of the stream, is the predicate
  \<open>qds_ok\<close>.  A read that fails gives the default value of the type and sets
  \<open>ReadPastEnd\<close>; a status once set is kept until it is reset.
\<close>

section \<open>The data stream\<close>

datatype stream_status = Ok | ReadPastEnd | ReadCorruptData

record dstream =
  ds_buf :: "byte list"
  ds_status :: stream_status

record qds =
  enc_i32 :: "qint32 \<Rightarrow> byte list"
  dec_i32 :: "byte list \<Rightarrow> (qint32 \<times> byte list) option"
  enc_i64 :: "qint64 \<Rightarrow> byte list"
  dec_i64 :: "byte list \<Rightarrow> (qint64 \<times> byte list) option"
  enc_bool :: "bool \<Rightarrow> byte list"
  dec_bool :: "byte list \<Rightarrow> (bool \<times> byte list) option"
  enc_str :: "QString \<Rightarrow> byte list"
  dec_str :: "byte list \<Rightarrow> (QString \<times> byte list) option"
  enc_bytes :: "QByteArray \<Rightarrow> byte list"
  dec_bytes :: "byte list \<Rightarrow> (QByteArray \<times> byte list) option"
  enc_strs :: "QStringList \<Rightarrow> byte list"
  dec_strs :: "byte list \<Rightarrow> (QStringList \<times> byte list) option"

definition qds_ok :: "qds \<Rightarrow> bool" where
  "qds_ok c \<longleftrightarrow>
     (\<forall>x r. dec_i32 c (enc_i32 c x @ r) = Some (x, r)) \<and>
     (\<forall>x r. dec_i64 c (enc_i64 c x @ r) = Some (x, r)) \<and>
     (\<forall>x r. dec_bool c (enc_bool c x @ r) = Some (x, r)) \<and>
     (\<forall>x r. dec_str c (enc_str c x @ r) = Some (x, r)) \<and>
     (\<forall>x r. dec_bytes c (enc_bytes c x @ r) = Some (x, r)) \<and>
     (\<forall>x r. dec_strs c (enc_strs c x @ r) = Some (x, r))"

definition set_status :: "stream_status \<Rightarrow> dstream \<Rightarrow> dstream" where
  "set_status x st = (if ds_status st = Ok then st\<lparr>ds_status := x\<rparr> else st)"

definition rd :: "(byte list \<Rightarrow> ('a \<times> byte list) option) \<Rightarrow> 'a \<Rightarrow> dstream \<Rightarrow> 'a \<times> dstream" where
  "rd get dflt st =
     (case get (ds_buf st) of
        Some (v, r) \<Rightarrow> (v, st\<lparr>ds_buf := r\<rparr>)
      | None \<Rightarrow> (dflt, set_status ReadPastEnd (st\<lparr>ds_buf := []\<rparr>)))"

definition stream_of :: "byte list \<Rightarrow> dstream" where
  "stream_of bs = \<lparr>ds_buf = bs, ds_status = Ok\<rparr>"

text \<open>
  The contract of one stream operator pair, and what follows for a counted sequence of
  values: the shape of every list the messages carry.
\<close>

fun read_n :: "(dstream \<Rightarrow> 'a \<times> dstream) \<Rightarrow> nat \<Rightarrow> dstream \<Rightarrow> 'a list \<times> dstream" where
  "read_n get 0 st = ([], st)"
| "read_n get (Suc n) st =
     (let (x, st1) = get st; (xs, st2) = read_n get n st1 in (x # xs, st2))"

lemma length_read_n [simp]: "length (fst (read_n get n st)) = n"
  by (induction n arbitrary: st) (auto simp: Let_def split: prod.splits, metis fst_conv)

locale stream_codec =
  fixes put :: "'a \<Rightarrow> byte list"
    and get :: "dstream \<Rightarrow> 'a \<times> dstream"
  assumes get_put: "get \<lparr>ds_buf = put x @ r, ds_status = s\<rparr> = (x, \<lparr>ds_buf = r, ds_status = s\<rparr>)"
begin

lemma get_put_all: "get \<lparr>ds_buf = put x, ds_status = s\<rparr> = (x, \<lparr>ds_buf = [], ds_status = s\<rparr>)"
  using get_put [of x "[]"] by simp

lemma read_n_put:
  "read_n get (length xs) \<lparr>ds_buf = concat (map put xs) @ r, ds_status = s\<rparr>
     = (xs, \<lparr>ds_buf = r, ds_status = s\<rparr>)"
  by (induction xs) (simp_all add: get_put)

lemma put_inj: "put x = put y \<Longrightarrow> x = y"
  by (metis get_put_all prod.inject)

end

section \<open>The value types\<close>

text \<open>
  \<open>AuthPrompt::Type\<close> is read from the wire by an unchecked cast, so it is a number, with
  the enumerators as constants.
\<close>

type_synonym prompt_type = qint32

definition NONE :: prompt_type where "NONE = 0x0000"
definition UNKNOWN :: prompt_type where "UNKNOWN = 0x0001"
definition CHANGE_CURRENT :: prompt_type where "CHANGE_CURRENT = 0x0010"
definition CHANGE_NEW :: prompt_type where "CHANGE_NEW = 0x0011"
definition CHANGE_REPEAT :: prompt_type where "CHANGE_REPEAT = 0x0012"
definition LOGIN_USER :: prompt_type where "LOGIN_USER = 0x0080"
definition LOGIN_PASSWORD :: prompt_type where "LOGIN_PASSWORD = 0x0081"

lemmas prompt_type_defs =
  NONE_def UNKNOWN_def CHANGE_CURRENT_def CHANGE_NEW_def CHANGE_REPEAT_def LOGIN_USER_def
  LOGIN_PASSWORD_def

record Prompt =
  p_type :: prompt_type
  p_response :: QByteArray
  p_message :: QString
  p_hidden :: bool

definition empty_prompt :: Prompt where
  "empty_prompt = \<lparr>p_type = NONE, p_response = [], p_message = [], p_hidden = False\<rparr>"

definition mk_prompt :: "prompt_type \<Rightarrow> QString \<Rightarrow> bool \<Rightarrow> Prompt" where
  "mk_prompt t m h = \<lparr>p_type = t, p_response = [], p_message = m, p_hidden = h\<rparr>"

definition prompt_valid :: "Prompt \<Rightarrow> bool" where
  "prompt_valid p \<longleftrightarrow> \<not> (p_type p = NONE \<and> p_response p = [] \<and> p_message p = [])"

definition prompt_clear :: "Prompt \<Rightarrow> Prompt" where
  "prompt_clear p = p\<lparr>p_type := NONE, p_response := [], p_message := [], p_hidden := False\<rparr>"

record Request =
  r_prompts :: "Prompt list"

lemma request_eta [simp]: "\<lparr>r_prompts = r_prompts (q :: Request)\<rparr> = q"
  by simp

definition request_valid :: "Request \<Rightarrow> bool" where
  "request_valid r \<longleftrightarrow> r_prompts r \<noteq> []"

definition request_clear :: "Request \<Rightarrow> Request" where
  "request_clear r = r\<lparr>r_prompts := []\<rparr>"

definition empty_request :: Request where
  "empty_request = \<lparr>r_prompts = []\<rparr>"

datatype Msg = MSG_UNKNOWN | HELLO | ERROR | INFO | REQUEST | AUTHENTICATED
  | SESSION_STATUS | DISPLAY_SERVER_STARTED | MSG_LAST

datatype AuthInfo = INFO_NONE | INFO_UNKNOWN | INFO_PASS_CHANGE_REQUIRED | INFO_LAST

datatype AuthError = ERROR_NONE | ERROR_UNKNOWN | ERROR_AUTHENTICATION | ERROR_INTERNAL | ERROR_LAST

fun msg_num :: "Msg \<Rightarrow> qint32" where
  "msg_num MSG_UNKNOWN = 0"
| "msg_num HELLO = 1"
| "msg_num ERROR = 2"
| "msg_num INFO = 3"
| "msg_num REQUEST = 4"
| "msg_num AUTHENTICATED = 5"
| "msg_num SESSION_STATUS = 6"
| "msg_num DISPLAY_SERVER_STARTED = 7"
| "msg_num MSG_LAST = 8"

fun info_num :: "AuthInfo \<Rightarrow> qint32" where
  "info_num INFO_NONE = 0"
| "info_num INFO_UNKNOWN = 1"
| "info_num INFO_PASS_CHANGE_REQUIRED = 2"
| "info_num INFO_LAST = 3"

fun error_num :: "AuthError \<Rightarrow> qint32" where
  "error_num ERROR_NONE = 0"
| "error_num ERROR_UNKNOWN = 1"
| "error_num ERROR_AUTHENTICATION = 2"
| "error_num ERROR_INTERNAL = 3"
| "error_num ERROR_LAST = 4"

text \<open>The C++ casts \<open>Msg(i)\<close>, \<open>Auth::Info(i)\<close> and \<open>Auth::Error(i)\<close>, after the range checks.\<close>

definition msg_cast :: "qint32 \<Rightarrow> Msg" where
  "msg_cast i = (if i = 1 then HELLO else if i = 2 then ERROR else if i = 3 then INFO
     else if i = 4 then REQUEST else if i = 5 then AUTHENTICATED
     else if i = 6 then SESSION_STATUS else DISPLAY_SERVER_STARTED)"

definition info_cast :: "qint32 \<Rightarrow> AuthInfo" where
  "info_cast i = (if i = 0 then INFO_NONE else if i = 1 then INFO_UNKNOWN
     else INFO_PASS_CHANGE_REQUIRED)"

definition error_cast :: "qint32 \<Rightarrow> AuthError" where
  "error_cast i = (if i = 0 then ERROR_NONE else if i = 1 then ERROR_UNKNOWN
     else if i = 2 then ERROR_AUTHENTICATION else ERROR_INTERNAL)"

section \<open>The stream operators\<close>

definition put_msg :: "qds \<Rightarrow> Msg \<Rightarrow> byte list" where
  "put_msg c m = enc_i32 c (msg_num m)"

text \<open>A read into a variable takes the variable's old value: it is kept when the number is out of range.\<close>

definition get_msg :: "qds \<Rightarrow> Msg \<Rightarrow> dstream \<Rightarrow> Msg \<times> dstream" where
  "get_msg c m0 st =
     (let (i, st1) = rd (dec_i32 c) 0 st
      in if sint (msg_num MSG_LAST) \<le> sint i \<or> sint i \<le> sint (msg_num MSG_UNKNOWN)
         then (m0, set_status ReadCorruptData st1)
         else (msg_cast i, st1))"

definition put_error :: "qds \<Rightarrow> AuthError \<Rightarrow> byte list" where
  "put_error c e = enc_i32 c (error_num e)"

definition get_error :: "qds \<Rightarrow> AuthError \<Rightarrow> dstream \<Rightarrow> AuthError \<times> dstream" where
  "get_error c e0 st =
     (let (i, st1) = rd (dec_i32 c) 0 st
      in if sint (error_num ERROR_LAST) \<le> sint i \<or> sint i < sint (error_num ERROR_NONE)
         then (e0, set_status ReadCorruptData st1)
         else (error_cast i, st1))"

definition put_info :: "qds \<Rightarrow> AuthInfo \<Rightarrow> byte list" where
  "put_info c i = enc_i32 c (info_num i)"

definition get_info :: "qds \<Rightarrow> AuthInfo \<Rightarrow> dstream \<Rightarrow> AuthInfo \<times> dstream" where
  "get_info c i0 st =
     (let (i, st1) = rd (dec_i32 c) 0 st
      in if sint (info_num INFO_LAST) \<le> sint i \<or> sint i < sint (info_num INFO_NONE)
         then (i0, set_status ReadCorruptData st1)
         else (info_cast i, st1))"

text \<open>\<open>toStringList\<close> gives one \<open>NAME=VALUE\<close> entry per variable.\<close>

definition env_strings :: "env \<Rightarrow> QStringList" where
  "env_strings e = map (\<lambda>(k, v). k @ CHR ''='' # v) e"

definition env_add_entry :: "string \<Rightarrow> env \<Rightarrow> env" where
  "env_add_entry s e = (let pos = index_of CHR ''='' s in env_insert (q_left s pos) (q_mid s (pos + 1)) e)"

definition put_env :: "qds \<Rightarrow> env \<Rightarrow> byte list" where
  "put_env c e = enc_strs c (env_strings e)"

definition get_env :: "qds \<Rightarrow> env \<Rightarrow> dstream \<Rightarrow> env \<times> dstream" where
  "get_env c e0 st = (let (l, st1) = rd (dec_strs c) [] st in (fold env_add_entry l e0, st1))"

definition put_prompt :: "qds \<Rightarrow> Prompt \<Rightarrow> byte list" where
  "put_prompt c p = enc_i32 c (p_type p) @ enc_str c (p_message p) @ enc_bool c (p_hidden p)
     @ enc_bytes c (p_response p)"

definition get_prompt :: "qds \<Rightarrow> dstream \<Rightarrow> Prompt \<times> dstream" where
  "get_prompt c st =
     (let (t, st1) = rd (dec_i32 c) 0 st;
          (m, st2) = rd (dec_str c) [] st1;
          (h, st3) = rd (dec_bool c) False st2;
          (r, st4) = rd (dec_bytes c) [] st3
      in (\<lparr>p_type = t, p_response = r, p_message = m, p_hidden = h\<rparr>, st4))"

definition put_request :: "qds \<Rightarrow> Request \<Rightarrow> byte list" where
  "put_request c r = enc_i32 c (word_of_int (int (length (r_prompts r))))
     @ concat (map (put_prompt c) (r_prompts r))"

definition get_request :: "qds \<Rightarrow> Request \<Rightarrow> dstream \<Rightarrow> Request \<times> dstream" where
  "get_request c r0 st =
     (let (len, st1) = rd (dec_i32 c) 0 st;
          (ps, st2) = read_n (get_prompt c) (nat (sint len)) st1
      in if int (length ps) \<noteq> sint len
         then (r0, set_status ReadCorruptData st2)
         else (r0\<lparr>r_prompts := ps\<rparr>, st2))"

section \<open>Round trips\<close>

lemma sint_len: "n < 2147483648 \<Longrightarrow> sint (word_of_nat n :: qint32) = int n"
  by (simp add: signed_of_nat signed_take_bit_int_eq_self)

text \<open>
  The stream operators of every type are codecs over any data stream that keeps its
  contract, so the laws of \<open>stream_codec\<close> hold for prompts, and lists of prompts are
  read back by \<open>read_n_put\<close>.
\<close>

locale qt_stream =
  fixes c :: qds
  assumes ok: "qds_ok c"
begin

lemma rd_i32 [simp]: "rd (dec_i32 c) d \<lparr>ds_buf = enc_i32 c x @ r, ds_status = s\<rparr> = (x, \<lparr>ds_buf = r, ds_status = s\<rparr>)"
  using ok by (simp add: rd_def qds_ok_def)

lemma rd_i64 [simp]: "rd (dec_i64 c) d \<lparr>ds_buf = enc_i64 c x @ r, ds_status = s\<rparr> = (x, \<lparr>ds_buf = r, ds_status = s\<rparr>)"
  using ok by (simp add: rd_def qds_ok_def)

lemma rd_bool [simp]: "rd (dec_bool c) d \<lparr>ds_buf = enc_bool c x @ r, ds_status = s\<rparr> = (x, \<lparr>ds_buf = r, ds_status = s\<rparr>)"
  using ok by (simp add: rd_def qds_ok_def)

lemma rd_str [simp]: "rd (dec_str c) d \<lparr>ds_buf = enc_str c x @ r, ds_status = s\<rparr> = (x, \<lparr>ds_buf = r, ds_status = s\<rparr>)"
  using ok by (simp add: rd_def qds_ok_def)

lemma rd_bytes [simp]: "rd (dec_bytes c) d \<lparr>ds_buf = enc_bytes c x @ r, ds_status = s\<rparr> = (x, \<lparr>ds_buf = r, ds_status = s\<rparr>)"
  using ok by (simp add: rd_def qds_ok_def)

lemma rd_strs [simp]: "rd (dec_strs c) d \<lparr>ds_buf = enc_strs c x @ r, ds_status = s\<rparr> = (x, \<lparr>ds_buf = r, ds_status = s\<rparr>)"
  using ok by (simp add: rd_def qds_ok_def)

lemma rd_str_end [simp]: "rd (dec_str c) d \<lparr>ds_buf = enc_str c x, ds_status = s\<rparr> = (x, \<lparr>ds_buf = [], ds_status = s\<rparr>)"
  using rd_str [of d x "[]" s] by simp

lemma rd_bool_end [simp]: "rd (dec_bool c) d \<lparr>ds_buf = enc_bool c x, ds_status = s\<rparr> = (x, \<lparr>ds_buf = [], ds_status = s\<rparr>)"
  using rd_bool [of d x "[]" s] by simp

lemma get_put_msg [simp]:
  "m \<noteq> MSG_UNKNOWN \<Longrightarrow> m \<noteq> MSG_LAST \<Longrightarrow>
     get_msg c m0 \<lparr>ds_buf = put_msg c m @ r, ds_status = s\<rparr> = (m, \<lparr>ds_buf = r, ds_status = s\<rparr>)"
  by (cases m) (simp_all add: get_msg_def put_msg_def msg_cast_def)

lemma get_put_error [simp]:
  "e \<noteq> ERROR_LAST \<Longrightarrow>
     get_error c e0 \<lparr>ds_buf = put_error c e @ r, ds_status = s\<rparr> = (e, \<lparr>ds_buf = r, ds_status = s\<rparr>)"
  by (cases e) (simp_all add: get_error_def put_error_def error_cast_def)

lemma get_put_info [simp]:
  "i \<noteq> INFO_LAST \<Longrightarrow>
     get_info c i0 \<lparr>ds_buf = put_info c i @ r, ds_status = s\<rparr> = (i, \<lparr>ds_buf = r, ds_status = s\<rparr>)"
  by (cases i) (simp_all add: get_info_def put_info_def info_cast_def)

end

sublocale qt_stream \<subseteq> prompt: stream_codec "put_prompt c" "get_prompt c"
  by unfold_locales (simp add: get_prompt_def put_prompt_def)

context qt_stream begin

lemma get_put_request:
  assumes "int (length (r_prompts q)) < 2 ^ 31"
  shows "get_request c r0 \<lparr>ds_buf = put_request c q @ r, ds_status = s\<rparr>
     = (r0\<lparr>r_prompts := r_prompts q\<rparr>, \<lparr>ds_buf = r, ds_status = s\<rparr>)"
proof -
  have "sint (word_of_int (int (length (r_prompts q))) :: qint32) = int (length (r_prompts q))"
    using assms by (simp add: sint_len)
  then show ?thesis
    by (simp add: get_request_def put_request_def prompt.read_n_put)
qed

end

lemma env_add_entry_string:
  "CHR ''='' \<notin> set k \<Longrightarrow> env_add_entry (k @ CHR ''='' # v) e = env_insert k v e"
  by (simp add: env_add_entry_def Let_def)

lemma fold_env_strings:
  "\<forall>k \<in> set (env_keys e). CHR ''='' \<notin> set k \<Longrightarrow> fold env_add_entry (env_strings e) e0 = env_insert_all e0 e"
  by (induction e0 e rule: env_insert_all.induct)
    (auto simp: env_strings_def env_keys_def env_add_entry_string)

text \<open>
  A concrete stream that keeps the contract: fixed-width little-endian numbers and
  self-delimiting strings.  It is what the examples evaluate; nothing rests on it.
\<close>

fun nat_bytes :: "nat \<Rightarrow> nat \<Rightarrow> byte list" where
  "nat_bytes 0 n = []"
| "nat_bytes (Suc k) n = word_of_nat (n mod 256) # nat_bytes k (n div 256)"

fun bytes_nat :: "byte list \<Rightarrow> nat" where
  "bytes_nat [] = 0"
| "bytes_nat (b # bs) = unat b + 256 * bytes_nat bs"

lemma length_nat_bytes [simp]: "length (nat_bytes k n) = k"
  by (induction k n rule: nat_bytes.induct) auto

lemma bytes_nat_bytes: "bytes_nat (nat_bytes k n) = n mod 256 ^ k"
proof (induction k n rule: nat_bytes.induct)
  case (1 n)
  show ?case by simp
next
  case (2 k n)
  have "unat (word_of_nat (n mod 256) :: byte) = n mod 256"
    by (simp add: unat_of_nat)
  with 2 show ?case by (simp add: mod_mult2_eq)
qed

definition fixed_dec :: "nat \<Rightarrow> (nat \<Rightarrow> 'a) \<Rightarrow> byte list \<Rightarrow> ('a \<times> byte list) option" where
  "fixed_dec k f bs = (if length bs < k then None else Some (f (bytes_nat (take k bs)), drop k bs))"

fun sd_enc :: "string \<Rightarrow> byte list" where
  "sd_enc [] = [0]"
| "sd_enc (x # xs) = 1 # word_of_nat (of_char x) # sd_enc xs"

fun sd_dec :: "byte list \<Rightarrow> (string \<times> byte list) option" where
  "sd_dec (b # bs) =
     (if b = 0 then Some ([], bs)
      else (case bs of [] \<Rightarrow> None
            | x # r \<Rightarrow> map_option (\<lambda>(s, q). (char_of (unat x) # s, q)) (sd_dec r)))"
| "sd_dec [] = None"

fun sds_enc :: "string list \<Rightarrow> byte list" where
  "sds_enc [] = [0]"
| "sds_enc (x # xs) = 1 # sd_enc x @ sds_enc xs"

fun sds_dec :: "nat \<Rightarrow> byte list \<Rightarrow> (string list \<times> byte list) option" where
  "sds_dec (Suc n) (b # bs) =
     (if b = 0 then Some ([], bs)
      else (case sd_dec bs of None \<Rightarrow> None
            | Some (x, r) \<Rightarrow> map_option (\<lambda>(xs, q). (x # xs, q)) (sds_dec n r)))"
| "sds_dec _ _ = None"

definition sd_qds :: qds where
  "sd_qds =
     \<lparr>enc_i32 = (\<lambda>x. nat_bytes 4 (unat x)), dec_i32 = fixed_dec 4 word_of_nat,
      enc_i64 = (\<lambda>x. nat_bytes 8 (unat x)), dec_i64 = fixed_dec 8 word_of_nat,
      enc_bool = (\<lambda>b. [if b then 1 else 0]), dec_bool = fixed_dec 1 (\<lambda>n. n \<noteq> 0),
      enc_str = sd_enc, dec_str = sd_dec,
      enc_bytes = sd_enc, dec_bytes = sd_dec,
      enc_strs = sds_enc, dec_strs = (\<lambda>bs. sds_dec (length bs) bs)\<rparr>"

lemma sd_dec_enc [simp]: "sd_dec (sd_enc s @ r) = Some (s, r)"
  by (induction s) (auto simp: unat_of_nat)

lemma length_sd_enc: "0 < length (sd_enc s)"
  by (induction s) auto

lemma sds_dec_enc: "length (sds_enc xs) \<le> n \<Longrightarrow> sds_dec n (sds_enc xs @ r) = Some (xs, r)"
proof (induction xs arbitrary: n)
  case Nil
  then show ?case by (cases n) auto
next
  case (Cons x xs)
  then obtain m where "n = Suc m" by (cases n) auto
  with Cons show ?case by simp
qed

lemma fixed_dec_nat_bytes:
  "n < 256 ^ k \<Longrightarrow> fixed_dec k f (nat_bytes k n @ r) = Some (f n, r)"
  by (simp add: fixed_dec_def bytes_nat_bytes)

lemma sd_i32 [simp]: "fixed_dec 4 word_of_nat (nat_bytes 4 (unat (x :: qint32)) @ r) = Some (x, r)"
  using unsigned_less [of x] by (subst fixed_dec_nat_bytes) simp_all

lemma sd_i64 [simp]: "fixed_dec 8 word_of_nat (nat_bytes 8 (unat (x :: qint64)) @ r) = Some (x, r)"
  using unsigned_less [of x] by (subst fixed_dec_nat_bytes) simp_all

lemma sd_qds_ok [simp]: "qds_ok sd_qds"
  unfolding qds_ok_def sd_qds_def
  by (auto simp: sds_dec_enc) (auto simp: fixed_dec_def)

interpretation sd: qt_stream sd_qds
  by unfold_locales simp


section \<open>What reaches the other side\<close>

text \<open>A request survives the wire.  For every data stream that keeps Qt's contract, reading
  back a written request gives its prompts in order, with their types, messages, flags and
  responses, leaves the rest of the stream and keeps its status.\<close>

theorem request_roundtrip:
  assumes "qds_ok c" "int (length (r_prompts q)) < 2 ^ 31"
  shows "get_request c r0 \<lparr>ds_buf = put_request c q @ rest, ds_status = s\<rparr> = (q, \<lparr>ds_buf = rest, ds_status = s\<rparr>)"
  using qt_stream.get_put_request [OF qt_stream.intro [OF assms(1)] assms(2)] by simp

lemma request_roundtrip_witness:
  "get_request sd_qds empty_request \<lparr>ds_buf = put_request sd_qds \<lparr>r_prompts = [mk_prompt LOGIN_PASSWORD ''Password: '' True]\<rparr> @ [7], ds_status = Ok\<rparr>
    = (\<lparr>r_prompts = [mk_prompt LOGIN_PASSWORD ''Password: '' True]\<rparr>, \<lparr>ds_buf = [7], ds_status = Ok\<rparr>)"
  by (rule request_roundtrip) simp_all

text \<open>A session environment survives the wire.  When no variable name contains an equal
  sign, the reader's environment gives every variable the value it had at the writer, and no others
  beyond those it held before.\<close>

theorem environment_roundtrip:
  assumes "qds_ok c" "env_ok e" "\<forall>k \<in> set (env_keys e). CHR ''='' \<notin> set k"
  shows "env_get (fst (get_env c e0 \<lparr>ds_buf = put_env c e @ rest, ds_status = s\<rparr>)) k
    = (case env_get e k of None \<Rightarrow> env_get e0 k | Some v \<Rightarrow> Some v)"
  using qt_stream.rd_strs [OF qt_stream.intro [OF assms(1)], of "[]" "env_strings e" rest s] assms(2,3)
  by (simp add: get_env_def put_env_def fold_env_strings env_get_insert_all)

lemma environment_roundtrip_witness:
  "env_get (fst (get_env sd_qds [] \<lparr>ds_buf = put_env sd_qds [(''HOME'', ''/home/joe=1'')] @ [], ds_status = Ok\<rparr>)) ''HOME''
    = Some ''/home/joe=1''"
  using environment_roundtrip [of sd_qds "[(''HOME'', ''/home/joe=1'')]" "[]" "[]" Ok "''HOME''"]
  by (simp add: env_ok_def env_keys_def env_get_Cons)

text \<open>An entry without an equal sign, which the operator that writes never produces but
  the operator that reads accepts, becomes a variable whose name and value are both the whole entry
  (\<open>left(-1)\<close> and \<open>mid(0)\<close>).\<close>

theorem entry_without_equal_sign:
  assumes "CHR ''='' \<notin> set s"
  shows "env_add_entry s e = env_insert s s e"
  using assms by (simp add: env_add_entry_def Let_def index_of_notin q_left_def q_mid_def)

lemma entry_without_equal_sign_witness: "env_add_entry ''PATH'' [] = env_insert ''PATH'' ''PATH'' []"
  by (rule entry_without_equal_sign) simp

end
