(* ===== verification/Safe_Stream.thy ===== *)
theory Safe_Stream
  imports Wire
begin

text \<open>
  Framing of messages over a local socket (\<open>src/common/SafeDataStream.cpp\<close>).  The socket
  is a Qt object: the model keeps what the code can observe of it.  \<open>dev_avail\<close> holds the
  bytes that can be read at once; \<open>dev_events\<close> is what the socket will report to a
  blocking wait, in order; \<open>dev_accept\<close> gives the result of each \<open>write\<close> call (a
  negative number is an error, and once the list is used up every write is accepted whole).
  A blocking wait with nothing left to report never returns: the result is \<open>None\<close>.

  The header is the object representation of a \<open>qint64\<close>, little-endian on the machines
  the program is built for.
\<close>

datatype dev_event = Arrive "byte list" | Closed

record device =
  dev_open :: bool
  dev_avail :: "byte list"
  dev_events :: "dev_event list"
  dev_accept :: "int list"
  dev_written :: "byte list"

section \<open>The device\<close>

definition dev_write :: "byte list \<Rightarrow> device \<Rightarrow> int \<times> device" where
  "dev_write bs d =
     (case dev_accept d of
        [] \<Rightarrow> (int (length bs), d\<lparr>dev_written := dev_written d @ bs\<rparr>)
      | n # ns \<Rightarrow>
          if n < 0 then (-1, d\<lparr>dev_accept := ns\<rparr>)
          else let k = min (nat n) (length bs)
               in (int k, d\<lparr>dev_accept := ns, dev_written := dev_written d @ take k bs\<rparr>))"

definition dev_wait :: "device \<Rightarrow> device option" where
  "dev_wait d =
     (case dev_events d of
        [] \<Rightarrow> None
      | Arrive bs # es \<Rightarrow> Some (d\<lparr>dev_avail := dev_avail d @ bs, dev_events := es\<rparr>)
      | Closed # es \<Rightarrow> Some (d\<lparr>dev_open := False, dev_events := es\<rparr>))"

text \<open>A read returns at most the bytes at hand, and nothing once the device is closed.\<close>

definition dev_read :: "nat \<Rightarrow> device \<Rightarrow> byte list \<times> device" where
  "dev_read n d =
     (if dev_open d then (take n (dev_avail d), d\<lparr>dev_avail := drop n (dev_avail d)\<rparr>)
      else ([], d))"

section \<open>Sending\<close>

definition header :: "byte list \<Rightarrow> byte list" where
  "header payload = nat_bytes 8 (length payload)"

definition frame :: "byte list \<Rightarrow> byte list" where
  "frame payload = header payload @ payload"

text \<open>
  The write loop: it goes on until \<open>writtenTotal = length\<close>, and gives up on an error or a
  device that has been closed.  The result tells whether the loop completed, after which the
  code resets the stream.
\<close>

function send_loop :: "byte list \<Rightarrow> device \<Rightarrow> bool \<times> device" where
  "send_loop rest d =
     (if rest = [] then (True, d)
      else case dev_write rest d of
        (w, d') \<Rightarrow>
          if w < 0 \<or> \<not> dev_open d' then (False, d')
          else send_loop (drop (nat w) rest) d')"
  by pat_completeness auto
termination
  by (relation "measures [\<lambda>(r, d). length (dev_accept d), \<lambda>(r, d). length r]")
    (auto simp: dev_write_def Let_def split: list.splits if_splits)

declare send_loop.simps [simp del]

definition send :: "byte list \<Rightarrow> device \<Rightarrow> bool \<times> device" where
  "send payload d =
     (if \<not> dev_open d then (False, d)
      else send_loop payload (snd (dev_write (header payload) d)))"

section \<open>Receiving\<close>

text \<open>
  The read loop, with \<open>n\<close> the length announced by the header and \<open>data\<close> what has been
  collected.
\<close>

function receive_loop :: "nat \<Rightarrow> byte list \<Rightarrow> device \<Rightarrow> (byte list \<times> device) option" where
  "receive_loop n data d =
     (if n \<le> length data then Some (data, d)
      else if \<not> dev_open d then Some (data, d)
      else if dev_avail d = [] then
        (case dev_wait d of
           None \<Rightarrow> None
         | Some d1 \<Rightarrow> (case dev_read (n - length data) d1 of (bs, d2) \<Rightarrow> receive_loop n (data @ bs) d2))
      else (case dev_read (n - length data) d of (bs, d2) \<Rightarrow> receive_loop n (data @ bs) d2))"
  by pat_completeness auto
termination
  by (relation "measures [\<lambda>(n, data, d). length (dev_events d), \<lambda>(n, data, d). n - length data]")
    (auto simp: dev_wait_def dev_read_def min_def length_greater_0_conv [symmetric]
      simp del: length_greater_0_conv split: list.splits dev_event.splits)

declare receive_loop.simps [simp del]

text \<open>
  \<open>receive\<close> reads the header into a \<open>qint64\<close> that starts as -1, so the bytes a short read
  does not deliver stay \<open>0xFF\<close>.  A negative length leaves the stream as it was.
\<close>

definition header_value :: "byte list \<Rightarrow> int" where
  "header_value bs = sint (word_of_nat (bytes_nat (bs @ replicate (8 - length bs) 0xFF)) :: qint64)"

definition receive :: "dstream \<Rightarrow> device \<Rightarrow> (dstream \<times> device) option" where
  "receive st d =
     (if \<not> dev_open d then Some (st, d)
      else
        case (if dev_avail d = [] then dev_wait d else Some d) of
          None \<Rightarrow> None
        | Some d1 \<Rightarrow>
            (case dev_read 8 d1 of (h, d2) \<Rightarrow>
               let len = header_value h
               in if len < 0 then Some (st, d2)
                  else map_option (\<lambda>(data, d3). (stream_of data, d3)) (receive_loop (nat len) [] d2)))"

section \<open>What arrives is what was sent\<close>

text \<open>The bytes a device will still deliver before it is closed.\<close>

fun arrivals :: "dev_event list \<Rightarrow> byte list" where
  "arrivals [] = []"
| "arrivals (Arrive bs # es) = bs @ arrivals es"
| "arrivals (Closed # es) = []"

definition incoming :: "device \<Rightarrow> byte list" where
  "incoming d = dev_avail d @ arrivals (dev_events d)"

text \<open>The header can be read in one call: its eight bytes are there when the read is made.\<close>

definition header_ready :: "device \<Rightarrow> bool" where
  "header_ready d \<longleftrightarrow> 8 \<le> length (dev_avail d) \<or>
     dev_avail d = [] \<and> (case dev_events d of Arrive bs # _ \<Rightarrow> 8 \<le> length bs | _ \<Rightarrow> False)"

lemma bytes_nat_append: "bytes_nat (xs @ ys) = bytes_nat xs + 256 ^ length xs * bytes_nat ys"
  by (induction xs) (auto simp: algebra_simps)

lemma bytes_nat_replicate: "Suc (bytes_nat (replicate k 0xFF)) = 256 ^ k"
  by (induction k) auto

lemma sint_qint64: "n < 2 ^ 63 \<Longrightarrow> sint (word_of_nat n :: qint64) = int n"
  by (simp add: signed_of_nat signed_take_bit_int_eq_self)

lemma sint_qint64_neg:
  assumes "2 ^ 63 \<le> n" "n < 2 ^ 64"
  shows "sint (word_of_nat n :: qint64) < 0"
proof -
  have "(int n + 2 ^ 63) mod 2 ^ 64 = int n - 2 ^ 63"
    using assms by (subst mod_pos_geq) auto
  then show ?thesis
    using assms int_word_sint [where 'a = 64, of "int n"] by simp
qed

lemma header_value_frame:
  "length payload < 2 ^ 63 \<Longrightarrow> header_value (header payload) = int (length payload)"
  by (simp add: header_value_def header_def bytes_nat_bytes sint_qint64)

lemma send_loop_complete:
  "dev_open d \<Longrightarrow> \<forall>n \<in> set (dev_accept d). 0 \<le> n \<Longrightarrow>
     \<exists>d'. send_loop rest d = (True, d') \<and> dev_written d' = dev_written d @ rest \<and> dev_open d'"
proof (induction rest d rule: send_loop.induct)
  case (1 rest d)
  show ?case
  proof (cases "rest = []")
    case True
    with "1.prems" show ?thesis by (simp add: send_loop.simps)
  next
    case False
    obtain w d' where w: "dev_write rest d = (w, d')" by fastforce
    then have d': "0 \<le> w" "dev_open d'" "\<forall>n \<in> set (dev_accept d'). 0 \<le> n"
      "dev_written d' = dev_written d @ take (nat w) rest"
      using "1.prems" by (auto simp: dev_write_def Let_def min_def split: list.splits if_splits)
    with "1.IH" [OF False w [symmetric]] obtain d'' where
      "send_loop (drop (nat w) rest) d' = (True, d'')"
      "dev_written d'' = dev_written d @ take (nat w) rest @ drop (nat w) rest" "dev_open d''"
      by auto
    with False w d' show ?thesis by (simp add: send_loop.simps [of rest])
  qed
qed

lemma receive_loop_step:
  assumes "\<not> n \<le> length data" "dev_open d" "dev_avail d \<noteq> []"
  shows "receive_loop n data d =
    receive_loop n (data @ take (n - length data) (dev_avail d))
      (d\<lparr>dev_avail := drop (n - length data) (dev_avail d)\<rparr>)"
  using assms by (subst receive_loop.simps) (simp add: dev_read_def)

lemma receive_loop_wait:
  assumes "\<not> n \<le> length data" "dev_open d" "dev_avail d = []" "dev_events d = Arrive bs # es"
  shows "receive_loop n data d =
    receive_loop n (data @ take (n - length data) bs)
      (d\<lparr>dev_events := es, dev_avail := drop (n - length data) bs\<rparr>)"
  using assms by (subst receive_loop.simps) (simp add: dev_read_def dev_wait_def)

definition collected :: "nat \<Rightarrow> byte list \<Rightarrow> device \<Rightarrow> bool" where
  "collected n data d \<longleftrightarrow>
     (\<exists>d'. receive_loop n data d = Some (data @ take (n - length data) (incoming d), d')
        \<and> incoming d' = drop (n - length data) (incoming d) \<and> dev_open d')"

lemma collected_step:
  assumes "collected n (data @ take (n - length data) bs) d2"
    and "receive_loop n data d = receive_loop n (data @ take (n - length data) bs) d2"
    and "incoming d = bs @ r" "incoming d2 = drop (n - length data) bs @ r"
  shows "collected n data d"
proof -
  let ?k = "n - length data"
  have "n - length (data @ take ?k bs) = ?k - length bs" by simp
  moreover have "drop (?k - length bs) (drop ?k bs @ r) = drop ?k (bs @ r)"
    "take (?k - length bs) (drop ?k bs @ r) = take (?k - length bs) r"
    by (cases "?k \<le> length bs"; simp)+
  ultimately show ?thesis using assms by (simp add: collected_def)
qed

lemma receive_loop_complete:
  "dev_open d \<Longrightarrow> length data \<le> n \<Longrightarrow> n - length data \<le> length (incoming d) \<Longrightarrow> collected n data d"
proof (induction n data d rule: receive_loop.induct)
  case (1 n data d)
  let ?k = "n - length data"
  show ?case
  proof (cases "n \<le> length data")
    case True
    with "1.prems" show ?thesis by (simp add: receive_loop.simps collected_def)
  next
    case more: False
    show ?thesis
    proof (cases "dev_avail d = []")
      case False
      let ?d2 = "d\<lparr>dev_avail := drop ?k (dev_avail d)\<rparr>"
      have "collected n (data @ take ?k (dev_avail d)) ?d2"
        by (rule "1.IH"(2)) (use more False "1.prems" in \<open>simp_all add: dev_read_def incoming_def\<close>)
      then show ?thesis
        by (rule collected_step [OF _ receive_loop_step [OF more "1.prems"(1) False]])
          (simp_all add: incoming_def)
    next
      case True
      then obtain bs es where e: "dev_events d = Arrive bs # es"
        using "1.prems"(3) more by (cases "dev_events d" rule: arrivals.cases) (auto simp: incoming_def)
      let ?d2 = "d\<lparr>dev_events := es, dev_avail := drop ?k bs\<rparr>"
      have "collected n (data @ take ?k bs) ?d2"
        by (rule "1.IH"(1) [of "d\<lparr>dev_avail := bs, dev_events := es\<rparr>"])
          (use more True "1.prems" e in \<open>simp_all add: dev_read_def dev_wait_def incoming_def\<close>)
      then show ?thesis
        by (rule collected_step [OF _ receive_loop_wait [OF more "1.prems"(1) True e]])
          (simp_all add: incoming_def e True)
    qed
  qed
qed

lemma receive_complete:
  assumes "dev_open d" "header_ready d" "length payload < 2 ^ 63" "incoming d = frame payload @ rest"
  shows "\<exists>d'. receive st d = Some (stream_of payload, d') \<and> incoming d' = rest \<and> dev_open d'"
proof -
  obtain d1 where d1: "(if dev_avail d = [] then dev_wait d else Some d) = Some d1"
    "dev_open d1" "8 \<le> length (dev_avail d1)" "incoming d1 = frame payload @ rest"
  proof (cases "dev_avail d = []")
    case True
    with assms(2) obtain bs es where "dev_events d = Arrive bs # es" "8 \<le> length bs"
      by (auto simp: header_ready_def split: list.splits dev_event.splits)
    with True assms that [of "d\<lparr>dev_events := es, dev_avail := bs\<rparr>"] show ?thesis
      by (simp add: dev_wait_def incoming_def)
  next
    case False
    with assms that [of d] show ?thesis by (simp add: header_ready_def)
  qed
  let ?d2 = "d1\<lparr>dev_avail := drop 8 (dev_avail d1)\<rparr>"
  have "take 8 (incoming d1) = header payload" "drop 8 (incoming d1) = payload @ rest"
    using d1(4) by (simp_all add: frame_def header_def)
  then have h: "take 8 (dev_avail d1) = header payload" "incoming ?d2 = payload @ rest"
    using d1(3) by (simp_all add: incoming_def)
  then have "collected (length payload) [] ?d2"
    by (intro receive_loop_complete) (simp_all add: d1)
  then show ?thesis
    using assms(1) d1 h header_value_frame [OF assms(3)]
    by (auto simp: receive_def dev_read_def collected_def)
qed

lemma send_complete:
  assumes "dev_open d" "\<forall>n \<in> set (dev_accept d). 0 \<le> n"
    and "dev_accept d = [] \<or> 8 \<le> hd (dev_accept d)"
  shows "\<exists>d'. send payload d = (True, d') \<and> dev_written d' = dev_written d @ frame payload"
proof -
  obtain w d1 where w: "dev_write (header payload) d = (w, d1)" by fastforce
  then have "dev_open d1" "\<forall>n \<in> set (dev_accept d1). 0 \<le> n"
    "dev_written d1 = dev_written d @ header payload"
    using assms by (auto simp: dev_write_def header_def Let_def min_def split: list.splits if_splits)
  with send_loop_complete [of d1 payload] w assms(1) show ?thesis
    by (auto simp: send_def frame_def)
qed

lemma header_value_short:
  assumes "length bs < 8"
  shows "header_value bs < 0"
proof -
  define k where "k = 8 - length bs"
  define m where "m = bytes_nat (bs @ replicate k 0xFF)"
  have lt: "bytes_nat xs < 256 ^ length xs" for xs
  proof (induction xs)
    case (Cons b xs)
    have "unat b < 256" using unsigned_less [of b] by simp
    with Cons show ?case by simp
  qed simp
  have "m = bytes_nat bs + 256 ^ length bs * (256 ^ k - 1)"
    using bytes_nat_replicate [of k] by (simp add: m_def bytes_nat_append)
  then have "m \<ge> 256 ^ length bs * 256 ^ k - 256 ^ length bs"
    by (simp add: right_diff_distrib')
  moreover have "(256 :: nat) ^ length bs * 256 ^ k = 256 ^ 8"
    using assms by (simp add: k_def flip: power_add)
  moreover have "(256 :: nat) ^ length bs \<le> 256 ^ 7"
    using assms by (intro power_increasing) auto
  ultimately have "2 ^ 63 \<le> m" by simp
  moreover have "m < 2 ^ 64"
    using lt [of "bs @ replicate k 0xFF"] assms by (simp add: m_def k_def)
  ultimately show ?thesis
    using sint_qint64_neg by (simp add: header_value_def m_def k_def)
qed


text \<open>Property C6: a message sent is received whole.  The device may take the payload in any pieces,
  and the bytes may arrive at the other side in any pieces as long as the header is there when it is
  read: \<open>receive\<close> then gives exactly the payload, and leaves what follows on the device.\<close>

theorem framed_message_roundtrip:
  assumes "dev_open d" "\<forall>n \<in> set (dev_accept d). 0 \<le> n" "dev_accept d = [] \<or> 8 \<le> hd (dev_accept d)"
    and "dev_written d = []" "length payload < 2 ^ 63"
    and "dev_open r" "header_ready r" "incoming r = dev_written (snd (send payload d)) @ rest"
  shows "fst (send payload d) \<and>
    (\<exists>r'. receive st r = Some (stream_of payload, r') \<and> incoming r' = rest \<and> dev_open r')"
proof -
  from send_complete [OF assms(1-3), of payload] obtain d' where
    d': "send payload d = (True, d')" "dev_written d' = frame payload"
    using assms(4) by auto
  with assms(8) have "incoming r = frame payload @ rest" by simp
  from receive_complete [OF assms(6,7,5) this] d' show ?thesis by simp
qed

definition sample_sender :: device where
  "sample_sender = \<lparr>dev_open = True, dev_avail = [], dev_events = [], dev_accept = [8, 1], dev_written = []\<rparr>"

definition sample_receiver :: device where
  "sample_receiver = \<lparr>dev_open = True, dev_avail = [2, 0, 0, 0, 0, 0, 0, 0, 65], dev_events = [Arrive [66, 67]],
     dev_accept = [], dev_written = []\<rparr>"

lemma framed_message_roundtrip_witness:
  "\<exists>r'. receive (stream_of []) sample_receiver = Some (stream_of [65, 66], r') \<and> incoming r' = [67]"
proof -
  have "frame [65, 66] = [2, 0, 0, 0, 0, 0, 0, 0, 65, 66]" by code_simp
  with send_complete [of sample_sender "[65, 66]"]
  have "dev_written (snd (send [65, 66] sample_sender)) = [2, 0, 0, 0, 0, 0, 0, 0, 65, 66]"
    by (auto simp: sample_sender_def)
  then have "fst (send [65, 66] sample_sender) \<and>
     (\<exists>r'. receive (stream_of []) sample_receiver = Some (stream_of [65, 66], r') \<and> incoming r' = [67] \<and> dev_open r')"
    by (intro framed_message_roundtrip)
      (simp_all add: sample_sender_def sample_receiver_def header_ready_def incoming_def)
  then show ?thesis by blast
qed

text \<open>A header that has not arrived whole when it is read loses the message's first
  bytes.  The bytes at hand are consumed, the unread part of the length stays \<open>0xFF\<close>, the length
  is negative and \<open>receive\<close> returns with the stream as it was, so what arrives next is taken for a
  header.\<close>

theorem short_header_swallowed:
  assumes "dev_open d" "dev_avail d \<noteq> []" "length (dev_avail d) < 8"
  shows "receive st d = Some (st, d\<lparr>dev_avail := []\<rparr>)"
  using assms header_value_short [of "dev_avail d"]
  by (simp add: receive_def dev_read_def Let_def)

lemma short_header_swallowed_witness:
  "receive (stream_of [9]) \<lparr>dev_open = True, dev_avail = [2, 0, 0], dev_events = [Arrive [0, 0, 0, 0, 0, 65, 66]], dev_accept = [], dev_written = []\<rparr>
    = Some (stream_of [9], \<lparr>dev_open = True, dev_avail = [], dev_events = [Arrive [0, 0, 0, 0, 0, 65, 66]], dev_accept = [], dev_written = []\<rparr>)"
  using short_header_swallowed [of "\<lparr>dev_open = True, dev_avail = [2, 0, 0], dev_events = [Arrive [0, 0, 0, 0, 0, 65, 66]], dev_accept = [], dev_written = []\<rparr>" "stream_of [9]"]
  by simp

end
