(* ===== verification/Auth_Request.thy ===== *)
theory Auth_Request
  imports Wire
begin

text \<open>
  The daemon's view of a request of the authentication stack: \<open>AuthRequest\<close> and
  \<open>AuthPrompt\<close> (\<open>src/auth/AuthRequest.cpp\<close>, \<open>src/auth/AuthPrompt.cpp\<close>).  All prompts
  of a request are created together, so whether their \<open>responseChanged\<close> signal is connected
  is one flag of the request.  The first result of an operation tells whether it emits
  \<open>finished\<close>.
\<close>

record AuthRequest =
  ar_prompts :: "Prompt list"
  ar_connected :: bool
  ar_finishAutomatically :: bool
  ar_finished :: bool

definition init_auth_request :: AuthRequest where
  "init_auth_request = \<lparr>ar_prompts = [], ar_connected = False, ar_finishAutomatically = False, ar_finished = True\<rparr>"

definition ar_setRequest :: "Request option \<Rightarrow> AuthRequest \<Rightarrow> AuthRequest" where
  "ar_setRequest request ar =
     (case request of
        None \<Rightarrow> ar\<lparr>ar_prompts := []\<rparr>
      | Some r \<Rightarrow> ar\<lparr>ar_prompts := r_prompts r, ar_connected := ar_finishAutomatically ar, ar_finished := False\<rparr>)"

definition ar_done :: "AuthRequest \<Rightarrow> bool \<times> AuthRequest" where
  "ar_done ar = (if \<not> ar_finished ar then (True, ar\<lparr>ar_finished := True\<rparr>) else (False, ar))"

text \<open>The slot \<open>Private::responseChanged\<close>.\<close>

definition ar_responseChanged :: "AuthRequest \<Rightarrow> bool \<times> AuthRequest" where
  "ar_responseChanged ar =
     (if list_ex (\<lambda>p. p_response p = []) (ar_prompts ar) then (False, ar)
      else if ar_finishAutomatically ar \<and> ar_prompts ar \<noteq> [] then ar_done ar
      else (False, ar))"

text \<open>\<open>AuthPrompt::setResponse\<close> of the prompt at a position.\<close>

definition ar_setResponse :: "nat \<Rightarrow> QByteArray \<Rightarrow> AuthRequest \<Rightarrow> bool \<times> AuthRequest" where
  "ar_setResponse i r ar =
     (if r \<noteq> p_response (ar_prompts ar ! i) then
        (let ar1 = ar\<lparr>ar_prompts := (ar_prompts ar)[i := (ar_prompts ar ! i)\<lparr>p_response := r\<rparr>]\<rparr>
         in if ar_connected ar1 then ar_responseChanged ar1 else (False, ar1))
      else (False, ar))"

definition ar_setFinishAutomatically :: "bool \<Rightarrow> AuthRequest \<Rightarrow> AuthRequest" where
  "ar_setFinishAutomatically value ar =
     (if value \<noteq> ar_finishAutomatically ar then ar\<lparr>ar_finishAutomatically := value\<rparr> else ar)"

definition ar_request :: "AuthRequest \<Rightarrow> Request" where
  "ar_request ar = \<lparr>r_prompts = ar_prompts ar\<rparr>"

text \<open>
  What a slot connected to \<open>requestChanged\<close> does with the request, as a sequence of
  operations on it; an operation on a prompt that does not exist is not executed by any slot
  of the program and has no effect here.
\<close>

datatype req_op = SetResponse nat QByteArray | Done | SetFinishAutomatically bool

fun ar_op :: "req_op \<Rightarrow> AuthRequest \<Rightarrow> bool \<times> AuthRequest" where
  "ar_op (SetResponse i r) ar = (if i < length (ar_prompts ar) then ar_setResponse i r ar else (False, ar))"
| "ar_op Done ar = ar_done ar"
| "ar_op (SetFinishAutomatically v) ar = (False, ar_setFinishAutomatically v ar)"

lemma ar_op_finished: "ar_finished ar \<Longrightarrow> fst (ar_op x ar) = False \<and> ar_finished (snd (ar_op x ar))"
  by (cases x) (auto simp: ar_setResponse_def ar_responseChanged_def ar_done_def
      ar_setFinishAutomatically_def Let_def)

lemma ar_op_questions:
  "map (p_response_update (\<lambda>_. [])) (ar_prompts (snd (ar_op x ar))) = map (p_response_update (\<lambda>_. [])) (ar_prompts ar)"
  by (cases x) (auto simp: ar_setResponse_def ar_responseChanged_def ar_done_def
      ar_setFinishAutomatically_def Let_def map_update list_update_same_conv intro!: list_update_id)

text \<open>
  A request finishes at most once: \<open>done\<close> takes effect only while it is unfinished, and
  clearing the request does not make it unfinished again.
\<close>

lemma ar_clear_finished [simp]: "ar_finished (ar_setRequest None ar) = ar_finished ar"
  by (simp add: ar_setRequest_def)

end
