(* ===== verification/Helper_Channel.thy ===== *)
theory Helper_Channel
  imports Wire
begin

text \<open>
  The helper's side of the socket to the daemon: the slots of \<open>HelperApp\<close>
  (\<open>src/helper/HelperApp.cpp\<close>) that send one message and, where the protocol has an
  answer, wait for it.  The channel is the list of payloads sent and the list of payloads the
  daemon will answer with; framing them is the business of the theory Safe_Stream.  When the
  daemon is gone nothing more arrives and the stream that is read is empty.
\<close>

record channel =
  ch_out :: "byte list list"
  ch_in :: "byte list list"

definition ch_send :: "byte list \<Rightarrow> channel \<Rightarrow> channel" where
  "ch_send p ch = ch\<lparr>ch_out := ch_out ch @ [p]\<rparr>"

definition ch_receive :: "channel \<Rightarrow> dstream \<times> channel" where
  "ch_receive ch =
     (case ch_in ch of [] \<Rightarrow> (stream_of [], ch) | p # ps \<Rightarrow> (stream_of p, ch\<lparr>ch_in := ps\<rparr>))"

definition helper_hello :: "qds \<Rightarrow> qint64 \<Rightarrow> channel \<Rightarrow> channel" where
  "helper_hello c m_id ch = ch_send (put_msg c HELLO @ enc_i64 c m_id) ch"

definition helper_info :: "qds \<Rightarrow> QString \<Rightarrow> AuthInfo \<Rightarrow> channel \<Rightarrow> channel" where
  "helper_info c message type ch = ch_send (put_msg c INFO @ enc_str c message @ put_info c type) ch"

definition helper_error :: "qds \<Rightarrow> QString \<Rightarrow> AuthError \<Rightarrow> channel \<Rightarrow> channel" where
  "helper_error c message type ch = ch_send (put_msg c ERROR @ enc_str c message @ put_error c type) ch"

definition helper_request :: "qds \<Rightarrow> Request \<Rightarrow> channel \<Rightarrow> Request \<times> channel" where
  "helper_request c request ch =
     (let (st, ch2) = ch_receive (ch_send (put_msg c REQUEST @ put_request c request) ch);
          (m, st1) = get_msg c MSG_UNKNOWN st;
          (response, st2) = get_request c empty_request st1
      in (if m \<noteq> REQUEST then empty_request else response, ch2))"

definition helper_authenticated :: "qds \<Rightarrow> QString \<Rightarrow> channel \<Rightarrow> env \<times> channel" where
  "helper_authenticated c user ch =
     (let ch1 = ch_send (put_msg c AUTHENTICATED @ enc_str c user) ch
      in if user = [] then ([], ch1)
         else
           let (st, ch2) = ch_receive ch1;
               (m, st1) = get_msg c MSG_UNKNOWN st;
               (e, st2) = get_env c [] st1
           in (if m \<noteq> AUTHENTICATED then [] else e, ch2))"

text \<open>The answers to these two only produce a log line when their opcode is wrong.\<close>

definition helper_session_opened :: "qds \<Rightarrow> bool \<Rightarrow> channel \<Rightarrow> channel" where
  "helper_session_opened c success ch =
     snd (ch_receive (ch_send (put_msg c SESSION_STATUS @ enc_bool c success) ch))"

definition helper_display_server_started :: "qds \<Rightarrow> QString \<Rightarrow> channel \<Rightarrow> channel" where
  "helper_display_server_started c displayName ch =
     snd (ch_receive (ch_send (put_msg c DISPLAY_SERVER_STARTED @ enc_str c displayName) ch))"

lemmas channel_defs [step_defs] =
  ch_send_def helper_hello_def helper_info_def helper_error_def helper_session_opened_def
  helper_display_server_started_def

lemma ch_out_send [simp]: "ch_out (ch_send p ch) = ch_out ch @ [p]"
  by (simp add: ch_send_def)

lemma ch_in_send [simp]: "ch_in (ch_send p ch) = ch_in ch"
  by (simp add: ch_send_def)

lemma ch_receive_out [simp]: "ch_out (snd (ch_receive ch)) = ch_out ch"
  by (simp add: ch_receive_def split: list.splits)

lemma ch_receive_Cons [simp]: "ch_in ch = p # ps \<Longrightarrow> ch_receive ch = (stream_of p, ch\<lparr>ch_in := ps\<rparr>)"
  by (simp add: ch_receive_def)

lemma ch_receive_Nil [simp]: "ch_in ch = [] \<Longrightarrow> ch_receive ch = (stream_of [], ch)"
  by (simp add: ch_receive_def)

context qt_stream begin

lemma request_answered:
  assumes "ch_in ch = (put_msg c REQUEST @ put_request c q') # ps" "int (length (r_prompts q')) < 2 ^ 31"
  shows "helper_request c q ch
     = (q', ch\<lparr>ch_out := ch_out ch @ [put_msg c REQUEST @ put_request c q], ch_in := ps\<rparr>)"
  using assms get_put_request [of q' empty_request "[]" Ok]
  by (simp add: helper_request_def stream_of_def empty_request_def ch_send_def)

lemma request_wrong_opcode:
  assumes "ch_in ch = (put_msg c m @ r) # ps" "m \<noteq> REQUEST" "m \<noteq> MSG_UNKNOWN" "m \<noteq> MSG_LAST"
  shows "fst (helper_request c q ch) = empty_request"
  using assms by (simp add: helper_request_def stream_of_def split: prod.splits)

lemma authenticated_answered:
  assumes "ch_in ch = (put_msg c AUTHENTICATED @ put_env c e) # ps" "user \<noteq> []"
    and "\<forall>k \<in> set (env_keys e). CHR ''='' \<notin> set k"
  shows "helper_authenticated c user ch
     = (env_insert_all [] e, ch\<lparr>ch_out := ch_out ch @ [put_msg c AUTHENTICATED @ enc_str c user], ch_in := ps\<rparr>)"
  using assms rd_strs [of "[]" "env_strings e" "[]" Ok] fold_env_strings [of e "[]"]
  by (simp add: helper_authenticated_def stream_of_def ch_send_def get_env_def put_env_def)

end

lemma authenticated_empty: "helper_authenticated c [] ch = ([], ch_send (put_msg c AUTHENTICATED @ enc_str c []) ch)"
  by (simp add: helper_authenticated_def Let_def)

end
