(* ===== verification/User_Session.thy ===== *)
theory User_Session
  imports Prelude
begin

text \<open>
  The session process of the helper (\<open>src/helper/UserSession.cpp\<close>): how the session
  command is chosen and started, how it is stopped, and the code that runs in the child
  between \<open>fork\<close> and \<open>exec\<close>, which takes the terminal and gives up root.

  The child code is a sequence of system calls.  A step is a call together with the exit code
  the child dies with when the call fails, or \<open>None\<close> when the code goes on.  What a call
  answers is a parameter \<open>ok\<close>.
\<close>

section \<open>Starting and stopping\<close>

record build_config =
  LIBEXEC_INSTALL_DIR :: string
  DATA_INSTALL_DIR :: string
  SESSION_COMMAND :: string
  WAYLAND_SESSION_COMMAND :: string

text \<open>\<open>Auth::HelperExitStatus\<close> (\<open>src/auth/Auth.h\<close>), as exit codes.\<close>

definition HELPER_SUCCESS :: int where "HELPER_SUCCESS = 0"
definition HELPER_AUTH_ERROR :: int where "HELPER_AUTH_ERROR = 1"
definition HELPER_SESSION_ERROR :: int where "HELPER_SESSION_ERROR = 2"
definition HELPER_OTHER_ERROR :: int where "HELPER_OTHER_ERROR = 3"
definition HELPER_DISPLAYSERVER_ERROR :: int where "HELPER_DISPLAYSERVER_ERROR = 4"
definition HELPER_TTY_ERROR :: int where "HELPER_TTY_ERROR = 5"

lemmas helper_exit_defs =
  HELPER_SUCCESS_def HELPER_AUTH_ERROR_def HELPER_SESSION_ERROR_def HELPER_OTHER_ERROR_def
  HELPER_DISPLAYSERVER_ERROR_def HELPER_TTY_ERROR_def

record session =
  us_path :: QString
  us_env :: env
  us_program :: QString
  us_arguments :: QStringList
  us_running :: bool

definition init_session :: session where
  "init_session = \<lparr>us_path = [], us_env = [], us_program = [], us_arguments = [], us_running = False\<rparr>"

text \<open>
  \<open>start()\<close>: the first result is the function's; \<open>came_up\<close> is what
  \<open>waitForStarted\<close> reports about a process that has been launched.
\<close>

definition us_start :: "build_config \<Rightarrow> bool \<Rightarrow> session \<Rightarrow> bool \<times> session" where
  "us_start cfg came_up s =
     (let type = env_value (us_env s) ''XDG_SESSION_TYPE'' in
      if type = ''x11'' then
        (came_up, s\<lparr>us_program := LIBEXEC_INSTALL_DIR cfg @ ''/plasmalogin-helper-start-x11user'',
           us_arguments := [SESSION_COMMAND cfg @ '' \"'' @ us_path s @ ''\"''], us_running := came_up\<rparr>)
      else if type = ''wayland'' then
        (let isWaylandGreeter = (env_value (us_env s) ''XDG_SESSION_CLASS'' = ''greeter'')
         in (came_up \<or> isWaylandGreeter,
             s\<lparr>us_program := WAYLAND_SESSION_COMMAND cfg, us_arguments := [us_path s], us_running := came_up\<rparr>))
      else (False, s))"

datatype session_effect = Terminate | WaitFinished nat | Kill | EmitFinished int

text \<open>\<open>stop()\<close>: \<open>ends_in\<close> tells which of the two waits, if any, sees the process end.\<close>

definition us_stop :: "bool \<Rightarrow> session \<Rightarrow> session_effect list" where
  "us_stop first_wait s =
     (if us_running s then
        (let isGreeter = (env_value (us_env s) ''XDG_SESSION_CLASS'' = ''greeter'')
         in [Terminate, WaitFinished (if isGreeter then 5000 else 60000)]
            @ (if first_wait then [] else [Kill, WaitFinished 5000]))
      else [EmitFinished HELPER_OTHER_ERROR])"

section \<open>The child between fork and exec\<close>

record passwd =
  pw_name :: string
  pw_uid :: nat
  pw_gid :: nat
  pw_dir :: string
  pw_shell :: string

datatype syscall =
    OpenTty string
  | DupToStdin string
  | Setsid
  | TakeTty
  | JumpVt int bool
  | OpenNs string
  | Setns string
  | AllocPwBuffer
  | Getpwnam string
  | Setgid nat
  | Getgroups
  | Getgrouplist string nat
  | Setgroups "nat list"
  | Setuid nat
  | Chdir string
  | Mkpath string
  | OpenLog string
  | DupLogToStderr
  | OpenNull
  | DupNullToStdout

type_synonym step = "syscall \<times> int option"

fun run_steps :: "(syscall \<Rightarrow> bool) \<Rightarrow> step list \<Rightarrow> syscall list \<times> int option" where
  "run_steps ok [] = ([], None)"
| "run_steps ok ((s, e) # ss) =
     (if ok s \<or> e = None then (case run_steps ok ss of (done, r) \<Rightarrow> (s # done, r))
      else ([s], e))"

text \<open>What the child looks up: the configuration, the user, and the groups.\<close>

record child_world =
  cw_namespaces :: "string list"
  cw_x11_log :: string
  cw_wayland_log :: string
  cw_pw :: passwd
  cw_pam_groups :: "nat list"
  cw_user_groups :: "nat list"

definition vt_path :: "int \<Rightarrow> string" where
  "vt_path vt = ''/dev/tty'' @ number vt"

definition tty_steps :: "(syscall \<Rightarrow> bool) \<Rightarrow> env \<Rightarrow> step list" where
  "tty_steps ok e =
     (let x11Session = (env_value e ''XDG_SESSION_TYPE'' = ''x11'');
          vtNumber = to_int (env_value e ''XDG_VTNR'');
          tty = vt_path vtNumber;
          takeControl = (0 < vtNumber \<and> ok (OpenTty tty))
      in [(OpenTty tty, None), (DupToStdin (if takeControl then tty else ''/dev/null''), None),
          (Setsid, Some HELPER_OTHER_ERROR)]
         @ (if takeControl then [(TakeTty, Some HELPER_TTY_ERROR)] else [])
         @ (if 0 < vtNumber then [(JumpVt vtNumber x11Session, None)] else []))"

definition namespace_steps :: "string list \<Rightarrow> step list" where
  "namespace_steps nss =
     concat (map (\<lambda>ns. [(OpenNs ns, Some HELPER_OTHER_ERROR), (Setns ns, Some HELPER_OTHER_ERROR)]) nss)"

text \<open>
  The switch to the user.  The groups PAM left on the process come first, then the user's own;
  \<open>setgroups\<close> is skipped when there are none at all.
\<close>

definition user_steps :: "string \<Rightarrow> child_world \<Rightarrow> step list" where
  "user_steps username w =
     (let pw = cw_pw w; groups = cw_pam_groups w @ cw_user_groups w in
      [(AllocPwBuffer, Some HELPER_OTHER_ERROR),
       (Getpwnam username, Some HELPER_OTHER_ERROR),
       (Setgid (pw_gid pw), Some HELPER_OTHER_ERROR)]
      @ (if cw_pam_groups w \<noteq> [] then [(Getgroups, Some HELPER_OTHER_ERROR)] else [])
      @ (if cw_user_groups w \<noteq> [] then [(Getgrouplist (pw_name pw) (pw_gid pw), Some HELPER_OTHER_ERROR)] else [])
      @ (if groups \<noteq> [] then [(Setgroups groups, Some HELPER_OTHER_ERROR)] else [])
      @ [(Setuid (pw_uid pw), Some HELPER_OTHER_ERROR),
         (Chdir (pw_dir pw), Some HELPER_OTHER_ERROR)])"

definition session_log :: "env \<Rightarrow> child_world \<Rightarrow> string" where
  "session_log e w = pw_dir (cw_pw w) @ ''/'' @
     (if env_value e ''XDG_SESSION_TYPE'' = ''x11'' then cw_x11_log w else cw_wayland_log w)"

definition log_steps :: "(syscall \<Rightarrow> bool) \<Rightarrow> env \<Rightarrow> child_world \<Rightarrow> step list" where
  "log_steps ok e w =
     (if env_value e ''XDG_SESSION_CLASS'' \<noteq> ''greeter'' then
        (let log = session_log e w in
         [(Mkpath log, None), (OpenLog log, None)]
         @ (if ok (OpenLog log) then [(DupLogToStderr, None)] else [])
         @ [(OpenNull, None)]
         @ (if ok OpenNull then [(DupNullToStdout, None)] else []))
      else [])"

definition childModifier_steps :: "(syscall \<Rightarrow> bool) \<Rightarrow> string \<Rightarrow> env \<Rightarrow> child_world \<Rightarrow> step list" where
  "childModifier_steps ok username e w =
     tty_steps ok e @ namespace_steps (cw_namespaces w) @ user_steps username w @ log_steps ok e w"

text \<open>
  The calls the child makes and its exit code, or \<open>None\<close> when it goes on to \<open>exec\<close> the
  session program.
\<close>

definition childModifier :: "(syscall \<Rightarrow> bool) \<Rightarrow> string \<Rightarrow> env \<Rightarrow> child_world \<Rightarrow> syscall list \<times> int option" where
  "childModifier ok username e w = run_steps ok (childModifier_steps ok username e w)"

section \<open>Properties of step sequences\<close>

lemma run_steps_append:
  "run_steps ok (xs @ ys) =
     (case run_steps ok xs of
        (done, None) \<Rightarrow> (case run_steps ok ys of (done', r) \<Rightarrow> (done @ done', r))
      | (done, Some e) \<Rightarrow> (done, Some e))"
  by (induction xs) (auto split: prod.splits option.splits)

lemma run_steps_success:
  "snd (run_steps ok ss) = None \<Longrightarrow> fst (run_steps ok ss) = map fst ss"
  by (induction ss) (auto split: prod.splits if_splits)

lemma run_steps_none_iff:
  "snd (run_steps ok ss) = None \<longleftrightarrow> (\<forall>(s, e) \<in> set ss. e = None \<or> ok s)"
  by (induction ss) (auto split: prod.splits if_splits)

lemma run_steps_exit:
  "snd (run_steps ok ss) = Some code \<Longrightarrow> (\<exists>s. (s, Some code) \<in> set ss \<and> \<not> ok s)"
  by (induction ss) (auto split: prod.splits if_splits)

text \<open>What has been done when a given step is reached is exactly what precedes it.\<close>

lemma run_steps_prefix: "\<exists>rest. map fst ss = fst (run_steps ok ss) @ rest"
  by (induction ss) (auto split: prod.splits if_splits)


section \<open>Giving up root\<close>

text \<open>A call of a sequence that the child got past was made after all the calls before it, and each
  of those that may not fail succeeded.\<close>

lemma run_steps_reached:
  assumes "s \<in> set (fst (run_steps ok (xs @ ys)))" "s \<notin> set (map fst xs)"
  shows "\<exists>post. fst (run_steps ok (xs @ ys)) = map fst xs @ post \<and> snd (run_steps ok xs) = None"
proof -
  obtain xd r where x: "run_steps ok xs = (xd, r)" by fastforce
  show ?thesis
  proof (cases r)
    case None
    then have "xd = map fst xs" using run_steps_success [of ok xs] x by simp
    with None x show ?thesis by (auto simp: run_steps_append split: prod.splits)
  next
    case (Some e)
    then have "fst (run_steps ok (xs @ ys)) = xd" using x by (simp add: run_steps_append)
    moreover obtain rest where "map fst xs = xd @ rest" using run_steps_prefix [of xs ok] x by auto
    ultimately show ?thesis using assms by auto
  qed
qed

definition before_log :: "(syscall \<Rightarrow> bool) \<Rightarrow> string \<Rightarrow> env \<Rightarrow> child_world \<Rightarrow> step list" where
  "before_log ok username e w = tty_steps ok e @ namespace_steps (cw_namespaces w) @ user_steps username w"

lemma childModifier_split: "childModifier ok u e w = run_steps ok (before_log ok u e w @ log_steps ok e w)"
  by (simp add: childModifier_def childModifier_steps_def before_log_def)

lemma namespace_calls: "s \<in> fst ` set (namespace_steps nss) \<Longrightarrow> (\<exists>ns. s = OpenNs ns) \<or> (\<exists>ns. s = Setns ns)"
  by (auto simp: namespace_steps_def)

lemma no_log_before: "OpenLog l \<notin> set (map fst (before_log ok u e w))"
  using namespace_calls [of "OpenLog l" "cw_namespaces w"]
  by (auto simp: before_log_def tty_steps_def user_steps_def Let_def)

lemma user_steps_tail:
  "\<exists>pre. map fst (before_log ok u e w) = pre @ [Setuid (pw_uid (cw_pw w)), Chdir (pw_dir (cw_pw w))]
    \<and> Setgid (pw_gid (cw_pw w)) \<in> set pre
    \<and> (cw_pam_groups w @ cw_user_groups w \<noteq> [] \<longrightarrow> Setgroups (cw_pam_groups w @ cw_user_groups w) \<in> set pre)"
  by (simp add: before_log_def user_steps_def Let_def)

lemma before_log_required:
  assumes "snd (run_steps ok (before_log ok u e w)) = None"
  shows "ok (Setgid (pw_gid (cw_pw w)))" "ok (Setuid (pw_uid (cw_pw w)))"
    "cw_pam_groups w @ cw_user_groups w \<noteq> [] \<longrightarrow> ok (Setgroups (cw_pam_groups w @ cw_user_groups w))"
  using assms by (auto simp: run_steps_none_iff before_log_def user_steps_def Let_def)


definition sample_world :: child_world where
  "sample_world = \<lparr>cw_namespaces = [''/run/netns/joe''], cw_x11_log = ''x.log'', cw_wayland_log = ''w.log'',
     cw_pw = \<lparr>pw_name = ''joe'', pw_uid = 1000, pw_gid = 100, pw_dir = ''/home/joe'', pw_shell = ''/bin/sh''\<rparr>,
     cw_pam_groups = [10], cw_user_groups = [100]\<rparr>"


text \<open>The exit code of a child that fails: \<open>HELPER_TTY_ERROR\<close> only when it could not take
  control of the terminal of the session's VT, and \<open>HELPER_OTHER_ERROR\<close> in every other case.  It never dies
  with the code of an authentication or session error.\<close>

theorem child_exit_codes:
  assumes "snd (childModifier ok username e w) = Some code"
  shows "code = HELPER_OTHER_ERROR \<or> code = HELPER_TTY_ERROR \<and> \<not> ok TakeTty
    \<and> 0 < to_int (env_value e ''XDG_VTNR'')"
  using run_steps_exit [OF assms [unfolded childModifier_def]]
  by (auto simp: childModifier_steps_def tty_steps_def namespace_steps_def user_steps_def log_steps_def
      Let_def split: if_splits)

lemma child_exit_codes_witness:
  "case snd (childModifier (\<lambda>s. s \<noteq> TakeTty) ''joe'' [(''XDG_VTNR'', ''2'')] sample_world) of
     None \<Rightarrow> False | Some code \<Rightarrow> code = HELPER_OTHER_ERROR \<or> code = HELPER_TTY_ERROR"
proof -
  have "snd (childModifier (\<lambda>s. s \<noteq> TakeTty) ''joe'' [(''XDG_VTNR'', ''2'')] sample_world) = Some HELPER_TTY_ERROR"
    by code_simp
  from child_exit_codes [OF this] this show ?thesis by auto
qed

end
