(* ===== verification/Auth_Daemon.thy ===== *)
theory Auth_Daemon
  imports Auth_Request Helper_Channel User_Session
begin

text \<open>
  The daemon's end of an authentication (\<open>src/auth/Auth.cpp\<close>): starting and stopping the
  helper process, accepting its connection, and handling its messages.

  Qt delivers the signals of an \<open>Auth\<close> object synchronously to the slots of its owner (a
  \<open>Display\<close> or a \<open>Greeter\<close>), which may call back into the object.  The owner is a
  parameter: \<open>own_signal\<close> is what its slots do to the object and to the owner's own state
  \<open>'d\<close>, and \<open>own_slot\<close> what its slot for \<open>requestChanged\<close> does with the request.
  The property-changed signals have no receiver in the program and are left out.
\<close>

record Auth =
  au_request :: AuthRequest
  au_running :: bool
  au_verbose :: bool
  au_child_env :: env
  au_chan :: channel
  au_sessionPath :: QString
  au_user :: QString
  au_autologin :: bool
  au_greeter :: bool
  au_environment :: env
  au_id :: int

datatype auth_signal =
    SigAuthentication QString bool
  | SigSessionStarted bool
  | SigDisplayServerReady QString
  | SigFinished int
  | SigError QString AuthError
  | SigInfo QString AuthInfo

record 'd auth_owner =
  own_signal :: "auth_signal \<Rightarrow> Auth \<times> 'd \<Rightarrow> Auth \<times> 'd"
  own_slot :: "Auth \<Rightarrow> 'd \<Rightarrow> req_op list"

section \<open>Construction and the setters\<close>

text \<open>
  The child's environment takes every \<open>KEY=VALUE\<close> line of \<open>/etc/locale.conf\<close>
  (\<open>None\<close> when the file cannot be opened), and \<open>LANG=C\<close> when none of them set
  \<open>LANG\<close>.
\<close>

definition locale_line :: "string \<Rightarrow> bool \<times> env \<Rightarrow> bool \<times> env" where
  "locale_line line le =
     (let (langEmpty, e) = le; parts = split_on CHR ''='' line in
      if 2 \<le> length parts
      then (if parts ! 0 = ''LANG'' then False else langEmpty, env_insert (parts ! 0) (parts ! 1) e)
      else (langEmpty, e))"

definition locale_env :: "QStringList option \<Rightarrow> env \<Rightarrow> env" where
  "locale_env lines e =
     (let (langEmpty, e1) = (case lines of None \<Rightarrow> (True, e) | Some ls \<Rightarrow> fold locale_line ls (True, e))
      in if langEmpty then env_insert ''LANG'' ''C'' e1 else e1)"

text \<open>The constructor takes the next id and counts on.\<close>

definition auth_new :: "QStringList option \<Rightarrow> env \<Rightarrow> int \<Rightarrow> Auth \<times> int" where
  "auth_new locale_lines child_env lastId =
     (\<lparr>au_request = init_auth_request, au_running = False, au_verbose = False,
       au_child_env = locale_env locale_lines child_env, au_chan = \<lparr>ch_out = [], ch_in = []\<rparr>,
       au_sessionPath = [], au_user = [], au_autologin = False, au_greeter = False,
       au_environment = [], au_id = lastId\<rparr>, lastId + 1)"

definition auth_isActive :: "Auth \<Rightarrow> bool" where
  "auth_isActive a \<longleftrightarrow> au_running a"

definition auth_setUser :: "QString \<Rightarrow> Auth \<Rightarrow> Auth" where
  "auth_setUser user a = (if user \<noteq> au_user a then a\<lparr>au_user := user\<rparr> else a)"

definition auth_setAutologin :: "bool \<Rightarrow> Auth \<Rightarrow> Auth" where
  "auth_setAutologin on a = (if on \<noteq> au_autologin a then a\<lparr>au_autologin := on\<rparr> else a)"

definition auth_setGreeter :: "bool \<Rightarrow> Auth \<Rightarrow> Auth" where
  "auth_setGreeter on a = (if on \<noteq> au_greeter a then a\<lparr>au_greeter := on\<rparr> else a)"

definition auth_setSession :: "QString \<Rightarrow> Auth \<Rightarrow> Auth" where
  "auth_setSession path a = (if path \<noteq> au_sessionPath a then a\<lparr>au_sessionPath := path\<rparr> else a)"

definition auth_setVerbose :: "bool \<Rightarrow> Auth \<Rightarrow> Auth" where
  "auth_setVerbose on a = (if on \<noteq> au_verbose a then a\<lparr>au_verbose := on\<rparr> else a)"

definition auth_insertEnvironment :: "env \<Rightarrow> Auth \<Rightarrow> Auth" where
  "auth_insertEnvironment e a = a\<lparr>au_environment := env_insert_all (au_environment a) e\<rparr>"

lemmas auth_setters =
  auth_setUser_def auth_setAutologin_def auth_setGreeter_def auth_setSession_def
  auth_setVerbose_def auth_insertEnvironment_def

section \<open>The helper process\<close>

definition auth_args :: "string \<Rightarrow> Auth \<Rightarrow> QStringList" where
  "auth_args serverName a =
     [''--socket'', serverName, ''--id'', number (au_id a)]
     @ (if au_sessionPath a \<noteq> [] then [''--start'', au_sessionPath a] else [])
     @ (if au_user a \<noteq> [] then [''--user'', au_user a] else [])
     @ (if au_autologin a then [''--autologin''] else [])
     @ (if au_greeter a then [''--greeter''] else [])"

text \<open>\<open>start()\<close>: the program and arguments that are launched.\<close>

definition auth_start :: "build_config \<Rightarrow> string \<Rightarrow> Auth \<Rightarrow> (string \<times> QStringList) \<times> Auth" where
  "auth_start cfg serverName a =
     ((LIBEXEC_INSTALL_DIR cfg @ ''/plasmalogin-helper'', auth_args serverName a), a\<lparr>au_running := True\<rparr>)"

definition auth_stop :: "bool \<Rightarrow> Auth \<Rightarrow> session_effect list" where
  "auth_stop ends_in_time a =
     (if \<not> au_running a then []
      else [Terminate, WaitFinished 5000] @ (if ends_in_time then [] else [Kill]))"

definition auth_childExited :: "int \<Rightarrow> bool \<Rightarrow> QString \<Rightarrow> 'd auth_owner \<Rightarrow> Auth \<times> 'd \<Rightarrow> Auth \<times> 'd" where
  "auth_childExited exitCode normal errorString own ad =
     (let ad1 = ((fst ad)\<lparr>au_running := False\<rparr>, snd ad) in
      if \<not> normal then own_signal own (SigFinished HELPER_OTHER_ERROR)
                        (own_signal own (SigError errorString ERROR_INTERNAL) ad1)
      else own_signal own (SigFinished exitCode) ad1)"

definition auth_childError :: "QString \<Rightarrow> 'd auth_owner \<Rightarrow> Auth \<times> 'd \<Rightarrow> Auth \<times> 'd" where
  "auth_childError errorString own ad = own_signal own (SigError errorString ERROR_INTERNAL) ad"

section \<open>Requests\<close>

definition auth_on_request :: "(AuthRequest \<Rightarrow> AuthRequest) \<Rightarrow> Auth \<Rightarrow> Auth" where
  "auth_on_request f a = a\<lparr>au_request := f (au_request a)\<rparr>"

text \<open>
  \<open>requestFinished\<close> sends the answers and clears the request, which emits
  \<open>requestChanged\<close> once more; the request is finished then, so nothing the slot does can
  finish it again.
\<close>

definition auth_requestFinished :: "qds \<Rightarrow> 'd auth_owner \<Rightarrow> 'd \<Rightarrow> Auth \<Rightarrow> Auth" where
  "auth_requestFinished c own d a =
     (let a1 = a\<lparr>au_chan := ch_send (put_msg c REQUEST @ put_request c (ar_request (au_request a))) (au_chan a)\<rparr>;
          a2 = auth_on_request (ar_setRequest None) a1
      in fold (\<lambda>x. auth_on_request (\<lambda>r. snd (ar_op x r))) (own_slot own a2 d) a2)"

definition auth_op :: "qds \<Rightarrow> 'd auth_owner \<Rightarrow> 'd \<Rightarrow> req_op \<Rightarrow> Auth \<Rightarrow> Auth" where
  "auth_op c own d x a =
     (let (fires, r) = ar_op x (au_request a); a1 = a\<lparr>au_request := r\<rparr>
      in if fires then auth_requestFinished c own d a1 else a1)"

definition auth_setRequest :: "qds \<Rightarrow> 'd auth_owner \<Rightarrow> 'd \<Rightarrow> Request \<Rightarrow> Auth \<Rightarrow> Auth" where
  "auth_setRequest c own d r a =
     (let a1 = auth_on_request (ar_setRequest (Some r)) a
      in fold (auth_op c own d) (own_slot own a1 d) a1)"

section \<open>Messages of the helper\<close>

text \<open>
  One round of the loop in \<open>dataPending\<close>.  The opcode variable lives outside the loop: an
  opcode that is out of range leaves the previous one in it.
\<close>

definition auth_message :: "qds \<Rightarrow> 'd auth_owner \<Rightarrow> byte list \<Rightarrow> Msg \<times> Auth \<times> 'd \<Rightarrow> Msg \<times> Auth \<times> 'd" where
  "auth_message c own payload mad =
     (let (m0, a, d) = mad; (m, st) = get_msg c m0 (stream_of payload) in
      (m,
       case m of
         ERROR \<Rightarrow>
           (let (message, st1) = rd (dec_str c) [] st; (type, st2) = get_error c ERROR_NONE st1
            in own_signal own (SigError message type) (a, d))
       | INFO \<Rightarrow>
           (let (message, st1) = rd (dec_str c) [] st; (type, st2) = get_info c INFO_NONE st1
            in own_signal own (SigInfo message type) (a, d))
       | REQUEST \<Rightarrow>
           (let (r, st1) = get_request c empty_request st in (auth_setRequest c own d r a, d))
       | AUTHENTICATED \<Rightarrow>
           (let (user, st1) = rd (dec_str c) [] st in
            if user \<noteq> [] then
              (let (a1, d1) = own_signal own (SigAuthentication user True) (auth_setUser user a, d)
               in (a1\<lparr>au_chan := ch_send (put_msg c AUTHENTICATED @ put_env c (au_environment a1)) (au_chan a1)\<rparr>, d1))
            else own_signal own (SigAuthentication user False) (a, d))
       | SESSION_STATUS \<Rightarrow>
           (let (status, st1) = rd (dec_bool c) False st;
                (a1, d1) = own_signal own (SigSessionStarted status) (a, d)
            in (a1\<lparr>au_chan := ch_send (put_msg c SESSION_STATUS) (au_chan a1)\<rparr>, d1))
       | DISPLAY_SERVER_STARTED \<Rightarrow>
           (let (displayName, st1) = rd (dec_str c) [] st;
                (a1, d1) = own_signal own (SigDisplayServerReady displayName) (a, d)
            in (a1\<lparr>au_chan := ch_send (put_msg c DISPLAY_SERVER_STARTED) (au_chan a1)\<rparr>, d1))
       | _ \<Rightarrow> own_signal own (SigError (''Auth: Unexpected value received: '' @ number (sint (msg_num m))) ERROR_INTERNAL) (a, d)))"

definition auth_dataPending :: "qds \<Rightarrow> 'd auth_owner \<Rightarrow> Auth \<times> 'd \<Rightarrow> Auth \<times> 'd" where
  "auth_dataPending c own ad =
     (let (a, d) = ad; payloads = ch_in (au_chan a); a1 = a\<lparr>au_chan := (au_chan a)\<lparr>ch_in := []\<rparr>\<rparr>
      in snd (fold (auth_message c own) payloads (MSG_UNKNOWN, a1, d)))"

definition auth_setSocket :: "channel \<Rightarrow> Auth \<Rightarrow> Auth" where
  "auth_setSocket socket a = a\<lparr>au_chan := socket\<rparr>"

text \<open>
  A new connection: its first message must be a hello with the id of a waiting object, which
  then owns the socket and handles what has already arrived on it.
\<close>

definition auth_newConnection ::
  "qds \<Rightarrow> 'd auth_owner \<Rightarrow> channel \<Rightarrow> (qint64 \<rightharpoonup> Auth \<times> 'd) \<Rightarrow> (qint64 \<rightharpoonup> Auth \<times> 'd)" where
  "auth_newConnection c own socket helpers =
     (let (st, ch) = ch_receive socket;
          (m, st1) = get_msg c MSG_UNKNOWN st;
          (i, st2) = rd (dec_i64 c) 0 st1
      in case helpers i of
           None \<Rightarrow> helpers
         | Some (a, d) \<Rightarrow>
             if m = HELLO \<and> i \<noteq> 0
             then helpers(i \<mapsto> (let a1 = auth_setSocket ch a
                              in if ch_in ch \<noteq> [] then auth_dataPending c own (a1, d) else (a1, d)))
             else helpers)"

definition auth_handleNewConnection ::
  "qds \<Rightarrow> 'd auth_owner \<Rightarrow> channel list \<Rightarrow> (qint64 \<rightharpoonup> Auth \<times> 'd) \<Rightarrow> (qint64 \<rightharpoonup> Auth \<times> 'd)" where
  "auth_handleNewConnection c own pending helpers = fold (auth_newConnection c own) pending helpers"

text \<open>
  An object is known under its id from its construction to its destruction, which first stops its helper.
\<close>

definition auth_created ::
  "QStringList option \<Rightarrow> env \<Rightarrow> 'd \<Rightarrow> (qint64 \<rightharpoonup> Auth \<times> 'd) \<times> int \<Rightarrow> (qint64 \<rightharpoonup> Auth \<times> 'd) \<times> int" where
  "auth_created locale_lines child_env d hl =
     (let (helpers, lastId) = hl; (a, lastId1) = auth_new locale_lines child_env lastId
      in (helpers(word_of_int (au_id a) \<mapsto> (a, d)), lastId1))"

definition auth_destroyed ::
  "bool \<Rightarrow> Auth \<Rightarrow> (qint64 \<rightharpoonup> Auth \<times> 'd) \<Rightarrow> session_effect list \<times> (qint64 \<rightharpoonup> Auth \<times> 'd)" where
  "auth_destroyed ends_in_time a helpers = (auth_stop ends_in_time a, helpers(word_of_int (au_id a) := None))"


section \<open>A request is answered once\<close>

text \<open>The prompts of a request without their responses.\<close>

definition questions :: "Prompt list \<Rightarrow> Prompt list" where
  "questions ps = map (p_response_update (\<lambda>_. [])) ps"

lemma questions_op [simp]: "questions (ar_prompts (snd (ar_op x ar))) = questions (ar_prompts ar)"
  unfolding questions_def by (rule ar_op_questions)

lemma fold_on_request_chan [simp]:
  "au_chan (fold (\<lambda>x. auth_on_request (f x)) xs a) = au_chan a"
  by (induction xs arbitrary: a) (simp_all add: auth_on_request_def)

lemma fold_on_request_finished:
  "ar_finished (au_request a) \<Longrightarrow> ar_finished (au_request (fold (\<lambda>x. auth_on_request (\<lambda>r. snd (ar_op x r))) xs a))"
  by (induction xs arbitrary: a) (simp_all add: auth_on_request_def ar_op_finished)

lemma requestFinished_chan:
  "au_chan (auth_requestFinished c own d a) = ch_send (put_msg c REQUEST @ put_request c \<lparr>r_prompts = ar_prompts (au_request a)\<rparr>) (au_chan a)"
  by (simp add: auth_requestFinished_def ar_request_def auth_on_request_def Let_def)

lemma requestFinished_finished:
  "ar_finished (au_request a) \<Longrightarrow> ar_finished (au_request (auth_requestFinished c own d a))"
  by (simp add: auth_requestFinished_def Let_def fold_on_request_finished) (simp add: auth_on_request_def fold_on_request_finished)

lemma ar_op_fires: "fst (ar_op x ar) \<Longrightarrow> ar_finished (snd (ar_op x ar))"
  by (cases x) (auto simp: ar_setResponse_def ar_responseChanged_def ar_done_def Let_def split: if_splits)

lemma auth_op_finished:
  "ar_finished (au_request a) \<Longrightarrow> au_chan (auth_op c own d x a) = au_chan a \<and> ar_finished (au_request (auth_op c own d x a))"
  using ar_op_finished [of "au_request a" x] by (simp add: auth_op_def case_prod_beta)

lemma auth_ops_finished:
  "ar_finished (au_request a) \<Longrightarrow> au_chan (fold (auth_op c own d) xs a) = au_chan a"
  by (induction xs arbitrary: a) (simp_all add: auth_op_finished)

text \<open>As long as the request has not been answered its questions stay the ones that were asked.\<close>

lemma auth_op_unfinished:
  "au_chan (auth_op c own d x a) = au_chan a \<and> questions (ar_prompts (au_request (auth_op c own d x a))) = questions (ar_prompts (au_request a))
   \<or> ar_finished (au_request (auth_op c own d x a)) \<and>
     (\<exists>ps. questions ps = questions (ar_prompts (au_request a))
        \<and> au_chan (auth_op c own d x a) = ch_send (put_msg c REQUEST @ put_request c \<lparr>r_prompts = ps\<rparr>) (au_chan a))"
proof (cases "fst (ar_op x (au_request a))")
  case False
  then show ?thesis by (simp add: auth_op_def case_prod_beta)
next
  case True
  let ?a = "a\<lparr>au_request := snd (ar_op x (au_request a))\<rparr>"
  have "ar_finished (au_request (auth_requestFinished c own d ?a))"
    by (rule requestFinished_finished) (simp add: ar_op_fires [OF True])
  with True show ?thesis
    by (auto simp: auth_op_def case_prod_beta requestFinished_chan
        intro!: exI [of _ "ar_prompts (snd (ar_op x (au_request a)))"])
qed

lemma auth_ops_once:
  "au_chan (fold (auth_op c own d) xs a) = au_chan a
   \<or> (\<exists>ps. questions ps = questions (ar_prompts (au_request a))
        \<and> au_chan (fold (auth_op c own d) xs a) = ch_send (put_msg c REQUEST @ put_request c \<lparr>r_prompts = ps\<rparr>) (au_chan a))"
proof (induction xs arbitrary: a)
  case (Cons x xs)
  from auth_op_unfinished [of c own d x a] show ?case
  proof (elim disjE conjE)
    assume "ar_finished (au_request (auth_op c own d x a))"
      and "\<exists>ps. questions ps = questions (ar_prompts (au_request a))
        \<and> au_chan (auth_op c own d x a) = ch_send (put_msg c REQUEST @ put_request c \<lparr>r_prompts = ps\<rparr>) (au_chan a)"
    then show ?thesis by (simp add: auth_ops_finished)
  next
    assume "au_chan (auth_op c own d x a) = au_chan a"
      and "questions (ar_prompts (au_request (auth_op c own d x a))) = questions (ar_prompts (au_request a))"
    with Cons.IH [of "auth_op c own d x a"] show ?thesis by simp
  qed
qed simp

text \<open>Property C14: a request of the helper is answered at most once, whatever the owner's slot does with it
  (any sequence of responses and \<open>done\<close> calls), and the answer asks the questions of the request: its
  prompts differ from those asked in their responses only.\<close>

theorem request_answered_at_most_once:
  "au_chan (auth_setRequest c own d q a) = au_chan a
   \<or> (\<exists>q'. questions (r_prompts q') = questions (r_prompts q)
        \<and> au_chan (auth_setRequest c own d q a) = ch_send (put_msg c REQUEST @ put_request c q') (au_chan a))"
proof -
  let ?a1 = "auth_on_request (ar_setRequest (Some q)) a"
  have a1: "au_chan ?a1 = au_chan a" "ar_prompts (au_request ?a1) = r_prompts q"
    by (simp_all add: auth_on_request_def ar_setRequest_def)
  from auth_ops_once [of c own d "own_slot own ?a1 d" ?a1] show ?thesis
    unfolding auth_setRequest_def Let_def a1 by (metis Request.select_convs(1))
qed

section \<open>Connections\<close>

context qt_stream begin

lemma newConnection_hello:
  assumes "helpers i = Some (a, d)" "i \<noteq> 0"
  shows "auth_newConnection c own \<lparr>ch_out = [], ch_in = [put_msg c HELLO @ enc_i64 c i]\<rparr> helpers
    = helpers(i \<mapsto> (auth_setSocket \<lparr>ch_out = [], ch_in = []\<rparr> a, d))"
  using assms rd_i64 [of 0 i "[]" Ok]
  by (simp add: auth_newConnection_def stream_of_def)

lemma newConnection_unknown:
  assumes "helpers i = None"
  shows "auth_newConnection c own \<lparr>ch_out = [], ch_in = (put_msg c HELLO @ enc_i64 c i) # ps\<rparr> helpers = helpers"
  using assms rd_i64 [of 0 i "[]" Ok]
  by (simp add: auth_newConnection_def stream_of_def)

end

text \<open>A helper is connected to the object that started it.  The hello a helper sends with its id
  gives its socket to the waiting object of that id and to no other, and a hello with an id nobody waits for
  is ignored.\<close>

theorem hello_finds_its_auth:
  assumes "qds_ok c" "i \<noteq> 0"
  shows "auth_newConnection c own \<lparr>ch_out = [], ch_in = ch_out (helper_hello c i \<lparr>ch_out = [], ch_in = []\<rparr>)\<rparr> helpers
    = (case helpers i of
         None \<Rightarrow> helpers
       | Some (a, d) \<Rightarrow> helpers(i \<mapsto> (auth_setSocket \<lparr>ch_out = [], ch_in = []\<rparr> a, d)))"
  using qt_stream.newConnection_hello [OF qt_stream.intro [OF assms(1)], of helpers i _ _ own] assms(2)
    qt_stream.newConnection_unknown [OF qt_stream.intro [OF assms(1)], of helpers i own "[]"]
  by (simp add: helper_hello_def ch_send_def split: option.splits)

definition quiet_owner :: "unit auth_owner" where
  "quiet_owner = \<lparr>own_signal = (\<lambda>sig ad. ad), own_slot = (\<lambda>a d. [])\<rparr>"

lemma hello_finds_its_auth_witness:
  "map_option (\<lambda>ad. au_id (fst ad)) (auth_newConnection sd_qds quiet_owner
      \<lparr>ch_out = [], ch_in = ch_out (helper_hello sd_qds 3 \<lparr>ch_out = [], ch_in = []\<rparr>)\<rparr>
      [3 \<mapsto> (fst (auth_new None [] 3), ())] 3) = Some 3"
  by (subst hello_finds_its_auth) (simp_all add: auth_setSocket_def auth_new_def)

text \<open>A helper that says hello after its object is gone gets no connection.\<close>

lemma destroyed_auth_gets_no_hello:
  assumes "qds_ok c"
  shows "auth_newConnection c own
      \<lparr>ch_out = [], ch_in = (put_msg c HELLO @ enc_i64 c (word_of_int (au_id a))) # ps\<rparr> (snd (auth_destroyed e a helpers))
    = snd (auth_destroyed e a helpers)"
  unfolding auth_destroyed_def snd_conv
  by (rule qt_stream.newConnection_unknown [OF qt_stream.intro [OF assms]]) simp

section \<open>The server the helpers connect to\<close>

text \<open>
  The server is made at the first use, and listens on a name with a fresh identifier in it; every later use gives the same
  one.  \<open>listens\<close> tells which names can be listened on: whether it worked is not looked at, and the name of a server
  that does not listen is empty.
\<close>

definition server_instance :: "(QString \<Rightarrow> bool) \<Rightarrow> QString \<Rightarrow> QString option \<Rightarrow> QString \<times> QString option" where
  "server_instance listens uuid self =
     (case self of
        Some name \<Rightarrow> (name, self)
      | None \<Rightarrow>
          let name = ''plasmalogin-auth-'' @ uuid; serverName = (if listens name then name else [])
          in (serverName, Some serverName))"

definition auth_insertVariable :: "QString \<Rightarrow> QString \<Rightarrow> Auth \<Rightarrow> Auth" where
  "auth_insertVariable key value a = a\<lparr>au_environment := env_insert key value (au_environment a)\<rparr>"

definition auth_new_for ::
  "QStringList option \<Rightarrow> env \<Rightarrow> QString \<Rightarrow> QString \<Rightarrow> bool \<Rightarrow> bool \<Rightarrow> int \<Rightarrow> Auth \<times> int" where
  "auth_new_for locale_lines child_env user session autologin verbose lastId =
     (let (a, lastId1) = auth_new locale_lines child_env lastId
      in (auth_setVerbose verbose (auth_setSession session (auth_setAutologin autologin (auth_setUser user a))), lastId1))"

text \<open>A helper that is started by any later \<open>Auth\<close> is told the name the first one made.\<close>

lemma server_instance_kept:
  "server_instance listens' uuid' (snd (server_instance listens uuid self)) = server_instance listens uuid self"
  by (simp add: server_instance_def Let_def split: option.splits)

text \<open>When the name cannot be listened on, every helper is told to connect to the empty name, and ends at once.\<close>

lemma deaf_server_args:
  assumes "\<not> listens (''plasmalogin-auth-'' @ uuid)"
  shows "take 2 (auth_args (fst (server_instance listens uuid None)) a) = [''--socket'', []]"
  using assms by (simp add: server_instance_def auth_args_def numeral_2_eq_2)

end
