(* ===== verification/Session_File.thy ===== *)
theory Session_File
  imports Wire
begin

text \<open>
  A login session as the daemon sees it: class \<open>Session\<close> (\<open>src/common/Session.cpp\<close>,
  \<open>src/common/Session.h\<close>), a desktop file found by its name under one of two directories.

  What the file system answers is a parameter: \<open>fs_locate\<close> is
  \<open>QStandardPaths::locate\<close> for a path below the generic data directories (the empty string when
  nothing is found), \<open>fs_config\<close> the parsed file at a path, or \<open>None\<close> when there is none.
  The assertions \<open>Q_ASSERT(isValid())\<close> are compiled out of a release build; the accessors then
  return a null string, which none of their callers tells from an empty one.
\<close>

record desktop_file =
  df_name :: QString
  df_entry :: "string \<Rightarrow> QString"

record session_fs =
  fs_locate :: "QString \<Rightarrow> QString"
  fs_config :: "QString \<Rightarrow> desktop_file option"

text \<open>The type arrives as a number that is cast to the enumeration without a check.\<close>

type_synonym session_type = quint32

definition X11Session :: session_type where "X11Session = 0"
definition WaylandSession :: session_type where "WaylandSession = 1"

record Session =
  s_type :: session_type
  s_desktopFile :: "desktop_file option"

definition invalid_session :: Session where
  "invalid_session = \<lparr>s_type = WaylandSession, s_desktopFile = None\<rparr>"

definition desktop_name :: "QString \<Rightarrow> QString" where
  "desktop_name name = (if ends_with ''.desktop'' name then name else name @ ''.desktop'')"

definition session_create :: "session_fs \<Rightarrow> session_type \<Rightarrow> QString \<Rightarrow> Session" where
  "session_create fs type name =
     (let fileName = desktop_name name;
          filePath = (if type = X11Session then fs_locate fs (''/xsessions/'' @ fileName)
            else if type = WaylandSession then fs_locate fs (''/wayland-sessions/'' @ fileName)
            else [])
      in case fs_config fs filePath of
           Some config \<Rightarrow> if filePath \<noteq> [] then \<lparr>s_type = type, s_desktopFile = Some config\<rparr> else invalid_session
         | None \<Rightarrow> invalid_session)"

definition session_valid :: "Session \<Rightarrow> bool" where
  "session_valid s \<longleftrightarrow> s_desktopFile s \<noteq> None"

definition session_entry :: "string \<Rightarrow> Session \<Rightarrow> QString" where
  "session_entry key s = (case s_desktopFile s of None \<Rightarrow> [] | Some f \<Rightarrow> df_entry f key)"

definition session_name :: "Session \<Rightarrow> QString" where
  "session_name s = session_entry ''Name'' s"

definition session_fileName :: "Session \<Rightarrow> QString" where
  "session_fileName s = (case s_desktopFile s of None \<Rightarrow> [] | Some f \<Rightarrow> df_name f)"

definition session_desktopSession :: "Session \<Rightarrow> QString" where
  "session_desktopSession s = (case s_desktopFile s of None \<Rightarrow> [] | Some f \<Rightarrow> df_name f)"

definition xdgSessionType :: "Session \<Rightarrow> QString" where
  "xdgSessionType s = (if s_type s = WaylandSession then ''wayland'' else if s_type s = X11Session then ''x11'' else [])"

definition session_exec :: "Session \<Rightarrow> QString" where
  "session_exec s = session_entry ''Exec'' s"

definition session_desktopNames :: "Session \<Rightarrow> QString" where
  "session_desktopNames s = session_entry ''DesktopNames'' s"

definition get_session :: "qds \<Rightarrow> session_fs \<Rightarrow> dstream \<Rightarrow> Session \<times> dstream" where
  "get_session c fs st =
     (let (type, st1) = rd (dec_i32 c) 0 st; (fileName, st2) = rd (dec_str c) [] st1
      in (session_create fs type fileName, st2))"

lemma invalid_session_not_valid [simp]: "\<not> session_valid invalid_session"
  by (simp add: session_valid_def invalid_session_def)

lemma session_create_type:
  "session_valid (session_create fs t n) \<Longrightarrow> s_type (session_create fs t n) = t \<and> (t = X11Session \<or> t = WaylandSession)"
  by (auto simp: session_create_def Let_def split: option.splits if_splits)

lemma session_create_xdg [simp]:
  "session_valid (session_create fs t n) \<Longrightarrow> xdgSessionType (session_create fs t n) \<in> {''x11'', ''wayland''}"
  using session_create_type [of fs t n] by (auto simp: xdgSessionType_def)

text \<open>A file system with one Wayland session, for the examples.\<close>

definition sample_fs :: session_fs where
  "sample_fs = \<lparr>fs_locate = (\<lambda>p. if p = ''/wayland-sessions/plasma.desktop'' then ''/usr/share/wayland-sessions/plasma.desktop'' else []),
     fs_config = (\<lambda>p. if p = [] then None else Some \<lparr>df_name = p, df_entry = (\<lambda>k. if k = ''Exec'' then ''startplasma-wayland'' else ''KDE'')\<rparr>)\<rparr>"

end
