(* ===== verification/Socket_Server.thy ===== *)
theory Socket_Server
  imports Session_File
begin

text \<open>
  The connection between the greeter and the daemon: the message numbers
  (\<open>src/common/Messages.h\<close>, \<open>src/frontend/greeter/backend/Messages.h\<close>), the writer
  (\<open>src/common/SocketWriter.cpp\<close>), the daemon's server (\<open>src/daemon/SocketServer.cpp\<close>)
  and the greeter's proxy (\<open>src/frontend/greeter/backend/GreeterProxy.cpp\<close>), with its mock.

  These messages have no frame: a handler reads from the socket itself whatever has arrived.
  A socket is the list of bytes that have been written to it.
\<close>

datatype GreeterMessages = Connect | Login
datatype DaemonMessages = LoginSucceeded | LoginFailed | InformationMessage

fun greeter_num :: "GreeterMessages \<Rightarrow> quint32" where
  "greeter_num Connect = 0"
| "greeter_num Login = 1"

fun daemon_num :: "DaemonMessages \<Rightarrow> quint32" where
  "daemon_num LoginSucceeded = 0"
| "daemon_num LoginFailed = 1"
| "daemon_num InformationMessage = 2"

section \<open>The writer\<close>

text \<open>The writer collects its data and writes it to the socket when it is destroyed.\<close>

definition sw_u32 :: "qds \<Rightarrow> quint32 \<Rightarrow> byte list \<Rightarrow> byte list" where
  "sw_u32 c u w = w @ enc_i32 c u"

definition sw_str :: "qds \<Rightarrow> QString \<Rightarrow> byte list \<Rightarrow> byte list" where
  "sw_str c s w = w @ enc_str c s"

definition sw_destroy :: "byte list \<Rightarrow> byte list \<Rightarrow> byte list" where
  "sw_destroy w socket = socket @ w"

section \<open>The daemon's server\<close>

text \<open>
  \<open>ss_server\<close> is the listening server's full name; the pointer stays set when listening
  fails, with no name.
\<close>

record socket_server =
  ss_server :: "QString option"

definition ss_socketAddress :: "socket_server \<Rightarrow> QString" where
  "ss_socketAddress s = (case ss_server s of None \<Rightarrow> [] | Some n \<Rightarrow> n)"

definition ss_start :: "(QString \<Rightarrow> QString option) \<Rightarrow> QString \<Rightarrow> QString \<Rightarrow> socket_server \<Rightarrow> bool \<times> socket_server" where
  "ss_start listen displayName random s =
     (if ss_server s \<noteq> None then (False, s)
      else
        let socketName = ''plasmalogin-'' @ displayName @ ''-'' @ random
        in case listen socketName of
             None \<Rightarrow> (False, s\<lparr>ss_server := Some []\<rparr>)
           | Some full \<Rightarrow> (True, s\<lparr>ss_server := Some full\<rparr>))"

definition ss_stop :: "socket_server \<Rightarrow> socket_server" where
  "ss_stop s = (if ss_server s = None then s else s\<lparr>ss_server := None\<rparr>)"

datatype greeter_event = Connected | LoginRequest QString QString Session

text \<open>
  One round of the loop of \<open>readyRead\<close>; the message number of an incomplete message reads as 0.
\<close>

definition ss_message :: "qds \<Rightarrow> session_fs \<Rightarrow> dstream \<Rightarrow> greeter_event option \<times> dstream" where
  "ss_message c fs st =
     (let (message, st1) = rd (dec_i32 c) 0 st in
      if message = greeter_num Connect then (Some Connected, st1)
      else if message = greeter_num Login then
        (let (user, st2) = rd (dec_str c) [] st1;
             (password, st3) = rd (dec_str c) [] st2;
             (session, st4) = get_session c fs st3
         in (Some (LoginRequest user password session), st4))
      else (None, st1))"

text \<open>
  The loop runs while bytes are available.  Every round takes at least one byte off the socket,
  so the number of bytes bounds the rounds.
\<close>

fun rounds :: "nat \<Rightarrow> (dstream \<Rightarrow> 'e option \<times> dstream) \<Rightarrow> dstream \<Rightarrow> 'e list" where
  "rounds 0 f st = []"
| "rounds (Suc n) f st =
     (if ds_buf st = [] then []
      else case f st of
        (None, st1) \<Rightarrow> rounds n f st1
      | (Some e, st1) \<Rightarrow> e # rounds n f st1)"

definition ss_readyRead :: "qds \<Rightarrow> session_fs \<Rightarrow> byte list \<Rightarrow> greeter_event list" where
  "ss_readyRead c fs bytes = rounds (length bytes) (ss_message c fs) (stream_of bytes)"

definition ss_loginFailed :: "qds \<Rightarrow> byte list \<Rightarrow> byte list" where
  "ss_loginFailed c socket = sw_destroy (sw_u32 c (daemon_num LoginFailed) []) socket"

definition ss_loginSucceeded :: "qds \<Rightarrow> byte list \<Rightarrow> byte list" where
  "ss_loginSucceeded c socket = sw_destroy (sw_u32 c (daemon_num LoginSucceeded) []) socket"

definition ss_informationMessage :: "qds \<Rightarrow> QString \<Rightarrow> byte list \<Rightarrow> byte list" where
  "ss_informationMessage c message socket =
     sw_destroy (sw_str c message (sw_u32 c (daemon_num InformationMessage) [])) socket"

section \<open>The greeter's proxy\<close>

definition gp_connected :: "qds \<Rightarrow> byte list \<Rightarrow> byte list" where
  "gp_connected c socket = sw_destroy (sw_u32 c (greeter_num Connect) []) socket"

definition gp_login :: "qds \<Rightarrow> QString \<Rightarrow> QString \<Rightarrow> session_type \<Rightarrow> QString \<Rightarrow> byte list \<Rightarrow> byte list" where
  "gp_login c user password sessionType sessionFileName socket =
     sw_destroy (sw_str c sessionFileName (sw_u32 c sessionType (sw_str c password (sw_str c user
       (sw_u32 c (greeter_num Login) []))))) socket"

datatype daemon_event = EvLoginSucceeded | EvLoginFailed | EvInformation QString

definition gp_message :: "qds \<Rightarrow> dstream \<Rightarrow> daemon_event option \<times> dstream" where
  "gp_message c st =
     (let (message, st1) = rd (dec_i32 c) 0 st in
      if message = daemon_num LoginSucceeded then (Some EvLoginSucceeded, st1)
      else if message = daemon_num LoginFailed then (Some EvLoginFailed, st1)
      else if message = daemon_num InformationMessage then
        (let (text, st2) = rd (dec_str c) [] st1 in (Some (EvInformation text), st2))
      else (None, st1))"

definition gp_readyRead :: "qds \<Rightarrow> byte list \<Rightarrow> daemon_event list" where
  "gp_readyRead c bytes = rounds (length bytes) (gp_message c) (stream_of bytes)"

text \<open>The mock answers by itself: the event it schedules, and whether it then quits.\<close>

definition s_mockPassword :: QString where
  "s_mockPassword = ''mypassword''"

definition mock_login :: "QString \<Rightarrow> QString \<Rightarrow> daemon_event \<times> bool" where
  "mock_login user password =
     (let success = (user \<noteq> [] \<and> password = s_mockPassword)
      in if success then (EvLoginSucceeded, True) else (EvLoginFailed, False))"

section \<open>Whole messages arrive as they were sent\<close>

lemmas socket_defs =
  sw_u32_def sw_str_def sw_destroy_def ss_loginFailed_def ss_loginSucceeded_def
  ss_informationMessage_def gp_connected_def gp_login_def

text \<open>
  A handler that reads each of a list of encoded messages and yields its event processes their
  concatenation, message by message.
\<close>

lemma rounds_messages:
  assumes "\<And>x r s. x \<in> set xs \<Longrightarrow> f \<lparr>ds_buf = enc x @ r, ds_status = s\<rparr> = (Some (ev x), \<lparr>ds_buf = r, ds_status = s\<rparr>)"
    and "\<And>x. x \<in> set xs \<Longrightarrow> enc x \<noteq> []"
    and "length (concat (map enc xs)) \<le> n"
  shows "rounds n f \<lparr>ds_buf = concat (map enc xs), ds_status = s\<rparr> = map ev xs"
  using assms
proof (induction xs arbitrary: n)
  case Nil
  then show ?case by (cases n) auto
next
  case (Cons x xs)
  from Cons.prems(2) [of x] have ne: "enc x \<noteq> []" by simp
  with Cons.prems(3) obtain m where m: "n = Suc m" by (cases n) auto
  have "length (concat (map enc xs)) \<le> m"
    using Cons.prems(3) ne m by (cases "enc x") auto
  with Cons have "rounds m f \<lparr>ds_buf = concat (map enc xs), ds_status = s\<rparr> = map ev xs" by simp
  with Cons.prems(1) [of x] ne m show ?case by simp
qed

context qt_stream begin

lemma enc_i32_nonempty: "enc_i32 c x \<noteq> []"
proof
  assume "enc_i32 c x = []"
  then have "dec_i32 c (enc_i32 c (x + 1)) = Some (x, enc_i32 c (x + 1))"
    using ok unfolding qds_ok_def by (metis append_Nil)
  moreover have "dec_i32 c (enc_i32 c (x + 1)) = Some (x + 1, [])"
    using ok unfolding qds_ok_def by (metis append_Nil2)
  ultimately show False by simp
qed

end

text \<open>What the greeter may send, and what the daemon should make of it.\<close>

datatype greeter_call = CallConnected | CallLogin QString QString session_type QString

fun send_greeter :: "qds \<Rightarrow> greeter_call \<Rightarrow> byte list" where
  "send_greeter c CallConnected = gp_connected c []"
| "send_greeter c (CallLogin u p t f) = gp_login c u p t f []"

fun greeter_event_of :: "session_fs \<Rightarrow> greeter_call \<Rightarrow> greeter_event" where
  "greeter_event_of fs CallConnected = Connected"
| "greeter_event_of fs (CallLogin u p t f) = LoginRequest u p (session_create fs t f)"

fun send_daemon :: "qds \<Rightarrow> daemon_event \<Rightarrow> byte list" where
  "send_daemon c EvLoginSucceeded = ss_loginSucceeded c []"
| "send_daemon c EvLoginFailed = ss_loginFailed c []"
| "send_daemon c (EvInformation m) = ss_informationMessage c m []"

context qt_stream begin

lemma ss_message_read:
  "ss_message c fs \<lparr>ds_buf = send_greeter c m @ r, ds_status = s\<rparr> = (Some (greeter_event_of fs m), \<lparr>ds_buf = r, ds_status = s\<rparr>)"
  by (cases m) (simp_all add: ss_message_def socket_defs get_session_def)

lemma gp_message_read:
  "gp_message c \<lparr>ds_buf = send_daemon c m @ r, ds_status = s\<rparr> = (Some m, \<lparr>ds_buf = r, ds_status = s\<rparr>)"
  by (cases m) (simp_all add: gp_message_def socket_defs)

lemma send_nonempty [simp]: "send_greeter c m \<noteq> []" "send_daemon c e \<noteq> []"
  by (cases m; simp add: socket_defs enc_i32_nonempty) (cases e; simp add: socket_defs enc_i32_nonempty)

lemma ss_readyRead_all:
  "ss_readyRead c fs (concat (map (send_greeter c) ms)) = map (greeter_event_of fs) ms"
  unfolding ss_readyRead_def stream_of_def by (rule rounds_messages) (simp_all add: ss_message_read)

lemma gp_readyRead_all: "gp_readyRead c (concat (map (send_daemon c) es)) = map (\<lambda>e. e) es"
  unfolding gp_readyRead_def stream_of_def by (rule rounds_messages) (simp_all add: gp_message_read)

end

text \<open>What the greeter calls is what the daemon acts on.  Any sequence of connects and
  logins written through the proxy and read in one go raises exactly the same events in the same order,
  with the user, the password and the session that the named file stands for.\<close>

theorem greeter_messages_received:
  assumes "qds_ok c"
  shows "ss_readyRead c fs (concat (map (send_greeter c) calls)) = map (greeter_event_of fs) calls"
  using qt_stream.ss_readyRead_all [OF qt_stream.intro [OF assms]] .

lemma greeter_messages_received_witness:
  "ss_readyRead sd_qds sample_fs (gp_connected sd_qds [] @ gp_login sd_qds ''joe'' ''secret'' WaylandSession ''plasma'' [])
    = [Connected, LoginRequest ''joe'' ''secret'' (session_create sample_fs WaylandSession ''plasma'')]"
  using greeter_messages_received [of sd_qds sample_fs "[CallConnected, CallLogin ''joe'' ''secret'' WaylandSession ''plasma'']"]
  by simp

text \<open>What the daemon answers is what the greeter shows: any sequence of results and
  information messages written by the server is read back by the proxy as the same events.\<close>

theorem daemon_messages_received:
  assumes "qds_ok c"
  shows "gp_readyRead c (concat (map (send_daemon c) events)) = events"
  using qt_stream.gp_readyRead_all [OF qt_stream.intro [OF assms], of events] by simp

lemma daemon_messages_received_witness:
  "gp_readyRead sd_qds (ss_loginFailed sd_qds (ss_informationMessage sd_qds ''Wrong password'' []))
    = [EvInformation ''Wrong password'', EvLoginFailed]"
  using daemon_messages_received [of sd_qds "[EvInformation ''Wrong password'', EvLoginFailed]"]
  by (simp add: socket_defs)

end
