(* ===== verification/Virtual_Terminal.thy ===== *)
theory Virtual_Terminal
  imports Prelude
begin

text \<open>
  Switching virtual terminals (\<open>src/common/VirtualTerminal.cpp\<close>).  The kernel is a
  parameter: what \<open>open\<close> gives for a path, and the errno of every \<open>ioctl\<close> (0 when it
  succeeds).  The two calls of the switching loop may be interrupted any number of times, so their
  answers are sequences indexed by the attempt.

  A function returns what it did as a list of calls.  A loop that is interrupted for ever is the
  value \<open>None\<close>.
\<close>

definition EINTR :: int where "EINTR = 4"
definition VT_AUTO :: int where "VT_AUTO = 0"
definition KD_TEXT :: int where "KD_TEXT = 0"

datatype vt_request = VT_GETSTATE | VT_SETMODE_PROCESS | VT_GETMODE | KDGETMODE | KDSETMODE_TEXT
  | KDSETMODE_GRAPHICS | VT_OPENQRY | VT_ACTIVATE | VT_WAITACTIVE | VT_RELDISP_ACK | VT_RELDISP_1

datatype vt_call = Open string | Close int | Write int nat | Ioctl int vt_request int | Signal

record vt_os =
  os_open :: "string \<Rightarrow> int"
  os_ioctl :: "int \<Rightarrow> vt_request \<Rightarrow> int"
  os_activate :: "nat \<Rightarrow> int"
  os_waitactive :: "nat \<Rightarrow> int"
  os_v_active :: int
  os_openqry :: int
  os_vt_mode :: int
  os_kd_mode :: int

definition defaultVtPath :: string where
  "defaultVtPath = ''/dev/tty0''"

definition vt_tty_path :: "int \<Rightarrow> QString" where
  "vt_tty_path vt = ''/dev/tty'' @ number vt"

definition getVtActive :: "vt_os \<Rightarrow> int \<Rightarrow> int \<times> vt_call list" where
  "getVtActive os fd =
     (if os_ioctl os fd VT_GETSTATE \<noteq> 0 then (-1, [Ioctl fd VT_GETSTATE 0])
      else (os_v_active os, [Ioctl fd VT_GETSTATE 0]))"

definition onAcquireDisplay :: "vt_os \<Rightarrow> vt_call list" where
  "onAcquireDisplay os =
     (let fd = os_open os defaultVtPath in [Open defaultVtPath, Ioctl fd VT_RELDISP_ACK 0, Close fd])"

definition onReleaseDisplay :: "vt_os \<Rightarrow> vt_call list" where
  "onReleaseDisplay os =
     (let fd = os_open os defaultVtPath in [Open defaultVtPath, Ioctl fd VT_RELDISP_1 0, Close fd])"

definition handleVtSwitches :: "vt_os \<Rightarrow> int \<Rightarrow> bool \<times> vt_call list" where
  "handleVtSwitches os fd =
     (os_ioctl os fd VT_SETMODE_PROCESS = 0, [Ioctl fd VT_SETMODE_PROCESS 0, Signal, Signal])"

text \<open>
  \<open>fixVtMode\<close> ends with a log line that tells whether the mode was fixed; a query that fails
  leaves its zero-initialised reply, so the mode reads as \<open>VT_AUTO\<close> and the display mode as
  text.
\<close>

datatype vt_outcome = SetUpFailed | ModeFixed | NothingToFix

definition vt_result :: "bool \<Rightarrow> bool \<Rightarrow> vt_outcome" where
  "vt_result ok modeFixed = (if \<not> ok then SetUpFailed else if modeFixed then ModeFixed else NothingToFix)"

definition fixVtMode :: "vt_os \<Rightarrow> int \<Rightarrow> bool \<Rightarrow> vt_outcome \<times> vt_call list" where
  "fixVtMode os fd vt_auto =
     (let ok1 = (os_ioctl os fd VT_GETMODE = 0);
          mode = (if ok1 then os_vt_mode os else 0);
          calls1 = [Ioctl fd VT_GETMODE 0]
      in if mode \<noteq> VT_AUTO then (vt_result ok1 False, calls1)
         else
           let okq = (os_ioctl os fd KDGETMODE = 0);
               ok2 = (ok1 \<and> okq);
               kd = (if okq then os_kd_mode os else 0);
               calls2 = calls1 @ [Ioctl fd KDGETMODE 0]
           in if kd = KD_TEXT then (vt_result ok2 False, calls2)
              else if vt_auto then
                (vt_result (ok2 \<and> os_ioctl os fd KDSETMODE_TEXT = 0) False, calls2 @ [Ioctl fd KDSETMODE_TEXT 0])
              else (let (ok3, calls3) = handleVtSwitches os fd in (vt_result ok3 True, calls2 @ calls3)))"

definition currentVt :: "vt_os \<Rightarrow> int \<times> vt_call list" where
  "currentVt os =
     (let fd = os_open os defaultVtPath in
      if fd < 0 then (-1, [Open defaultVtPath])
      else let (vt, calls) = getVtActive os fd in (vt, Open defaultVtPath # calls @ [Close fd]))"

definition setUpNewVt :: "vt_os \<Rightarrow> int \<times> vt_call list" where
  "setUpNewVt os =
     (let fd = os_open os defaultVtPath in
      if fd < 0 then (-1, [Open defaultVtPath])
      else if os_ioctl os fd VT_OPENQRY \<noteq> 0 then (-1, [Open defaultVtPath, Ioctl fd VT_OPENQRY 0, Close fd])
      else
        let vt = os_openqry os; calls = [Open defaultVtPath, Ioctl fd VT_OPENQRY 0]
        in if vt \<le> 0 then (let (active, calls2) = getVtActive os fd in (active, calls @ calls2 @ [Close fd]))
           else (vt, calls @ [Close fd]))"

text \<open>
  The switching loop from the \<open>n\<close>-th attempt on.  An interrupted \<open>VT_ACTIVATE\<close>
  continues at the loop condition, where \<open>errno\<close> still is \<open>EINTR\<close>.
\<close>

partial_function (option) jump_loop :: "vt_os \<Rightarrow> int \<Rightarrow> int \<Rightarrow> nat \<Rightarrow> vt_call list option" where
  "jump_loop os fd vt n =
     (if os_activate os n = EINTR then
        Option.bind (jump_loop os fd vt (Suc n)) (\<lambda>calls. Some (Ioctl fd VT_ACTIVATE vt # calls))
      else if os_activate os n \<noteq> 0 then Some [Ioctl fd VT_ACTIVATE vt]
      else if os_waitactive os n = EINTR then
        Option.bind (jump_loop os fd vt (Suc n))
          (\<lambda>calls. Some (Ioctl fd VT_ACTIVATE vt # Ioctl fd VT_WAITACTIVE vt # calls))
      else Some [Ioctl fd VT_ACTIVATE vt, Ioctl fd VT_WAITACTIVE vt])"

text \<open>
  \<open>sizeof(clearEscapeSequence)\<close> is the size of a pointer: eight bytes are written, which are
  the seven of the sequence and its terminating NUL.
\<close>

definition sizeof_clear :: nat where
  "sizeof_clear = 8"

definition jumpToVt :: "vt_os \<Rightarrow> int \<Rightarrow> bool \<Rightarrow> vt_call list option" where
  "jumpToVt os vt vt_auto =
     (let activeVtFd = os_open os defaultVtPath;
          vtFd = os_open os (vt_tty_path vt);
          opens = [Open defaultVtPath, Open (vt_tty_path vt)];
          fd = (if vtFd \<noteq> -1 then vtFd else activeVtFd);
          prepare = (if vtFd \<noteq> -1
            then [Write vtFd sizeof_clear, Ioctl fd KDSETMODE_GRAPHICS 0] @ snd (fixVtMode os activeVtFd vt_auto)
            else []);
          manage = (if \<not> vt_auto then snd (handleVtSwitches os fd) else []);
          closes = Close activeVtFd # (if vtFd \<noteq> -1 then [Close vtFd] else [])
      in map_option (\<lambda>jump. opens @ prepare @ manage @ jump @ closes) (jump_loop os fd vt 0))"

section \<open>The loop ends when it is not interrupted for ever\<close>

text \<open>The attempt at which the loop ends.\<close>

definition jump_ends :: "vt_os \<Rightarrow> nat \<Rightarrow> bool" where
  "jump_ends os n \<longleftrightarrow> os_activate os n \<noteq> EINTR \<and> (os_activate os n = 0 \<longrightarrow> os_waitactive os n \<noteq> EINTR)"

lemma jump_loop_ends: "jump_ends os (n + k) \<Longrightarrow> \<exists>calls. jump_loop os fd vt n = Some calls"
proof (induction k arbitrary: n)
  case 0
  then show ?case by (auto simp: jump_ends_def jump_loop.simps [of os fd vt n])
next
  case (Suc k)
  from Suc.prems have "jump_ends os (Suc n + k)" by simp
  from Suc.IH [OF this] obtain calls where "jump_loop os fd vt (Suc n) = Some calls" ..
  then show ?case by (auto simp: jump_loop.simps [of os fd vt n])
qed

lemma jump_loop_only:
  "jump_loop os fd vt n = Some calls \<Longrightarrow>
     (\<exists>k. jump_ends os (n + k)) \<and> set calls \<subseteq> {Ioctl fd VT_ACTIVATE vt, Ioctl fd VT_WAITACTIVE vt}"
proof (induction rule: jump_loop.raw_induct [rotated 1, consumes 1, case_names step])
  case (step f os fd vt n calls)
  show ?case
  proof (cases "jump_ends os n")
    case True
    then have "jump_ends os (n + 0)" by simp
    moreover have "set calls \<subseteq> {Ioctl fd VT_ACTIVATE vt, Ioctl fd VT_WAITACTIVE vt}"
      using step(2) True by (auto simp: jump_ends_def split: if_splits)
    ultimately show ?thesis by blast
  next
    case False
    then have "\<exists>cs. f os fd vt (Suc n) = Some cs \<and>
      (calls = Ioctl fd VT_ACTIVATE vt # cs \<or> calls = Ioctl fd VT_ACTIVATE vt # Ioctl fd VT_WAITACTIVE vt # cs)"
      using step(2) by (auto simp: jump_ends_def bind_eq_Some_conv split: if_splits)
    then obtain cs where f: "f os fd vt (Suc n) = Some cs"
      and c: "calls = Ioctl fd VT_ACTIVATE vt # cs \<or> calls = Ioctl fd VT_ACTIVATE vt # Ioctl fd VT_WAITACTIVE vt # cs"
      by blast
    from step(1) [OF f] obtain k where k: "jump_ends os (n + Suc k)" and "set cs \<subseteq> {Ioctl fd VT_ACTIVATE vt, Ioctl fd VT_WAITACTIVE vt}"
      by auto
    with c have "set calls \<subseteq> {Ioctl fd VT_ACTIVATE vt, Ioctl fd VT_WAITACTIVE vt}" by auto
    with k show ?thesis by blast
  qed
qed


text \<open>The descriptors a list of calls opens, that succeeded, and those it closes.\<close>

fun opened :: "vt_os \<Rightarrow> vt_call list \<Rightarrow> int list" where
  "opened os [] = []"
| "opened os (Open p # cs) = (if os_open os p = -1 then opened os cs else os_open os p # opened os cs)"
| "opened os (c # cs) = opened os cs"

fun closed :: "vt_call list \<Rightarrow> int list" where
  "closed [] = []"
| "closed (Close fd # cs) = (if fd = -1 then closed cs else fd # closed cs)"
| "closed (c # cs) = closed cs"

lemma opened_append [simp]: "opened os (xs @ ys) = opened os xs @ opened os ys"
  by (induction os xs rule: opened.induct) simp_all

lemma closed_append [simp]: "closed (xs @ ys) = closed xs @ closed ys"
  by (induction xs rule: closed.induct) simp_all

lemma no_fds:
  "set cs \<subseteq> {c. \<exists>fd r a. c = Ioctl fd r a} \<Longrightarrow> opened os cs = [] \<and> closed cs = []"
  by (induction cs) auto

lemma fixVtMode_fds [simp]:
  "opened os (snd (fixVtMode os fd a)) = []" "closed (snd (fixVtMode os fd a)) = []"
  by (simp_all add: fixVtMode_def handleVtSwitches_def Let_def)

lemma handleVtSwitches_fds [simp]:
  "opened os (snd (handleVtSwitches os fd)) = []" "closed (snd (handleVtSwitches os fd)) = []"
  by (simp_all add: handleVtSwitches_def)

lemma getVtActive_fds [simp]:
  "opened os (snd (getVtActive os fd)) = []" "closed (snd (getVtActive os fd)) = []"
  by (simp_all add: getVtActive_def)

text \<open>No descriptor leaks.  Whatever the kernel answers, the descriptors that the terminal
  functions have opened are exactly those they close, each once.\<close>

theorem vt_descriptors_balanced:
  assumes "\<And>p. - 1 \<le> os_open os p"
  shows "opened os (snd (currentVt os)) = closed (snd (currentVt os))
    \<and> opened os (snd (setUpNewVt os)) = closed (snd (setUpNewVt os))
    \<and> (case jumpToVt os vt vt_auto of None \<Rightarrow> True | Some calls \<Rightarrow> opened os calls = closed calls)"
proof -
  have neg: "os_open os p < 0 \<longleftrightarrow> os_open os p = -1" for p
    using assms [of p] by linarith
  have "opened os calls = closed calls" if run: "jumpToVt os vt vt_auto = Some calls" for calls
  proof -
    let ?fd = "if os_open os (vt_tty_path vt) \<noteq> -1 then os_open os (vt_tty_path vt) else os_open os defaultVtPath"
    obtain jump where j: "jump_loop os ?fd vt 0 = Some jump"
      using run unfolding jumpToVt_def Let_def map_option_eq_Some by blast
    from jump_loop_only [OF j] have "opened os jump = [] \<and> closed jump = []" by (intro no_fds) auto
    with run j show ?thesis by (auto simp: jumpToVt_def Let_def split: if_splits)
  qed
  then show ?thesis
    using neg by (auto simp: currentVt_def setUpNewVt_def Let_def split: prod.splits option.splits)
      (metis closed_append getVtActive_fds opened_append snd_conv append_Nil)+
qed

definition sample_vt :: vt_os where
  "sample_vt = \<lparr>os_open = (\<lambda>p. if p = ''/dev/tty0'' then 3 else 4), os_ioctl = (\<lambda>fd r. 0),
     os_activate = (\<lambda>n. if n < 2 then EINTR else 0), os_waitactive = (\<lambda>n. 0),
     os_v_active = 1, os_openqry = 7, os_vt_mode = VT_AUTO, os_kd_mode = 1\<rparr>"

lemma vt_descriptors_balanced_witness:
  "case jumpToVt sample_vt 2 True of None \<Rightarrow> False | Some calls \<Rightarrow> opened sample_vt calls = closed calls"
proof -
  have "jumpToVt sample_vt 2 True \<noteq> None"
    unfolding jumpToVt_def Let_def using jump_loop_ends [of sample_vt 0 2]
    by (auto simp: jump_ends_def sample_vt_def EINTR_def)
  with vt_descriptors_balanced [of sample_vt 2 True] show ?thesis
    by (auto simp: sample_vt_def split: option.splits)
qed

end
