(* ===== verification/Display_Manager.thy ===== *)
theory Display_Manager
  imports Prelude
begin

text \<open>
  The D-Bus objects for seats and sessions (\<open>src/daemon/DisplayManager.cpp\<close>).  The lists hold
  pointers: an object is its address together with its fields.  Registering an object with D-Bus is the
  business of the theory DBus_Objects; the unimplemented methods (\<open>SwitchToGuest\<close>, \<open>SwitchToUser\<close>, \<open>Lock\<close>) have no
  effect on the state.  The second result of an operation is the object paths it emits signals with.
\<close>

definition DISPLAYMANAGER_SEAT_PATH :: QString where
  "DISPLAYMANAGER_SEAT_PATH = ''/org/freedesktop/DisplayManager/Seat''"

definition DISPLAYMANAGER_SESSION_PATH :: QString where
  "DISPLAYMANAGER_SESSION_PATH = ''/org/freedesktop/DisplayManager/Session''"

definition seatPath :: "QString \<Rightarrow> QString" where
  "seatPath seatName = DISPLAYMANAGER_SEAT_PATH @ q_mid seatName 4"

definition sessionPath :: "QString \<Rightarrow> QString" where
  "sessionPath sessionName = DISPLAYMANAGER_SESSION_PATH @ q_mid sessionName 7"

record dm_seat =
  dse_addr :: nat
  dse_name :: QString
  dse_path :: QString

record dm_session =
  dss_addr :: nat
  dss_name :: QString
  dss_path :: QString
  dss_seat :: QString
  dss_user :: QString

record display_manager =
  dm_next :: nat
  dm_seats :: "dm_seat list"
  dm_sessions :: "dm_session list"

definition new_seat :: "nat \<Rightarrow> QString \<Rightarrow> dm_seat" where
  "new_seat addr name = \<lparr>dse_addr = addr, dse_name = name, dse_path = DISPLAYMANAGER_SEAT_PATH @ q_mid name 4\<rparr>"

definition new_session :: "nat \<Rightarrow> QString \<Rightarrow> QString \<Rightarrow> QString \<Rightarrow> dm_session" where
  "new_session addr name seat user =
     \<lparr>dss_addr = addr, dss_name = name, dss_path = DISPLAYMANAGER_SESSION_PATH @ q_mid name 7, dss_seat = seat, dss_user = user\<rparr>"

definition dss_seatPath :: "dm_session \<Rightarrow> QString" where
  "dss_seatPath s = DISPLAYMANAGER_SEAT_PATH @ q_mid (dss_seat s) 4"

definition dm_Seats :: "display_manager \<Rightarrow> QString list" where
  "dm_Seats dm = map dse_path (dm_seats dm)"

text \<open>\<open>None\<close> is the null pointer: the sessions of every seat.\<close>

definition dm_Sessions :: "dm_seat option \<Rightarrow> display_manager \<Rightarrow> QString list" where
  "dm_Sessions seat dm =
     map dss_path (filter (\<lambda>s. case seat of None \<Rightarrow> True | Some x \<Rightarrow> dse_name x = dss_seat s) (dm_sessions dm))"

definition dm_AddSeat :: "QString \<Rightarrow> display_manager \<Rightarrow> display_manager \<times> QString list" where
  "dm_AddSeat name dm =
     (let seat = new_seat (dm_next dm) name
      in (dm\<lparr>dm_next := dm_next dm + 1, dm_seats := dm_seats dm @ [seat]\<rparr>, [dse_path seat]))"

definition dm_AddSession :: "QString \<Rightarrow> QString \<Rightarrow> QString \<Rightarrow> display_manager \<Rightarrow> display_manager \<times> QString list" where
  "dm_AddSession name seat user dm =
     (let session = new_session (dm_next dm) name seat user
      in (dm\<lparr>dm_next := dm_next dm + 1, dm_sessions := dm_sessions dm @ [session]\<rparr>, [dss_path session]))"

text \<open>
  Removal happens inside a loop over the same list.  The loop's iterators keep the bounds of the
  list as it was, while \<open>removeAll\<close> moves the remaining pointers to the front of the same
  memory: the loop goes on at the next cell, and the cells past the new end still hold what was in
  them.  \<open>cells\<close> is that memory, \<open>live\<close> how much of it is the list.
\<close>

definition remove_all_cells :: "('a \<Rightarrow> bool) \<Rightarrow> nat \<Rightarrow> 'a list \<Rightarrow> nat \<times> 'a list" where
  "remove_all_cells eq live cells =
     (let kept = filter (\<lambda>x. \<not> eq x) (take live cells)
      in (length kept, kept @ drop (length kept) cells))"

fun remove_loop :: "('a \<Rightarrow> bool) \<Rightarrow> ('a \<Rightarrow> 'a \<Rightarrow> bool) \<Rightarrow> nat \<Rightarrow> nat \<Rightarrow> nat \<Rightarrow> 'a list \<Rightarrow> 'a list \<times> 'a list" where
  "remove_loop named same 0 i live cells = (take live cells, [])"
| "remove_loop named same (Suc k) i live cells =
     (let s = cells ! i in
      if named s then
        (let (live1, cells1) = remove_all_cells (same s) live cells;
             (rest, out) = remove_loop named same k (i + 1) live1 cells1
         in (rest, s # out))
      else remove_loop named same k (i + 1) live cells)"

definition remove_named :: "('a \<Rightarrow> bool) \<Rightarrow> ('a \<Rightarrow> 'a \<Rightarrow> bool) \<Rightarrow> 'a list \<Rightarrow> 'a list \<times> 'a list" where
  "remove_named named same xs = remove_loop named same (length xs) 0 (length xs) xs"

definition dm_RemoveSeat :: "QString \<Rightarrow> display_manager \<Rightarrow> display_manager \<times> QString list" where
  "dm_RemoveSeat name dm =
     (let (seats, removed) = remove_named (\<lambda>s. dse_name s = name) (\<lambda>s t. dse_addr s = dse_addr t) (dm_seats dm)
      in (dm\<lparr>dm_seats := seats\<rparr>, map dse_path removed))"

definition dm_RemoveSession :: "QString \<Rightarrow> display_manager \<Rightarrow> display_manager \<times> QString list" where
  "dm_RemoveSession name dm =
     (let (sessions, removed) = remove_named (\<lambda>s. dss_name s = name) (\<lambda>s t. dss_addr s = dss_addr t) (dm_sessions dm)
      in (dm\<lparr>dm_sessions := sessions\<rparr>, map dss_path removed))"

section \<open>Removing from the list that is being walked\<close>

lemma remove_loop_none:
  "\<forall>j. i \<le> j \<and> j < i + k \<longrightarrow> \<not> named (cells ! j) \<Longrightarrow> remove_loop named same k i live cells = (take live cells, [])"
  by (induction k arbitrary: i) (simp_all add: Let_def)

lemma remove_loop_skip:
  "\<forall>j. i \<le> j \<and> j < i + m \<longrightarrow> \<not> named (cells ! j) \<Longrightarrow>
     remove_loop named same (m + k) i live cells = remove_loop named same k (i + m) live cells"
  by (induction m arbitrary: i) (simp_all add: Let_def)

text \<open>
  With one element of the name, everything before it is passed, it is removed, and the cells the
  loop still visits hold elements that came after it.
\<close>

lemma remove_named_unique:
  assumes "\<forall>y \<in> set (ys @ zs). \<not> named y" "named x" "\<forall>y \<in> set (ys @ zs). \<not> same x y" "same x x"
  shows "remove_named named same (ys @ x # zs) = (ys @ zs, [x])"
proof -
  let ?xs = "ys @ x # zs"
  have pre: "remove_loop named same (length ys + Suc (length zs)) 0 (length ?xs) ?xs
      = remove_loop named same (Suc (length zs)) (0 + length ys) (length ?xs) ?xs"
    by (rule remove_loop_skip) (use assms(1) in \<open>auto simp: nth_append\<close>)
  have cells: "remove_all_cells (same x) (length ?xs) ?xs = (length (ys @ zs), (ys @ zs) @ drop (length (ys @ zs)) ?xs)"
    using assms(3,4) by (simp add: remove_all_cells_def Let_def filter_id_conv)
  let ?cells = "(ys @ zs) @ drop (length (ys @ zs)) ?xs"
  have past: "\<not> named (?cells ! j)" if "Suc (length ys) \<le> j" "j < Suc (length ys) + length zs" for j
  proof (cases "j < length (ys @ zs)")
    case True
    then show ?thesis using assms(1) by (metis nth_append nth_mem)
  next
    case False
    with that have j: "j = length ys + length zs" by simp
    with that have "zs \<noteq> []" by auto
    then have "drop (length (ys @ zs)) ?xs = [last zs]"
      by (cases zs rule: rev_cases) auto
    with j have "?cells ! j = last zs" by (simp add: nth_append)
    then show ?thesis using assms(1) \<open>zs \<noteq> []\<close> by simp
  qed
  have tail: "remove_loop named same (length zs) (Suc (length ys)) (length (ys @ zs)) ?cells = (ys @ zs, [])"
    using remove_loop_none [of "Suc (length ys)" "length zs" named ?cells same "length (ys @ zs)"] past by simp
  show ?thesis
    using pre cells tail assms(2) by (simp add: remove_named_def Let_def)
qed

lemma remove_named_absent: "\<forall>y \<in> set xs. \<not> named y \<Longrightarrow> remove_named named same xs = (xs, [])"
  using remove_loop_none [of 0 "length xs" named xs same "length xs"] by (simp add: remove_named_def)

lemma RemoveSeat_filter:
  assumes "distinct (map dse_addr (dm_seats dm))" "distinct (map dse_name (dm_seats dm))"
  shows "dm_RemoveSeat name dm =
    (dm\<lparr>dm_seats := filter (\<lambda>s. dse_name s \<noteq> name) (dm_seats dm)\<rparr>,
     map dse_path (filter (\<lambda>s. dse_name s = name) (dm_seats dm)))"
proof (cases "\<exists>s \<in> set (dm_seats dm). dse_name s = name")
  case False
  then have "filter (\<lambda>s. dse_name s \<noteq> name) (dm_seats dm) = dm_seats dm"
    "filter (\<lambda>s. dse_name s = name) (dm_seats dm) = []"
    by (auto simp: filter_id_conv filter_empty_conv)
  with False show ?thesis by (simp add: dm_RemoveSeat_def remove_named_absent)
next
  case True
  then obtain ys x zs where s: "dm_seats dm = ys @ x # zs" "dse_name x = name" by (metis split_list)
  with assms have n: "\<forall>y \<in> set (ys @ zs). dse_name y \<noteq> name" "\<forall>y \<in> set (ys @ zs). dse_addr x \<noteq> dse_addr y"
    by (auto simp: image_iff)
  then have "filter (\<lambda>s. dse_name s \<noteq> name) (ys @ zs) = ys @ zs" "filter (\<lambda>s. dse_name s = name) (ys @ zs) = []"
    by (auto simp: filter_id_conv filter_empty_conv)
  with s n show ?thesis
    using remove_named_unique [of ys zs "\<lambda>s. dse_name s = name" x "\<lambda>s t. dse_addr s = dse_addr t"]
    by (simp add: dm_RemoveSeat_def)
qed

text \<open>Removing a seat removes it.  When seat names are unique, \<open>RemoveSeat\<close> takes exactly
  the named seat out of the list and announces its path once, although it changes the list inside the
  loop; an unknown name changes and announces nothing.\<close>

theorem RemoveSeat_unique:
  assumes "distinct (map dse_addr (dm_seats dm))" "distinct (map dse_name (dm_seats dm))"
  shows "dm_RemoveSeat name dm =
    (dm\<lparr>dm_seats := filter (\<lambda>s. dse_name s \<noteq> name) (dm_seats dm)\<rparr>,
     map dse_path (filter (\<lambda>s. dse_name s = name) (dm_seats dm)))"
  using assms by (rule RemoveSeat_filter)

definition sample_dm :: display_manager where
  "sample_dm = fst (dm_AddSeat ''seat1'' (fst (dm_AddSeat ''seat0'' \<lparr>dm_next = 1, dm_seats = [], dm_sessions = []\<rparr>)))"

lemma RemoveSeat_unique_witness:
  "dm_seats (fst (dm_RemoveSeat ''seat0'' sample_dm)) = [new_seat 2 ''seat1'']
   \<and> snd (dm_RemoveSeat ''seat0'' sample_dm) = [''/org/freedesktop/DisplayManager/Seat0'']"
  by (subst (1 2) RemoveSeat_unique)
    (simp_all add: sample_dm_def dm_AddSeat_def new_seat_def DISPLAYMANAGER_SEAT_PATH_def q_mid_def)

text \<open>Two seats of one name in front of another seat are not both removed: the loop steps
  over the second, which has moved into the cell it has just left.\<close>

theorem RemoveSeat_skips_duplicate:
  "dm_seats (fst (dm_RemoveSeat ''seat0'' \<lparr>dm_next = 4, dm_seats =
      [new_seat 1 ''seat0'', new_seat 2 ''seat0'', new_seat 3 ''seat1''], dm_sessions = []\<rparr>))
    = [new_seat 2 ''seat0'', new_seat 3 ''seat1'']"
  by (simp add: dm_RemoveSeat_def remove_named_def remove_all_cells_def new_seat_def Let_def
      numeral_eq_Suc)

lemma seatPath_new [simp]: "dse_path (new_seat a n) = seatPath n"
  by (simp add: new_seat_def seatPath_def)

lemma seatPath_prefix: "seatPath (a # b # c # d # n) = DISPLAYMANAGER_SEAT_PATH @ n"
  by (simp add: seatPath_def q_mid_def)

end
