(* ===== verification/Display.thy ===== *)
theory Display
  imports Auth_Daemon Socket_Server Virtual_Terminal Display_Manager
begin

text \<open>
  A display and its greeter (\<open>src/daemon/Display.cpp\<close>, \<open>src/daemon/Greeter.cpp\<close>).

  The state of a display is paired with the \<open>Auth\<close> object it logs users in with, as the theory
  Auth_Daemon wants it of an owner.  What the display asks of logind, of the kernel, of the
  configuration and of the file system is the record \<open>daemon_env\<close>.  Signals to other objects,
  processes started and calls to logind are written down in \<open>d_log\<close>, in order.
\<close>

record logind_session =
  ls_id :: QString
  ls_userName :: QString
  ls_tty :: QString
  ls_state :: QString
  ls_service :: QString
  ls_seat :: QString

record daemon_config =
  cfg_defaultPath :: QString
  cfg_autologinUser :: QString
  cfg_autologinSession :: QString
  cfg_autologinRelogin :: bool

record daemon_env =
  de_logind :: "logind_session list option"
  de_vt :: vt_os
  de_config :: daemon_config
  de_fs :: session_fs
  de_canTTY :: bool
  de_seat :: QString
  de_build :: build_config
  de_auth_server :: QString
  de_locale :: "QStringList option"
  de_child_env :: env
  de_sysenv :: env
  de_greeter_exec :: QString
  de_listen :: "QString \<Rightarrow> QString option"
  de_random :: QString
  de_plasmalogin_user :: bool
  de_chown :: bool

definition PLASMALOGIN_INITIAL_VT :: int where
  "PLASMALOGIN_INITIAL_VT = 1"

text \<open>The state the daemon keeps once: the counters, the tty failures and the first-login lock.\<close>

record daemon_globals =
  gl_lastSessionId :: int
  gl_lastAuthId :: int
  gl_ttyFailures :: int
  gl_firstLoginLock :: bool

datatype display_effect = EmitStopped | EmitDisplayServerFailed | QueueServerStarted
  | Launch QString QStringList | TerminateHelper | KillHelper | UnlockSession QString
  | ActivateSession QString | AppExit int | JumpVtTo int bool | StopGreeterIn nat

record Greeter =
  g_started :: bool
  g_auth :: "Auth option"
  g_socket :: QString

record Display =
  d_started :: bool
  d_terminalId :: int
  d_sessionTerminalId :: int
  d_passPhrase :: QString
  d_sessionName :: QString
  d_reuseSessionId :: "QString option"
  d_autologinSession :: Session
  d_socket :: "nat option"
  d_clients :: "nat \<Rightarrow> byte list"
  d_socketServer :: socket_server
  d_greeter :: Greeter
  d_globals :: daemon_globals
  d_log :: "display_effect list"

type_synonym disp = "Auth \<times> Display"

definition log_effect :: "display_effect \<Rightarrow> Display \<Rightarrow> Display" where
  "log_effect x d = d\<lparr>d_log := d_log d @ [x]\<rparr>"

definition on_client :: "(byte list \<Rightarrow> byte list) \<Rightarrow> nat \<Rightarrow> Display \<Rightarrow> Display" where
  "on_client f s d = d\<lparr>d_clients := (d_clients d)(s := f (d_clients d s))\<rparr>"

section \<open>Terminals\<close>

definition isTtyInUse :: "daemon_env \<Rightarrow> QString \<Rightarrow> bool" where
  "isTtyInUse E desiredTty =
     (case de_logind E of None \<Rightarrow> False
      | Some sessions \<Rightarrow> list_ex (\<lambda>s. desiredTty = ls_tty s \<and> ls_state s \<noteq> ''closing'') sessions)"

definition tty_name :: "int \<Rightarrow> QString" where
  "tty_name vt = ''tty'' @ number vt"

definition fetchAvailableVt :: "daemon_env \<Rightarrow> int" where
  "fetchAvailableVt E =
     (if \<not> isTtyInUse E (tty_name PLASMALOGIN_INITIAL_VT) then PLASMALOGIN_INITIAL_VT
      else
        let vt = fst (currentVt (de_vt E))
        in if 0 < vt \<and> \<not> isTtyInUse E (tty_name vt) then vt else fst (setUpNewVt (de_vt E)))"

definition display_terminalId :: "disp \<Rightarrow> int" where
  "display_terminalId ad = (if auth_isActive (fst ad) then d_sessionTerminalId (snd ad) else d_terminalId (snd ad))"

definition display_sessionType :: QString where
  "display_sessionType = ''wayland''"

section \<open>Construction\<close>

text \<open>
  \<open>DaemonApp::tryLockFirstLogin\<close>: \<open>soft_reboots\<close> is the count systemd reports, or
  \<open>None\<close> when it could not be read.
\<close>

definition tryLockFirstLogin :: "nat option \<Rightarrow> daemon_globals \<Rightarrow> bool \<times> daemon_globals" where
  "tryLockFirstLogin soft_reboots g =
     (if gl_firstLoginLock g then (False, g)
      else ((case soft_reboots of None \<Rightarrow> True | Some n \<Rightarrow> n = 0), g\<lparr>gl_firstLoginLock := True\<rparr>))"

definition newSessionId :: "daemon_globals \<Rightarrow> int \<times> daemon_globals" where
  "newSessionId g = (gl_lastSessionId g, g\<lparr>gl_lastSessionId := gl_lastSessionId g + 1\<rparr>)"

definition choose_autologin :: "daemon_env \<Rightarrow> Session" where
  "choose_autologin E =
     (let autologinSession = cfg_autologinSession (de_config E);
          s = session_create (de_fs E) WaylandSession autologinSession
      in if \<not> session_valid s then session_create (de_fs E) X11Session autologinSession else s)"

definition display_new :: "daemon_env \<Rightarrow> nat option \<Rightarrow> daemon_globals \<Rightarrow> disp" where
  "display_new E soft_reboots g =
     (let (auth, lastId) = auth_new (de_locale E) (de_child_env E) (gl_lastAuthId g);
          g1 = g\<lparr>gl_lastAuthId := lastId\<rparr>;
          terminal = (if de_canTTY E then fetchAvailableVt E else -1);
          (may, g2) = (if cfg_autologinRelogin (de_config E) then (True, g1) else tryLockFirstLogin soft_reboots g1);
          autologin = (if may \<and> cfg_autologinUser (de_config E) \<noteq> [] then choose_autologin E else invalid_session)
      in (auth_setVerbose True auth,
          \<lparr>d_started = False, d_terminalId = terminal, d_sessionTerminalId = 0, d_passPhrase = [],
           d_sessionName = [], d_reuseSessionId = None, d_autologinSession = autologin, d_socket = None,
           d_clients = (\<lambda>_. []), d_socketServer = \<lparr>ss_server = None\<rparr>,
           d_greeter = \<lparr>g_started = False, g_auth = None, g_socket = []\<rparr>, d_globals = g2, d_log = []\<rparr>))"

section \<open>The greeter\<close>

definition greeter_isRunning :: "Greeter \<Rightarrow> bool" where
  "greeter_isRunning g = (case g_auth g of None \<Rightarrow> False | Some a \<Rightarrow> auth_isActive a)"

definition greeter_setSocket :: "QString \<Rightarrow> Greeter \<Rightarrow> Greeter" where
  "greeter_setSocket s g = g\<lparr>g_socket := s\<rparr>"

fun insertEnvironmentList :: "QStringList \<Rightarrow> env \<Rightarrow> env \<Rightarrow> env" where
  "insertEnvironmentList [] source target = target"
| "insertEnvironmentList (n # ns) source target =
     insertEnvironmentList ns source (if env_contains source n then env_insert n (env_value source n) target else target)"

definition greeter_inherited :: QStringList where
  "greeter_inherited = [''LANG'', ''LANGUAGE'', ''LC_CTYPE'', ''LC_NUMERIC'', ''LC_TIME'', ''LC_COLLATE'',
     ''LC_MONETARY'', ''LC_MESSAGES'', ''LC_PAPER'', ''LC_NAME'', ''LC_ADDRESS'', ''LC_TELEPHONE'',
     ''LC_MEASUREMENT'', ''LC_IDENTIFICATION'', ''LD_LIBRARY_PATH'', ''QML2_IMPORT_PATH'',
     ''QT_PLUGIN_PATH'', ''XDG_DATA_DIRS'']"

definition greeter_environment :: "daemon_env \<Rightarrow> int \<Rightarrow> int \<Rightarrow> QString \<Rightarrow> env" where
  "greeter_environment E terminal sessionId socket =
     (let e1 = insertEnvironmentList greeter_inherited (de_sysenv E) [];
          e2 = env_insert ''XDG_SESSION_PATH'' (sessionPath (''Session'' @ number sessionId))
                 (env_insert ''XDG_SEAT_PATH'' (seatPath (de_seat E))
                   (env_insert ''XDG_SEAT'' (de_seat E) (env_insert ''PATH'' (cfg_defaultPath (de_config E)) e1)));
          e3 = (if de_seat E = ''seat0'' \<and> 0 < terminal then env_insert ''XDG_VTNR'' (number terminal) e2 else e2)
      in env_insert ''SDDM_SOCKET'' socket (env_insert ''XDG_SESSION_TYPE'' display_sessionType
           (env_insert ''XDG_SESSION_CLASS'' ''greeter'' e3)))"

text \<open>
  \<open>Greeter::start\<close>: the flag \<open>m_started\<close> it checks is set only when the helper reports its
  session; until then another call replaces the \<open>Auth\<close> object.
\<close>

definition greeter_start :: "daemon_env \<Rightarrow> disp \<Rightarrow> bool \<times> disp" where
  "greeter_start E ad =
     (let (a, d) = ad; g = d_greeter d in
      if g_started g then (False, ad)
      else
        let (auth, lastId) = auth_new (de_locale E) (de_child_env E) (gl_lastAuthId (d_globals d));
            gl1 = (d_globals d)\<lparr>gl_lastAuthId := lastId\<rparr>;
            (sid, gl2) = newSessionId gl1;
            e = greeter_environment E (display_terminalId ad) sid (g_socket g);
            auth1 = auth_setSession (de_greeter_exec E) (auth_setGreeter True (auth_setUser ''plasmalogin''
              (auth_insertEnvironment e (auth_setVerbose True auth))));
            ((program, args), auth2) = auth_start (de_build E) (de_auth_server E) auth1
        in (True, (a, log_effect (Launch program args)
              (d\<lparr>d_globals := gl2, d_greeter := g\<lparr>g_auth := Some auth2\<rparr>\<rparr>))))"

definition greeter_onRequestChanged :: "req_op list" where
  "greeter_onRequestChanged = [SetFinishAutomatically True]"

definition greeter_onSessionStarted :: "bool \<Rightarrow> Display \<Rightarrow> Display" where
  "greeter_onSessionStarted success d = d\<lparr>d_greeter := (d_greeter d)\<lparr>g_started := success\<rparr>\<rparr>"

section \<open>Stopping\<close>

text \<open>
  How a helper process reacts to being terminated: its exit code, when it ends in time, or
  \<open>None\<close> when it has to be killed.  Waiting for a process runs the slots of its \<open>finished\<close>
  signal, which may stop the display once more from within.  The helper catches the signal that terminates it
  (\<open>HelperApp::HelperApp\<close>) and leaves its event loop, so an end in time is an exit with a code.
\<close>

record stop_env =
  se_greeter_exit :: "int option"
  se_session_exit :: "int option"

definition stop_auth :: "int option \<Rightarrow> Auth \<Rightarrow> Display \<Rightarrow> Display" where
  "stop_auth exit a d =
     (if \<not> au_running a then d
      else if exit = None then log_effect KillHelper (log_effect TerminateHelper d)
      else log_effect TerminateHelper d)"

text \<open>What \<open>Greeter::onHelperFinished\<close> does to the greeter, and the slot for \<open>ttyFailed\<close>.\<close>

definition greeter_gone :: "Display \<Rightarrow> Display" where
  "greeter_gone d = d\<lparr>d_greeter := (d_greeter d)\<lparr>g_started := False, g_auth := None\<rparr>\<rparr>"

definition tty_failed :: "Display \<Rightarrow> Display" where
  "tty_failed d =
     (let failures = gl_ttyFailures (d_globals d) + 1;
          d1 = d\<lparr>d_globals := (d_globals d)\<lparr>gl_ttyFailures := failures\<rparr>\<rparr>;
          d2 = (if 5 < failures then log_effect (AppExit 23) d1 else d1)
      in log_effect (JumpVtTo PLASMALOGIN_INITIAL_VT True) d2)"

text \<open>
  \<open>Greeter::onHelperFinished\<close>, with the display's slots for the signals it emits, and
  \<open>Greeter::stop\<close>, which waits for the helper and so may run it; \<open>stop\<close> is
  \<open>Display::stop\<close>.
\<close>

definition greeter_exited :: "(disp \<Rightarrow> disp) \<Rightarrow> int \<Rightarrow> disp \<Rightarrow> disp" where
  "greeter_exited stop status ad =
     (let (a, d) = ad; d1 = greeter_gone d in
      if status = HELPER_DISPLAYSERVER_ERROR then (a, log_effect EmitDisplayServerFailed d1)
      else if status = HELPER_TTY_ERROR then stop (a, tty_failed d1)
      else if status = HELPER_SESSION_ERROR then stop (a, d1)
      else (a, d1))"

definition greeter_stop_with :: "(disp \<Rightarrow> disp) \<Rightarrow> stop_env \<Rightarrow> disp \<Rightarrow> disp" where
  "greeter_stop_with stop S ad =
     (let (a, d) = ad in
      if \<not> g_started (d_greeter d) then ad
      else
        let d0 = (case g_auth (d_greeter d) of None \<Rightarrow> d | Some ga \<Rightarrow> stop_auth (se_greeter_exit S) ga d)
        in case se_greeter_exit S of None \<Rightarrow> (a, d0) | Some code \<Rightarrow> greeter_exited stop code (a, d0))"

text \<open>\<open>m_auth->stop()\<close>, with \<open>slotHelperFinished\<close> when the helper exits in time.\<close>

definition session_stop_with :: "(disp \<Rightarrow> disp) \<Rightarrow> stop_env \<Rightarrow> disp \<Rightarrow> disp" where
  "session_stop_with stop S ad =
     (let (a, d) = ad in
      if \<not> au_running a then ad
      else
        case se_session_exit S of
          None \<Rightarrow> (a, stop_auth None a d)
        | Some code \<Rightarrow>
            let ad1 = (a\<lparr>au_running := False\<rparr>, stop_auth (Some code) a d)
            in if code \<noteq> HELPER_AUTH_ERROR then stop ad1 else ad1)"

definition stop_tail :: "disp \<Rightarrow> disp" where
  "stop_tail ad =
     (fst ad, log_effect EmitStopped
        ((snd ad)\<lparr>d_socketServer := ss_stop (d_socketServer (snd ad)), d_started := False\<rparr>))"

text \<open>
  \<open>Display::stop\<close>, with the slots that run inside it.  Each nested call has one helper less to
  wait for, so three levels are all there can be; the first argument counts them down.
\<close>

fun display_stop_n :: "nat \<Rightarrow> stop_env \<Rightarrow> disp \<Rightarrow> disp" where
  "display_stop_n 0 S ad = ad"
| "display_stop_n (Suc n) S ad =
     (if \<not> d_started (snd ad) then ad
      else stop_tail (session_stop_with (display_stop_n n S) S (greeter_stop_with (display_stop_n n S) S ad)))"

definition display_stop :: "stop_env \<Rightarrow> disp \<Rightarrow> disp" where
  "display_stop S ad = display_stop_n 3 S ad"

definition greeter_onHelperFinished :: "stop_env \<Rightarrow> int \<Rightarrow> disp \<Rightarrow> disp" where
  "greeter_onHelperFinished S status ad = greeter_exited (display_stop S) status ad"

text \<open>\<open>Greeter::stop\<close> on its own, as the timer runs it after a session has started.\<close>

definition greeter_stop :: "stop_env \<Rightarrow> disp \<Rightarrow> disp" where
  "greeter_stop S ad = greeter_stop_with (display_stop S) S ad"

section \<open>Starting\<close>

definition startSocketServerAndGreeter :: "daemon_env \<Rightarrow> disp \<Rightarrow> disp" where
  "startSocketServerAndGreeter E ad =
     (let (a, d) = ad;
          (_, server) = ss_start (de_listen E) [] (de_random E) (d_socketServer d);
          d1 = d\<lparr>d_socketServer := server\<rparr>
      in if de_plasmalogin_user E \<and> \<not> de_chown E then (a, d1)
         else snd (greeter_start E (a, d1\<lparr>d_greeter := greeter_setSocket (ss_socketAddress server) (d_greeter d1)\<rparr>)))"

definition displayServerStarted :: "daemon_env \<Rightarrow> disp \<Rightarrow> disp" where
  "displayServerStarted E ad = startSocketServerAndGreeter E ad"

definition handleAutologinFailure :: "disp \<Rightarrow> bool \<times> disp" where
  "handleAutologinFailure ad =
     (let (a, d) = ad in (True, (auth_setAutologin False a, log_effect QueueServerStarted d)))"

text \<open>The session of the user that is online, to be unlocked instead of starting another one.\<close>

definition reusable :: "QString \<Rightarrow> logind_session \<Rightarrow> bool" where
  "reusable user s \<longleftrightarrow> ls_userName s = user \<and> ls_service s = ''plasmalogin'' \<and> ls_state s = ''online''"

definition find_reusable :: "daemon_env \<Rightarrow> QString \<Rightarrow> QString option" where
  "find_reusable E user =
     (case de_logind E of None \<Rightarrow> None
      | Some sessions \<Rightarrow> map_option ls_id (find (reusable user) sessions))"

definition session_env :: "daemon_env \<Rightarrow> Session \<Rightarrow> int \<Rightarrow> int \<Rightarrow> env" where
  "session_env E session sessionId terminal =
     (let e1 = env_insert ''DESKTOP_SESSION'' (session_desktopSession session)
                 (env_insert ''XDG_SESSION_PATH'' (sessionPath (''Session'' @ number sessionId))
                   (env_insert ''XDG_SEAT_PATH'' (seatPath (de_seat E))
                     (env_insert ''PATH'' (cfg_defaultPath (de_config E)) [])));
          e2 = (if session_desktopNames session \<noteq> []
                then env_insert ''XDG_CURRENT_DESKTOP'' (session_desktopNames session) e1 else e1);
          e3 = env_insert ''XDG_SEAT'' (de_seat E) (env_insert ''XDG_SESSION_TYPE'' (xdgSessionType session)
                 (env_insert ''XDG_SESSION_CLASS'' ''user'' e2));
          e4 = (if 0 < terminal then env_insert ''XDG_VTNR'' (number terminal) e3 else e3)
      in env_insert ''XDG_SESSION_DESKTOP'' (session_desktopNames session) e4)"

definition startAuth :: "daemon_env \<Rightarrow> QString \<Rightarrow> QString \<Rightarrow> Session \<Rightarrow> disp \<Rightarrow> bool \<times> disp" where
  "startAuth E user password session ad =
     (let (a, d) = ad in
      if auth_isActive a then (False, ad)
      else
        let d1 = d\<lparr>d_passPhrase := password\<rparr> in
        if \<not> session_valid session then (False, (a, d1))
        else if xdgSessionType session = [] then (False, (a, d1))
        else if session_exec session = [] then (False, (a, d1))
        else
          let terminal = (if greeter_isRunning (d_greeter d1) \<and> de_canTTY E
                then fst (setUpNewVt (de_vt E)) else d_terminalId d1);
              (sid, gl) = newSessionId (d_globals d1);
              d2 = d1\<lparr>d_reuseSessionId := find_reusable E user, d_sessionName := session_fileName session,
                d_sessionTerminalId := terminal, d_globals := gl\<rparr>;
              a1 = auth_setUser user a;
              a2 = (if d_reuseSessionId d2 = None then auth_setSession (session_exec session) a1 else a1);
              a3 = auth_insertEnvironment (session_env E session sid terminal) a2;
              ((program, args), a4) = auth_start (de_build E) (de_auth_server E) a3
          in (True, (a4, log_effect (Launch program args) d2)))"

definition display_start :: "daemon_env \<Rightarrow> disp \<Rightarrow> bool \<times> disp" where
  "display_start E ad =
     (let (a, d) = ad in
      if d_started d then (True, ad)
      else
        let d1 = d\<lparr>d_started := True\<rparr> in
        if session_valid (d_autologinSession d1) then
          (let (ok, ad2) = startAuth E (cfg_autologinUser (de_config E)) [] (d_autologinSession d1) (auth_setAutologin True a, d1)
           in if ok then (True, ad2) else handleAutologinFailure ad2)
        else (True, (a, log_effect QueueServerStarted d1)))"

section \<open>Logging in\<close>

definition emit_loginFailed :: "qds \<Rightarrow> Display \<Rightarrow> Display" where
  "emit_loginFailed c d = (case d_socket d of None \<Rightarrow> d | Some s \<Rightarrow> on_client (ss_loginFailed c) s d)"

definition emit_loginSucceeded :: "qds \<Rightarrow> Display \<Rightarrow> Display" where
  "emit_loginSucceeded c d = (case d_socket d of None \<Rightarrow> d | Some s \<Rightarrow> on_client (ss_loginSucceeded c) s d)"

definition display_login :: "qds \<Rightarrow> daemon_env \<Rightarrow> nat \<Rightarrow> QString \<Rightarrow> QString \<Rightarrow> Session \<Rightarrow> disp \<Rightarrow> disp" where
  "display_login c E socket user password session ad =
     (let (a, d) = ad; d1 = d\<lparr>d_socket := Some socket\<rparr> in
      if user = ''plasmalogin'' then (a, emit_loginFailed c d1)
      else snd (startAuth E user password session (a, d1)))"

definition slotAuthenticationFinished :: "qds \<Rightarrow> QString \<Rightarrow> bool \<Rightarrow> disp \<Rightarrow> disp" where
  "slotAuthenticationFinished c user success ad =
     (let (a, d) = ad in
      if au_autologin a \<and> \<not> success then snd (handleAutologinFailure ad)
      else
        let d1 = (if success then
                    emit_loginSucceeded c
                      (case d_reuseSessionId d of None \<Rightarrow> d
                       | Some s \<Rightarrow> log_effect (ActivateSession s) (log_effect (UnlockSession s) d))
                  else emit_loginFailed c d)
        in (a, d1\<lparr>d_socket := None\<rparr>))"

definition slotAuthInfo :: "qds \<Rightarrow> QString \<Rightarrow> AuthInfo \<Rightarrow> disp \<Rightarrow> disp" where
  "slotAuthInfo c message info ad =
     (let (a, d) = ad in
      (a, case d_socket d of None \<Rightarrow> d | Some s \<Rightarrow> on_client (ss_informationMessage c message) s d))"

definition slotAuthError :: "qds \<Rightarrow> QString \<Rightarrow> AuthError \<Rightarrow> disp \<Rightarrow> disp" where
  "slotAuthError c message error ad =
     (let (a, d) = ad in
      (a, case d_socket d of None \<Rightarrow> d
          | Some s \<Rightarrow>
              let d1 = on_client (ss_informationMessage c message) s d
              in if error = ERROR_AUTHENTICATION then emit_loginFailed c d1 else d1))"

definition slotHelperFinished :: "stop_env \<Rightarrow> int \<Rightarrow> disp \<Rightarrow> disp" where
  "slotHelperFinished S status ad = (if status \<noteq> HELPER_AUTH_ERROR then display_stop S ad else ad)"

definition slotSessionStarted :: "bool \<Rightarrow> disp \<Rightarrow> disp" where
  "slotSessionStarted success ad =
     (if success then (fst ad, log_effect (StopGreeterIn 5000) (snd ad)) else ad)"

text \<open>\<open>qPrintable\<close> passes a C string: it ends at the first NUL.\<close>

definition c_str :: "QString \<Rightarrow> QByteArray" where
  "c_str s = takeWhile (\<lambda>ch. ch \<noteq> CHR 0x00) s"

definition slotRequestChanged :: "Auth \<Rightarrow> Display \<Rightarrow> req_op list" where
  "slotRequestChanged a d =
     (let prompts = ar_prompts (au_request a) in
      if length prompts = 1 then [SetResponse 0 (c_str (d_passPhrase d)), Done]
      else if length prompts = 2 then
        [SetResponse 0 (c_str (au_user a)), SetResponse 1 (c_str (d_passPhrase d)), Done]
      else [])"

text \<open>The display as the owner of its \<open>Auth\<close>; \<open>displayServerReady\<close> is not connected.\<close>

definition display_signal :: "qds \<Rightarrow> stop_env \<Rightarrow> auth_signal \<Rightarrow> disp \<Rightarrow> disp" where
  "display_signal c S sig ad =
     (case sig of
        SigAuthentication user success \<Rightarrow> slotAuthenticationFinished c user success ad
      | SigSessionStarted success \<Rightarrow> slotSessionStarted success ad
      | SigFinished status \<Rightarrow> slotHelperFinished S status ad
      | SigInfo message info \<Rightarrow> slotAuthInfo c message info ad
      | SigError message error \<Rightarrow> slotAuthError c message error ad
      | SigDisplayServerReady name \<Rightarrow> ad)"

definition display_owner :: "qds \<Rightarrow> stop_env \<Rightarrow> Display auth_owner" where
  "display_owner c S = \<lparr>own_signal = display_signal c S, own_slot = slotRequestChanged\<rparr>"

text \<open>The greeter as the owner of its own: its slots for messages only log.\<close>

definition greeter_signal :: "stop_env \<Rightarrow> auth_signal \<Rightarrow> Auth \<times> disp \<Rightarrow> Auth \<times> disp" where
  "greeter_signal S sig gad =
     (let (g, a, d) = gad in
      case sig of
        SigSessionStarted success \<Rightarrow> (g, a, greeter_onSessionStarted success d)
      | SigFinished status \<Rightarrow> (g, greeter_onHelperFinished S status (a, d))
      | _ \<Rightarrow> gad)"

definition greeter_owner :: "stop_env \<Rightarrow> disp auth_owner" where
  "greeter_owner S = \<lparr>own_signal = greeter_signal S, own_slot = (\<lambda>_ _. greeter_onRequestChanged)\<rparr>"

lemmas display_step_defs [step_defs] =
  slotAuthenticationFinished_def slotAuthInfo_def slotAuthError_def slotHelperFinished_def
  slotSessionStarted_def log_effect_def on_client_def emit_loginFailed_def emit_loginSucceeded_def


text \<open>The destructor takes the slot for the session's helper off first, then stops.\<close>

definition display_destroy :: "stop_env \<Rightarrow> disp \<Rightarrow> disp" where
  "display_destroy S ad =
     display_stop (S\<lparr>se_session_exit := map_option (\<lambda>_. HELPER_AUTH_ERROR) (se_session_exit S)\<rparr>) ad"

section \<open>Logging in: what is started\<close>

lemma log_effect_simps [simp]:
  "d_log (log_effect x d) = d_log d @ [x]" "d_started (log_effect x d) = d_started d"
  "d_socketServer (log_effect x d) = d_socketServer d" "d_greeter (log_effect x d) = d_greeter d"
  "d_clients (log_effect x d) = d_clients d" "d_socket (log_effect x d) = d_socket d"
  "d_globals (log_effect x d) = d_globals d" "d_reuseSessionId (log_effect x d) = d_reuseSessionId d"
  "d_passPhrase (log_effect x d) = d_passPhrase d"
  by (simp_all add: log_effect_def)

lemma on_client_simps [simp]:
  "d_clients (on_client f s d) = (d_clients d)(s := f (d_clients d s))" "d_log (on_client f s d) = d_log d"
  "d_socket (on_client f s d) = d_socket d" "d_passPhrase (on_client f s d) = d_passPhrase d"
  by (simp_all add: on_client_def)

lemma startAuth_refused:
  assumes "auth_isActive a \<or> \<not> session_valid session \<or> xdgSessionType session = [] \<or> session_exec session = []"
  shows "\<exists>d'. startAuth E user password session (a, d) = (False, a, d') \<and> d_log d' = d_log d \<and> d_clients d' = d_clients d
    \<and> d_socket d' = d_socket d"
  using assms by (auto simp: startAuth_def Let_def)

text \<open>The state after a login that has started its helper.\<close>

definition session_auth :: "daemon_env \<Rightarrow> QString \<Rightarrow> Session \<Rightarrow> int \<Rightarrow> int \<Rightarrow> Auth \<Rightarrow> Auth" where
  "session_auth E user session sid terminal a =
     (let a1 = auth_setUser user a;
          a2 = (if find_reusable E user = None then auth_setSession (session_exec session) a1 else a1)
      in auth_insertEnvironment (session_env E session sid terminal) a2)"

definition login_terminal :: "daemon_env \<Rightarrow> Display \<Rightarrow> int" where
  "login_terminal E d = (if greeter_isRunning (d_greeter d) \<and> de_canTTY E then fst (setUpNewVt (de_vt E)) else d_terminalId d)"

lemma startAuth_started:
  fixes E user session a d
  defines "a' \<equiv> session_auth E user session (gl_lastSessionId (d_globals d)) (login_terminal E d) a"
  assumes "\<not> auth_isActive a" "session_valid session" "xdgSessionType session \<noteq> []" "session_exec session \<noteq> []"
  shows "\<exists>d'. startAuth E user password session (a, d) = (True, a'\<lparr>au_running := True\<rparr>, d')
    \<and> d_log d' = d_log d @ [Launch (LIBEXEC_INSTALL_DIR (de_build E) @ ''/plasmalogin-helper'') (auth_args (de_auth_server E) a')]
    \<and> d_passPhrase d' = password \<and> d_socket d' = d_socket d \<and> d_reuseSessionId d' = find_reusable E user"
  using assms(2-) by (simp add: a'_def startAuth_def session_auth_def newSessionId_def auth_start_def Let_def login_terminal_def)

lemma session_auth_sel [simp]:
  "au_user (session_auth E user s sid t a) = user"
  "au_autologin (session_auth E user s sid t a) = au_autologin a"
  "au_greeter (session_auth E user s sid t a) = au_greeter a"
  "au_id (session_auth E user s sid t a) = au_id a"
  "au_sessionPath (session_auth E user s sid t a) = (if find_reusable E user = None then session_exec s else au_sessionPath a)"
  by (simp_all add: session_auth_def auth_setters Let_def)

text \<open>The user \<open>plasmalogin\<close>, whose PAM service asks for no password, cannot be logged in
  from a greeter: the request is answered with \<open>LoginFailed\<close>, no helper is started and the
  authentication object is untouched.\<close>

theorem plasmalogin_refused:
  "display_login c E s ''plasmalogin'' password session (a, d)
    = (a, d\<lparr>d_socket := Some s, d_clients := (d_clients d)(s := ss_loginFailed c (d_clients d s))\<rparr>)"
  by (simp add: display_login_def emit_loginFailed_def on_client_def Let_def)

text \<open>Property C7: a login starts a helper exactly when the user is not \<open>plasmalogin\<close>, no other
  authentication is under way, and the session names a desktop file with a command.  The helper gets the
  user that was asked for, the session's command unless an online session of the user is reused, and the
  autologin and greeter flags the display had.\<close>

theorem login_starts_helper_iff:
  assumes "display_login c E s user password (session_create (de_fs E) type name) (a, d) = (a', d')"
  shows "(\<exists>program args. d_log d' = d_log d @ [Launch program args] \<and> au_running a' \<and> au_user a' = user
        \<and> args = auth_args (de_auth_server E) a' \<and> d_passPhrase d' = password
        \<and> (find_reusable E user = None \<longrightarrow> au_sessionPath a' = session_exec (session_create (de_fs E) type name))
        \<and> au_autologin a' = au_autologin a \<and> au_greeter a' = au_greeter a)
    \<longleftrightarrow> user \<noteq> ''plasmalogin'' \<and> \<not> auth_isActive a \<and> session_valid (session_create (de_fs E) type name)
        \<and> session_exec (session_create (de_fs E) type name) \<noteq> []"
proof -
  let ?s = "session_create (de_fs E) type name"
  let ?ok = "user \<noteq> ''plasmalogin'' \<and> \<not> auth_isActive a \<and> session_valid ?s \<and> session_exec ?s \<noteq> []"
  show ?thesis
  proof (cases ?ok)
    case True
    then have "xdgSessionType ?s \<noteq> []" using session_create_xdg [of "de_fs E" type name] by auto
    with True startAuth_started [of a ?s E user password "d\<lparr>d_socket := Some s\<rparr>"] obtain d2 where
      d2: "startAuth E user password ?s (a, d\<lparr>d_socket := Some s\<rparr>)
         = (True, (session_auth E user ?s (gl_lastSessionId (d_globals d)) (login_terminal E (d\<lparr>d_socket := Some s\<rparr>)) a)\<lparr>au_running := True\<rparr>, d2)"
        "d_log d2 = d_log d @ [Launch (LIBEXEC_INSTALL_DIR (de_build E) @ ''/plasmalogin-helper'')
           (auth_args (de_auth_server E) (session_auth E user ?s (gl_lastSessionId (d_globals d)) (login_terminal E (d\<lparr>d_socket := Some s\<rparr>)) a))]"
        "d_passPhrase d2 = password" by auto
    moreover from d2(1) True assms have "a' = (session_auth E user ?s (gl_lastSessionId (d_globals d)) (login_terminal E (d\<lparr>d_socket := Some s\<rparr>)) a)\<lparr>au_running := True\<rparr>" "d' = d2"
      by (auto simp: display_login_def)
    moreover have "auth_args srv (x\<lparr>au_running := True\<rparr>) = auth_args srv x" for srv x
      by (simp add: auth_args_def)
    ultimately show ?thesis using True by simp
  next
    case False
    then have "d_log d' = d_log d"
    proof (cases "user = ''plasmalogin''")
      case True
      with assms show ?thesis by (auto simp: display_login_def emit_loginFailed_def)
    next
      case False
      with \<open>\<not> ?ok\<close> startAuth_refused [of a ?s E user password "d\<lparr>d_socket := Some s\<rparr>"] assms show ?thesis
        by (auto simp: display_login_def)
    qed
    with False show ?thesis by auto
  qed
qed

text \<open>A login that cannot be started is not answered.  With an authentication under way, or
  with a session that is not valid, nothing is written to the greeter, neither a failure nor a message;
  the greeter's socket still takes the place of the previous one.\<close>

theorem refused_login_unanswered:
  assumes "user \<noteq> ''plasmalogin''" "auth_isActive a \<or> \<not> session_valid session"
  shows "d_clients (snd (display_login c E s user password session (a, d))) = d_clients d
    \<and> d_log (snd (display_login c E s user password session (a, d))) = d_log d
    \<and> d_socket (snd (display_login c E s user password session (a, d))) = Some s"
  using startAuth_refused [of a session E user password "d\<lparr>d_socket := Some s\<rparr>"] assms
  by (auto simp: display_login_def)

text \<open>Reusing an online session keeps the previous attempt's command.  A login for a user
  with an online session does not set the session of the \<open>Auth\<close> object, so a command left there by an
  earlier attempt is what the helper is told to start, beside the session that is activated.\<close>

theorem reuse_keeps_stale_command:
  assumes "user \<noteq> ''plasmalogin''" "\<not> auth_isActive a" "session_valid (session_create (de_fs E) type name)"
    and "session_exec (session_create (de_fs E) type name) \<noteq> []"
    and "find_reusable E user = Some sid" "au_sessionPath a = stale" "stale \<noteq> []"
  shows "case display_login c E s user password (session_create (de_fs E) type name) (a, d) of (a', d') \<Rightarrow>
    d_reuseSessionId d' = Some sid \<and>
    (\<exists>program pre post. d_log d' = d_log d @ [Launch program (pre @ [''--start'', stale] @ post)])"
proof -
  let ?s = "session_create (de_fs E) type name"
  have "xdgSessionType ?s \<noteq> []" using session_create_xdg [OF assms(3)] by auto
  let ?a = "session_auth E user ?s (gl_lastSessionId (d_globals d)) (login_terminal E (d\<lparr>d_socket := Some s\<rparr>)) a"
  from \<open>xdgSessionType ?s \<noteq> []\<close> startAuth_started [of a ?s E user password "d\<lparr>d_socket := Some s\<rparr>"] assms(2-5)
  obtain d' where d': "startAuth E user password ?s (a, d\<lparr>d_socket := Some s\<rparr>) = (True, ?a\<lparr>au_running := True\<rparr>, d')"
    "d_log d' = d_log d @ [Launch (LIBEXEC_INSTALL_DIR (de_build E) @ ''/plasmalogin-helper'') (auth_args (de_auth_server E) ?a)]"
    "d_reuseSessionId d' = Some sid"
    by auto
  have "\<exists>pre post. auth_args (de_auth_server E) ?a = pre @ [''--start'', stale] @ post"
    using assms(5-7) by - (rule exI [of _ "[''--socket'', de_auth_server E, ''--id'', number (au_id ?a)]"],
      simp add: auth_args_def)
  with d' assms(1) show ?thesis by (auto simp: display_login_def)
qed


section \<open>Stopping\<close>

lemma greeter_gone_simps [simp]:
  "d_started (greeter_gone d) = d_started d" "\<not> g_started (d_greeter (greeter_gone d))"
  "d_log (greeter_gone d) = d_log d" "d_socketServer (greeter_gone d) = d_socketServer d"
  by (simp_all add: greeter_gone_def)

lemma stop_auth_simps [simp]:
  "d_started (stop_auth e a d) = d_started d" "d_greeter (stop_auth e a d) = d_greeter d"
  "d_socketServer (stop_auth e a d) = d_socketServer d"
  by (simp_all add: stop_auth_def)

lemma tty_failed_simps [simp]:
  "d_started (tty_failed d) = d_started d" "d_greeter (tty_failed d) = d_greeter d"
  by (simp_all add: tty_failed_def log_effect_def Let_def)

declare display_stop_n.simps(2) [simp del]

lemma greeter_stop_off [simp]: "\<not> g_started (d_greeter d) \<Longrightarrow> greeter_stop_with stop S (a, d) = (a, d)"
  by (simp add: greeter_stop_with_def)

lemma session_stop_off [simp]: "\<not> au_running a \<Longrightarrow> session_stop_with stop S (a, d) = (a, d)"
  by (simp add: session_stop_with_def)

lemma stop_idle:
  "\<not> g_started (d_greeter d) \<Longrightarrow> \<not> au_running a \<Longrightarrow>
     display_stop_n (Suc n) S (a, d) = (if \<not> d_started d then (a, d) else stop_tail (a, d))"
  by (simp add: display_stop_n.simps(2))

lemma session_stop_cong:
  assumes "\<And>d' e. d' = stop_auth e a d \<Longrightarrow> f (a\<lparr>au_running := False\<rparr>, d') = g (a\<lparr>au_running := False\<rparr>, d')"
  shows "session_stop_with f S (a, d) = session_stop_with g S (a, d)"
  using assms by (simp add: session_stop_with_def Let_def split: option.splits)

lemma greeter_stop_cong:
  assumes "\<And>d'. \<not> g_started (d_greeter d') \<Longrightarrow> f (a, d') = g (a, d')"
  shows "greeter_stop_with f S (a, d) = greeter_stop_with g S (a, d)"
  using assms by (simp add: greeter_stop_with_def greeter_exited_def Let_def split: option.splits)

lemma stop_no_greeter:
  assumes "\<not> g_started (d_greeter d)"
  shows "display_stop_n (Suc (Suc n)) S (a, d) = display_stop_n (Suc (Suc m)) S (a, d)"
proof -
  have "session_stop_with (display_stop_n (Suc n) S) S (a, d) = session_stop_with (display_stop_n (Suc m) S) S (a, d)"
    using assms by (intro session_stop_cong) (simp add: stop_idle)
  then show ?thesis using assms by (simp add: display_stop_n.simps(2) [of "Suc n"] display_stop_n.simps(2) [of "Suc m"])
qed

text \<open>After a greeter phase the greeter is gone, unless it had to be killed.\<close>

lemma stopped_greeter: 
  "\<not> g_started (d_greeter d) \<Longrightarrow> \<not> g_started (d_greeter (snd (display_stop_n n S (a, d))))"
proof (induction n arbitrary: a d)
  case (Suc n)
  then show ?case
    by (simp add: display_stop_n.simps(2) session_stop_with_def stop_tail_def Let_def split: option.splits)
qed simp

lemma stopped_session:
  "\<not> au_running a \<Longrightarrow> \<not> au_running (fst (display_stop_n n S (a, d)))"
proof (induction n arbitrary: a d)
  case (Suc n)
  have "\<not> au_running (fst (greeter_stop_with (display_stop_n n S) S (a, d)))"
    using Suc by (simp add: greeter_stop_with_def greeter_exited_def Let_def split: option.splits)
  with Suc.prems show ?case
    by (cases "greeter_stop_with (display_stop_n n S) S (a, d)") (simp add: display_stop_n.simps(2) stop_tail_def)
qed simp

lemma greeter_survives:
  assumes "g_started (d_greeter (snd (greeter_stop_with (display_stop_n n S) S (a, d))))"
  shows "se_greeter_exit S = None"
proof (rule ccontr)
  assume "se_greeter_exit S \<noteq> None"
  then obtain code where c: "se_greeter_exit S = Some code" by blast
  have "\<not> g_started (d_greeter (snd (greeter_exited (display_stop_n n S) code (a, d0))))" for d0
    by (simp add: greeter_exited_def stopped_greeter Let_def)
  with assms c show False
    by (simp add: greeter_stop_with_def Let_def split: if_splits)
qed

lemma stop_killed_greeter:
  assumes "se_greeter_exit S = None" "\<not> au_running a"
  shows "display_stop_n (Suc n) S (a, d) = display_stop_n (Suc m) S (a, d)"
proof -
  have "\<exists>d1. \<forall>f. greeter_stop_with f S (a, d) = (a, d1)"
    using assms(1) by (cases "g_started (d_greeter d)") (simp_all add: greeter_stop_with_def Let_def)
  then obtain d1 where "\<And>f. greeter_stop_with f S (a, d) = (a, d1)" by blast
  then show ?thesis using assms(2) by (simp add: display_stop_n.simps(2))
qed

lemma stop_levels: "display_stop_n (Suc (Suc (Suc n))) S (a, d) = display_stop_n (Suc (Suc (Suc m))) S (a, d)"
proof -
  have g: "greeter_stop_with (display_stop_n (Suc (Suc n)) S) S (a, d) = greeter_stop_with (display_stop_n (Suc (Suc m)) S) S (a, d)"
    by (rule greeter_stop_cong) (rule stop_no_greeter)
  obtain a1 d1 where ad1: "greeter_stop_with (display_stop_n (Suc (Suc m)) S) S (a, d) = (a1, d1)" by fastforce
  have "session_stop_with (display_stop_n (Suc (Suc n)) S) S (a1, d1) = session_stop_with (display_stop_n (Suc (Suc m)) S) S (a1, d1)"
  proof (cases "g_started (d_greeter d1)")
    case False
    then show ?thesis by (intro session_stop_cong) (simp add: stop_no_greeter [of _ n _ _ m])
  next
    case True
    then have "se_greeter_exit S = None" using greeter_survives [of "Suc (Suc m)" S a d] ad1 by simp
    then show ?thesis by (intro session_stop_cong) (simp add: stop_killed_greeter [of _ _ "Suc n" _ "Suc m"])
  qed
  with g ad1 show ?thesis by (simp add: display_stop_n.simps(2) [of "Suc (Suc n)"] display_stop_n.simps(2) [of "Suc (Suc m)"])
qed

lemma display_stop_step:
  "display_stop S ad =
     (if \<not> d_started (snd ad) then ad
      else stop_tail (session_stop_with (display_stop S) S (greeter_stop_with (display_stop S) S ad)))"
proof -
  obtain a d where ad: "ad = (a, d)" by fastforce
  have e: "display_stop_n 3 S = display_stop_n (Suc (Suc (Suc 0))) S" by (simp add: numeral_3_eq_3)
  have "display_stop S (x, y) = display_stop_n (Suc (Suc (Suc 0))) S (x, y)" for x y
    by (simp add: display_stop_def e)
  then have f: "display_stop S = display_stop_n (Suc (Suc (Suc 0))) S" by auto
  show ?thesis
    unfolding ad f by (subst stop_levels [of 0 S a d "Suc 0"]) (rule display_stop_n.simps(2))
qed

text \<open>Property C16: stopping a display always finishes.  The levels the nesting may take are enough (a stop
  that may run itself again from its slots is a fixed point of one round), and a started display ends up not
  started, with its socket server gone and \<open>stopped\<close> emitted last; when its session's helper reacts to being
  terminated, no authentication is left running.\<close>

theorem display_stop_completes:
  assumes "d_started d"
  shows "case display_stop S (a, d) of (a', d') \<Rightarrow>
    display_stop S (a, d) = stop_tail (session_stop_with (display_stop S) S (greeter_stop_with (display_stop S) S (a, d)))
    \<and> \<not> d_started d' \<and> ss_server (d_socketServer d') = None \<and> last (d_log d') = EmitStopped
    \<and> (se_session_exit S \<noteq> None \<longrightarrow> \<not> au_running a')"
proof -
  obtain a1 d1 where g: "greeter_stop_with (display_stop S) S (a, d) = (a1, d1)" by fastforce
  obtain a2 d2 where s: "session_stop_with (display_stop S) S (a1, d1) = (a2, d2)" by fastforce
  have e: "display_stop S (a, d) = stop_tail (a2, d2)"
    using assms g s by (subst display_stop_step) simp
  have "\<not> au_running a2" if "se_session_exit S \<noteq> None"
  proof (cases "au_running a1")
    case False
    with s show ?thesis by simp
  next
    case True
    have "\<not> au_running (fst (display_stop S (a1\<lparr>au_running := False\<rparr>, x)))" for x
      by (simp add: display_stop_def stopped_session)
    with True that s show ?thesis
      by (auto simp: session_stop_with_def Let_def split: if_splits) (metis fst_conv)
  qed
  with e g s show ?thesis by (simp add: stop_tail_def ss_stop_def)
qed

text \<open>\<open>stopped\<close> may be emitted twice by one stop.  When the helper of a running session exits
  in time, other than with an authentication error, its \<open>finished\<close> signal stops the display from within
  the wait, and the outer call goes on to emit \<open>stopped\<close> again.\<close>

theorem stopped_emitted_twice:
  assumes "d_started d" "\<not> g_started (d_greeter d)" "au_running a"
    and "se_session_exit S = Some code" "code \<noteq> HELPER_AUTH_ERROR"
  shows "d_log (snd (display_stop S (a, d))) = d_log d @ [TerminateHelper, EmitStopped, EmitStopped]"
proof -
  let ?d = "stop_auth (Some code) a d"
  have "display_stop S (a\<lparr>au_running := False\<rparr>, ?d) = stop_tail (a\<lparr>au_running := False\<rparr>, ?d)"
    using assms(1,2) by (subst display_stop_step) simp
  then have "display_stop S (a, d) = stop_tail (stop_tail (a\<lparr>au_running := False\<rparr>, ?d))"
    using assms by (subst display_stop_step) (simp add: session_stop_with_def Let_def)
  then show ?thesis using assms(3) by (simp add: stop_tail_def stop_auth_def)
qed

text \<open>A greeter whose terminal is taken away again and again ends the daemon: from the sixth
  failure on every \<open>ttyFailed\<close> asks the application to exit with code 23, and each one switches back to the
  initial terminal.\<close>

theorem tty_failures_counted:
  "gl_ttyFailures (d_globals (tty_failed d)) = gl_ttyFailures (d_globals d) + 1
   \<and> d_log (tty_failed d) = d_log d @ (if 5 \<le> gl_ttyFailures (d_globals d) then [AppExit 23] else [])
        @ [JumpVtTo PLASMALOGIN_INITIAL_VT True]"
  by (simp add: tty_failed_def log_effect_def Let_def)


section \<open>Answering the helper\<close>

text \<open>The reply to a request: the display answers a request of one or two prompts.\<close>

definition display_answers :: "Auth \<Rightarrow> Display \<Rightarrow> Prompt list \<Rightarrow> QByteArray list option" where
  "display_answers a d prompts =
     (if length prompts = 1 then Some [c_str (d_passPhrase d)]
      else if length prompts = 2 then Some [c_str (au_user a), c_str (d_passPhrase d)]
      else None)"

definition with_responses :: "Prompt list \<Rightarrow> QByteArray list \<Rightarrow> Prompt list" where
  "with_responses ps rs = map2 (\<lambda>p r. p\<lparr>p_response := r\<rparr>) ps rs"

lemma prompt_same_response [simp]: "p\<lparr>p_response := p_response p\<rparr> = p"
  by simp

lemma ar_setResponse_quiet:
  "i < length (ar_prompts ar) \<Longrightarrow> \<not> ar_connected ar \<Longrightarrow>
     ar_op (SetResponse i r) ar = (False, ar\<lparr>ar_prompts := (ar_prompts ar)[i := (ar_prompts ar ! i)\<lparr>p_response := r\<rparr>]\<rparr>)"
  by (auto simp: ar_setResponse_def Let_def)

lemma auth_op_response:
  assumes "i < length (ar_prompts (au_request a))" "\<not> ar_connected (au_request a)"
  shows "auth_op c own d (SetResponse i r) a =
    a\<lparr>au_request := (au_request a)\<lparr>ar_prompts := (ar_prompts (au_request a))[i := (ar_prompts (au_request a) ! i)\<lparr>p_response := r\<rparr>]\<rparr>\<rparr>"
  using assms by (simp add: auth_op_def ar_setResponse_quiet del: ar_op.simps)

lemma auth_op_done:
  assumes "\<not> ar_finished (au_request a)"
  shows "auth_op c (display_owner c' S) d Done a =
    a\<lparr>au_request := (au_request a)\<lparr>ar_finished := True, ar_prompts := []\<rparr>,
      au_chan := ch_send (put_msg c REQUEST @ put_request c \<lparr>r_prompts = ar_prompts (au_request a)\<rparr>) (au_chan a)\<rparr>"
  using assms
  by (simp add: auth_op_def ar_done_def auth_requestFinished_def ar_request_def auth_on_request_def
      ar_setRequest_def display_owner_def slotRequestChanged_def Let_def)

lemma display_request_answered:
  assumes "display_answers a d (r_prompts q) = Some rs" "\<not> ar_finishAutomatically (au_request a)"
  shows "au_chan (auth_setRequest c (display_owner c S) d q a) =
      ch_send (put_msg c REQUEST @ put_request c \<lparr>r_prompts = with_responses (r_prompts q) rs\<rparr>) (au_chan a)
    \<and> au_user (auth_setRequest c (display_owner c S) d q a) = au_user a"
proof (cases "length (r_prompts q) = 1")
  case True
  then obtain p where "r_prompts q = [p]" by (auto simp: length_Suc_conv)
  with assms show ?thesis
    by (simp add: display_answers_def with_responses_def auth_setRequest_def auth_on_request_def ar_setRequest_def
        display_owner_def slotRequestChanged_def auth_op_response)
      (auto simp: auth_op_done [unfolded display_owner_def])
next
  case False
  with assms(1) have "length (r_prompts q) = 2" by (auto simp: display_answers_def split: if_splits)
  then obtain p1 p2 where "r_prompts q = [p1, p2]" by (auto simp: numeral_2_eq_2 length_Suc_conv)
  with assms show ?thesis
    by (simp add: display_answers_def with_responses_def auth_setRequest_def auth_on_request_def ar_setRequest_def
        display_owner_def slotRequestChanged_def auth_op_response)
      (auto simp: auth_op_done [unfolded display_owner_def])
qed

text \<open>A request of three or more prompts, such as the one for changing an expired password with
  its current one, is never answered by the display: nothing is sent to the helper, which goes on waiting.\<close>

theorem long_request_unanswered:
  assumes "3 \<le> length (r_prompts q)"
  shows "au_chan (auth_setRequest c (display_owner c' S) d q a) = au_chan a"
  using assms
  by (simp add: auth_setRequest_def auth_on_request_def ar_setRequest_def display_owner_def slotRequestChanged_def)

text \<open>A request for a new password, which has two prompts, is answered with the user's name as the
  new password and the old password as its repetition.\<close>

theorem new_password_gets_user_name:
  assumes "r_prompts q = [mk_prompt CHANGE_NEW ''New password: '' True, mk_prompt CHANGE_REPEAT ''Retype new password: '' True]"
    and "\<not> ar_finishAutomatically (au_request a)"
  shows "ch_out (au_chan (auth_setRequest c (display_owner c S) d q a)) = ch_out (au_chan a)
    @ [put_msg c REQUEST @ put_request c \<lparr>r_prompts =
        [(mk_prompt CHANGE_NEW ''New password: '' True)\<lparr>p_response := c_str (au_user a)\<rparr>,
         (mk_prompt CHANGE_REPEAT ''Retype new password: '' True)\<lparr>p_response := c_str (d_passPhrase d)\<rparr>]\<rparr>]"
  using display_request_answered [of a d q _ c S] assms by (simp add: display_answers_def with_responses_def)

section \<open>Examples\<close>

definition sample_denv :: "logind_session list \<Rightarrow> daemon_env" where
  "sample_denv sessions = \<lparr>de_logind = Some sessions, de_vt = sample_vt,
     de_config = \<lparr>cfg_defaultPath = ''/bin'', cfg_autologinUser = [], cfg_autologinSession = [], cfg_autologinRelogin = False\<rparr>,
     de_fs = sample_fs, de_canTTY = True, de_seat = ''seat0'',
     de_build = \<lparr>LIBEXEC_INSTALL_DIR = ''/usr/libexec'', DATA_INSTALL_DIR = ''/usr/share'', SESSION_COMMAND = ''x'', WAYLAND_SESSION_COMMAND = ''w''\<rparr>,
     de_auth_server = ''auth'', de_locale = None, de_child_env = [], de_sysenv = [], de_greeter_exec = ''greeter'',
     de_listen = (\<lambda>n. Some n), de_random = ''abcdef'', de_plasmalogin_user = True, de_chown = True\<rparr>"

definition sample_globals :: daemon_globals where
  "sample_globals = \<lparr>gl_lastSessionId = 0, gl_lastAuthId = 1, gl_ttyFailures = 0, gl_firstLoginLock = False\<rparr>"

definition sample_disp :: "Auth \<times> Display" where
  "sample_disp = display_new (sample_denv []) None sample_globals"

definition sample_session :: Session where
  "sample_session = session_create sample_fs WaylandSession ''plasma''"

lemma sample_session_sel:
  "session_valid sample_session" "session_exec sample_session = ''startplasma-wayland''"
  by (simp_all add: sample_session_def session_create_def sample_fs_def desktop_name_def ends_with_def
      X11Session_def WaylandSession_def session_valid_def session_exec_def session_entry_def)

lemma sample_disp_sel:
  "au_running (fst sample_disp) = False" "au_user (fst sample_disp) = []" "ar_finishAutomatically (au_request (fst sample_disp)) = False"
  "d_log (snd sample_disp) = []" "d_started (snd sample_disp) = False" "g_started (d_greeter (snd sample_disp)) = False"
  by (simp_all add: sample_disp_def display_new_def auth_new_def auth_setVerbose_def init_auth_request_def
      Let_def split: prod.splits)

lemma login_starts_helper_iff_witness:
  "\<exists>program args. d_log (snd (display_login sd_qds (sample_denv []) 7 ''joe'' ''secret'' sample_session sample_disp))
     = [Launch program args]"
proof -
  obtain a d where ad: "sample_disp = (a, d)" by fastforce
  have s: "sample_session = session_create (de_fs (sample_denv [])) WaylandSession ''plasma''"
    by (simp add: sample_session_def sample_denv_def)
  obtain a' d' where r: "display_login sd_qds (sample_denv []) 7 ''joe'' ''secret'' sample_session (a, d) = (a', d')" by fastforce
  from login_starts_helper_iff [OF r [unfolded s]] sample_session_sel sample_disp_sel
  show ?thesis by (auto simp: ad r s [symmetric] auth_isActive_def)
qed

lemma refused_login_unanswered_witness:
  "d_clients (snd (display_login sd_qds (sample_denv []) 7 ''joe'' ''secret'' invalid_session sample_disp)) = d_clients (snd sample_disp)"
  using refused_login_unanswered [of "''joe''" "fst sample_disp" invalid_session sd_qds "sample_denv []" 7 "''secret''" "snd sample_disp"]
  by simp

definition sample_online :: logind_session where
  "sample_online = \<lparr>ls_id = ''c2'', ls_userName = ''joe'', ls_tty = ''tty2'', ls_state = ''online'', ls_service = ''plasmalogin'', ls_seat = ''seat0''\<rparr>"

lemma reuse_keeps_stale_command_witness:
  "\<exists>program pre post. d_log (snd (display_login sd_qds (sample_denv [sample_online]) 7 ''joe'' ''secret''
      (session_create (de_fs (sample_denv [sample_online])) WaylandSession ''plasma'')
      ((fst sample_disp)\<lparr>au_sessionPath := ''old-command''\<rparr>, snd sample_disp)))
    = [Launch program (pre @ [''--start'', ''old-command''] @ post)]"
proof -
  have s: "sample_session = session_create (de_fs (sample_denv [sample_online])) WaylandSession ''plasma''"
    by (simp add: sample_session_def sample_denv_def)
  have f: "find_reusable (sample_denv [sample_online]) ''joe'' = Some ''c2''"
    by (simp add: find_reusable_def sample_denv_def reusable_def sample_online_def)
  from reuse_keeps_stale_command [of "''joe''" "(fst sample_disp)\<lparr>au_sessionPath := ''old-command''\<rparr>" "sample_denv [sample_online]"
      WaylandSession "''plasma''" "''c2''" "''old-command''" "snd sample_disp" sd_qds 7 "''secret''"]
  show ?thesis using f sample_session_sel sample_disp_sel
    by (auto simp: s [symmetric] auth_isActive_def split: prod.splits)
qed

lemma display_stop_completes_witness:
  "case display_stop \<lparr>se_greeter_exit = Some 2, se_session_exit = Some 0\<rparr>
     (fst sample_disp, (snd sample_disp)\<lparr>d_started := True, d_greeter := \<lparr>g_started = True, g_auth = Some (fst sample_disp), g_socket = []\<rparr>\<rparr>) of
     (a', d') \<Rightarrow> \<not> d_started d' \<and> last (d_log d') = EmitStopped"
  using display_stop_completes [of "(snd sample_disp)\<lparr>d_started := True, d_greeter := \<lparr>g_started = True, g_auth = Some (fst sample_disp), g_socket = []\<rparr>\<rparr>"
      "\<lparr>se_greeter_exit = Some 2, se_session_exit = Some 0\<rparr>" "fst sample_disp"]
  by (simp split: prod.splits)

lemma stopped_emitted_twice_witness:
  "d_log (snd (display_stop \<lparr>se_greeter_exit = None, se_session_exit = Some 0\<rparr>
     ((fst sample_disp)\<lparr>au_running := True\<rparr>, (snd sample_disp)\<lparr>d_started := True\<rparr>))) = [TerminateHelper, EmitStopped, EmitStopped]"
  using stopped_emitted_twice [of "(snd sample_disp)\<lparr>d_started := True\<rparr>" "(fst sample_disp)\<lparr>au_running := True\<rparr>"
      "\<lparr>se_greeter_exit = None, se_session_exit = Some 0\<rparr>" 0] sample_disp_sel
  by (simp add: HELPER_AUTH_ERROR_def)

lemma long_request_unanswered_witness:
  "au_chan (auth_setRequest sd_qds (display_owner sd_qds \<lparr>se_greeter_exit = None, se_session_exit = None\<rparr>) (snd sample_disp)
     \<lparr>r_prompts = [mk_prompt CHANGE_CURRENT ''(current) UNIX password: '' True, mk_prompt CHANGE_NEW ''New password: '' True,
       mk_prompt CHANGE_REPEAT ''Retype new password: '' True]\<rparr> (fst sample_disp)) = au_chan (fst sample_disp)"
  by (rule long_request_unanswered) simp

lemma new_password_gets_user_name_witness:
  "ch_out (au_chan (auth_setRequest sd_qds (display_owner sd_qds \<lparr>se_greeter_exit = None, se_session_exit = None\<rparr>) ((snd sample_disp)\<lparr>d_passPhrase := ''secret''\<rparr>)
     \<lparr>r_prompts = [mk_prompt CHANGE_NEW ''New password: '' True, mk_prompt CHANGE_REPEAT ''Retype new password: '' True]\<rparr>
     ((fst sample_disp)\<lparr>au_user := ''joe'', au_chan := \<lparr>ch_out = [], ch_in = []\<rparr>\<rparr>)))
   = [put_msg sd_qds REQUEST @ put_request sd_qds \<lparr>r_prompts =
        [(mk_prompt CHANGE_NEW ''New password: '' True)\<lparr>p_response := ''joe''\<rparr>,
         (mk_prompt CHANGE_REPEAT ''Retype new password: '' True)\<lparr>p_response := ''secret''\<rparr>]\<rparr>]"
  using sample_disp_sel by (subst new_password_gets_user_name) (simp_all add: c_str_def)

end
