(* ===== verification/Display_Life.thy ===== *)
theory Display_Life
  imports Display
begin

text \<open>
  The life of a display (\<open>src/daemon/Display.cpp\<close>, \<open>src/daemon/Greeter.cpp\<close>): the events that reach it,
  in any order, and what no order of them can bring about.

  A display lives from its construction by its seat, which starts it once.  From then on it hears from the event loop
  (the queued call of \<open>displayServerStarted\<close>, the timer that stops the greeter), from the greeter's socket, from the
  helpers of its session and of its greeter, and from its seat.  What a helper writes is not constrained.
\<close>

section \<open>Events\<close>

text \<open>\<open>lf_delivered\<close> counts the queued calls of \<open>displayServerStarted\<close> that the event loop has made.\<close>

record life =
  lf_delivered :: nat
  lf_display :: disp

definition queued :: "Display \<Rightarrow> nat" where
  "queued d = count_list (d_log d) QueueServerStarted"

text \<open>The programs stay what they are; the kernel, logind, the file system and the configuration, which is read again
  whenever a display is created, may change.  A display is constructed and started with one configuration.\<close>

definition same_programs :: "daemon_env \<Rightarrow> daemon_env \<Rightarrow> bool" where
  "same_programs E E' \<longleftrightarrow> de_build E' = de_build E \<and> de_seat E' = de_seat E
     \<and> de_auth_server E' = de_auth_server E \<and> de_greeter_exec E' = de_greeter_exec E"

definition same_daemon :: "daemon_env \<Rightarrow> daemon_env \<Rightarrow> bool" where
  "same_daemon E E' \<longleftrightarrow> same_programs E E' \<and> de_config E' = de_config E"

lemma same_daemonD: "same_daemon E E' \<Longrightarrow> same_programs E E'"
  by (simp add: same_daemon_def)

text \<open>The constructor and the seat's call of \<open>start\<close>.\<close>

definition life_begin :: "daemon_env \<Rightarrow> daemon_env \<Rightarrow> nat option \<Rightarrow> daemon_globals \<Rightarrow> life" where
  "life_begin E E' soft_reboots g = \<lparr>lf_delivered = 0, lf_display = snd (display_start E' (display_new E soft_reboots g))\<rparr>"

text \<open>The greeter's \<open>Auth\<close> belongs to the greeter: what happens to it is kept until the greeter lets go of it.\<close>

definition with_greeter_auth :: "(Auth \<times> disp \<Rightarrow> Auth \<times> disp) \<Rightarrow> disp \<Rightarrow> disp" where
  "with_greeter_auth f ad =
     (case g_auth (d_greeter (snd ad)) of
        None \<Rightarrow> ad
      | Some g \<Rightarrow>
          let (g', a, d) = f (g, ad)
          in (a, if g_auth (d_greeter d) = None then d else d\<lparr>d_greeter := (d_greeter d)\<lparr>g_auth := Some g'\<rparr>\<rparr>))"

text \<open>Bytes from the greeter: every login request in them is a call of \<open>login\<close>.\<close>

definition display_request :: "qds \<Rightarrow> daemon_env \<Rightarrow> nat \<Rightarrow> greeter_event \<Rightarrow> disp \<Rightarrow> disp" where
  "display_request c E socket ev ad =
     (case ev of Connected \<Rightarrow> ad | LoginRequest user password session \<Rightarrow> display_login c E socket user password session ad)"

definition display_readyRead :: "qds \<Rightarrow> daemon_env \<Rightarrow> nat \<Rightarrow> byte list \<Rightarrow> disp \<Rightarrow> disp" where
  "display_readyRead c E socket bytes ad = fold (display_request c E socket) (ss_readyRead c (de_fs E) bytes) ad"

definition helper_wrote :: "byte list list \<Rightarrow> Auth \<Rightarrow> Auth" where
  "helper_wrote payloads a = a\<lparr>au_chan := (au_chan a)\<lparr>ch_in := payloads\<rparr>\<rparr>"

inductive life_step :: "qds \<Rightarrow> daemon_env \<Rightarrow> life \<Rightarrow> life \<Rightarrow> bool" for c E0 where
  server_started: "lf_delivered l < queued (snd (lf_display l)) \<Longrightarrow> same_programs E0 E \<Longrightarrow>
     life_step c E0 l \<lparr>lf_delivered = Suc (lf_delivered l), lf_display = displayServerStarted E (lf_display l)\<rparr>"
| greeter_wrote: "0 < lf_delivered l \<Longrightarrow> same_programs E0 E \<Longrightarrow>
     life_step c E0 l (l\<lparr>lf_display := display_readyRead c E socket bytes (lf_display l)\<rparr>)"
| helper_connected:
     "life_step c E0 l (l\<lparr>lf_display := apfst (auth_setSocket ch) (lf_display l)\<rparr>)"
| helper_data:
     "life_step c E0 l (l\<lparr>lf_display := auth_dataPending c (display_owner c S) (apfst (helper_wrote ps) (lf_display l))\<rparr>)"
| helper_exited: "au_running (fst (lf_display l)) \<Longrightarrow>
     life_step c E0 l (l\<lparr>lf_display := auth_childExited code normal text (display_owner c S) (lf_display l)\<rparr>)"
| helper_error:
     "life_step c E0 l (l\<lparr>lf_display := auth_childError text (display_owner c S) (lf_display l)\<rparr>)"
| greeter_connected:
     "life_step c E0 l (l\<lparr>lf_display := with_greeter_auth (apfst (auth_setSocket ch)) (lf_display l)\<rparr>)"
| greeter_data:
     "life_step c E0 l (l\<lparr>lf_display :=
        with_greeter_auth (\<lambda>gad. auth_dataPending c (greeter_owner S) (apfst (helper_wrote ps) gad)) (lf_display l)\<rparr>)"
| greeter_exited:
     "life_step c E0 l (l\<lparr>lf_display := with_greeter_auth (auth_childExited code normal text (greeter_owner S)) (lf_display l)\<rparr>)"
| greeter_error:
     "life_step c E0 l (l\<lparr>lf_display := with_greeter_auth (auth_childError text (greeter_owner S)) (lf_display l)\<rparr>)"
| greeter_timer: "StopGreeterIn t \<in> set (d_log (snd (lf_display l))) \<Longrightarrow>
     life_step c E0 l (l\<lparr>lf_display := greeter_stop S (lf_display l)\<rparr>)"
| stopped:
     "life_step c E0 l (l\<lparr>lf_display := display_stop S (lf_display l)\<rparr>)"

text \<open>Between its own events the other displays change the counters of the daemon.\<close>

inductive life_reachable :: "qds \<Rightarrow> daemon_env \<Rightarrow> life \<Rightarrow> bool" for c E0 where
  begun: "same_daemon E0 E \<Longrightarrow> same_daemon E0 E' \<Longrightarrow> life_reachable c E0 (life_begin E E' soft_reboots g)"
| next_event: "life_reachable c E0 l \<Longrightarrow> life_step c E0 l l' \<Longrightarrow> life_reachable c E0 l'"
| others: "life_reachable c E0 l \<Longrightarrow> life_reachable c E0 (l\<lparr>lf_display := apsnd (d_globals_update (\<lambda>_. g)) (lf_display l)\<rparr>)"

section \<open>The invariant\<close>

text \<open>The helpers that may be started: the greeter's own, the configured automatic login, and logins with a password.\<close>

definition launch_allowed :: "daemon_env \<Rightarrow> Session \<Rightarrow> Auth \<Rightarrow> bool" where
  "launch_allowed E autologin x =
     (if au_greeter x
      then au_user x = ''plasmalogin'' \<and> au_sessionPath x = de_greeter_exec E \<and> \<not> au_autologin x
      else (au_autologin x \<longrightarrow> au_user x = cfg_autologinUser (de_config E) \<and> cfg_autologinUser (de_config E) \<noteq> []
              \<and> session_valid autologin \<and> au_sessionPath x \<in> {[], session_exec autologin})
         \<and> (au_user x = ''plasmalogin'' \<longrightarrow> au_autologin x))"

definition effect_allowed :: "daemon_env \<Rightarrow> Session \<Rightarrow> display_effect \<Rightarrow> bool" where
  "effect_allowed E autologin x =
     (case x of
        Launch program args \<Rightarrow> program = LIBEXEC_INSTALL_DIR (de_build E) @ ''/plasmalogin-helper''
          \<and> (\<exists>y. args = auth_args (de_auth_server E) y \<and> launch_allowed E autologin y)
      | _ \<Rightarrow> True)"

definition display_inv :: "daemon_env \<Rightarrow> nat \<Rightarrow> disp \<Rightarrow> bool" where
  "display_inv E n ad =
     (case ad of (a, d) \<Rightarrow>
        n \<le> queued d \<and> queued d \<le> 1 \<and> (au_autologin a \<longrightarrow> queued d = 0) \<and> \<not> au_greeter a
        \<and> (g_auth (d_greeter d) \<noteq> None \<longrightarrow> 0 < n) \<and> (g_started (d_greeter d) \<longrightarrow> g_auth (d_greeter d) \<noteq> None)
        \<and> (session_valid (d_autologinSession d) \<longrightarrow> cfg_autologinUser (de_config E) \<noteq> [])
        \<and> list_all (effect_allowed E (d_autologinSession d)) (d_log d))"

text \<open>What the invariant reads of a display: two displays that agree there are both in or both out.\<close>

definition same_view :: "Display \<Rightarrow> Display \<Rightarrow> bool" where
  "same_view d d' \<longleftrightarrow> d_log d' = d_log d \<and> d_greeter d' = d_greeter d \<and> d_autologinSession d' = d_autologinSession d"

lemma display_inv_cong:
  assumes "display_inv E n (a, d)" "same_view d d'" "au_autologin a' = au_autologin a" "au_greeter a' = au_greeter a"
  shows "display_inv E n (a', d')"
  using assms by (simp add: display_inv_def same_view_def queued_def)

lemma display_inv_log:
  assumes "display_inv E n (a, d)" "x \<noteq> QueueServerStarted" "\<And>p as. x \<noteq> Launch p as"
  shows "display_inv E n (a, log_effect x d)"
  using assms by (auto simp: display_inv_def queued_def log_effect_def effect_allowed_def split: display_effect.splits)

lemma same_view_simps [simp]:
  "same_view d d" "same_view d (on_client f s d)" "same_view d (d\<lparr>d_socket := so\<rparr>)" "same_view d (d\<lparr>d_passPhrase := p\<rparr>)"
  "same_view d (d\<lparr>d_globals := g\<rparr>)" "same_view d (d\<lparr>d_socketServer := srv\<rparr>)" "same_view d (d\<lparr>d_started := b\<rparr>)"
  by (simp_all add: same_view_def on_client_def)

section \<open>Stopping keeps it\<close>

lemma inv_greeter_gone:
  "display_inv E n (a, d) \<Longrightarrow> display_inv E n (a, greeter_gone d)"
  by (simp add: display_inv_def greeter_gone_def queued_def)

lemma inv_running: "display_inv E n (a, d) \<Longrightarrow> display_inv E n (a\<lparr>au_running := b\<rparr>, d)"
  by (erule display_inv_cong) simp_all

lemma inv_view: "display_inv E n (a, d) \<Longrightarrow> same_view d d' \<Longrightarrow> display_inv E n (a, d')"
  by (erule display_inv_cong) simp_all

lemma inv_stop_auth: "display_inv E n (a, d) \<Longrightarrow> display_inv E n (a, stop_auth exit b d)"
  by (simp add: stop_auth_def display_inv_log)

lemma inv_tty_failed:
  assumes "display_inv E n (a, d)"
  shows "display_inv E n (a, tty_failed d)"
proof -
  have "display_inv E n (a, d\<lparr>d_globals := g\<rparr>)" for g using inv_view [OF assms] by simp
  then show ?thesis by (simp add: tty_failed_def Let_def display_inv_log)
qed

lemma inv_stop_tail: "display_inv E n ad \<Longrightarrow> display_inv E n (stop_tail ad)"
  by (cases ad) (simp add: stop_tail_def display_inv_log inv_view same_view_def)

lemma inv_greeter_exited:
  assumes "\<And>x. display_inv E n x \<Longrightarrow> display_inv E n (stop x)" "display_inv E n (a, d)"
  shows "display_inv E n (greeter_exited stop code (a, d))"
  using assms inv_greeter_gone [OF assms(2)] inv_tty_failed [OF inv_greeter_gone [OF assms(2)]]
  by (simp add: greeter_exited_def Let_def display_inv_log)

lemma inv_greeter_stop_with:
  assumes "\<And>x. display_inv E n x \<Longrightarrow> display_inv E n (stop x)" "display_inv E n ad"
  shows "display_inv E n (greeter_stop_with stop S ad)"
proof (cases ad)
  case (Pair a d)
  have "display_inv E n (a, case g_auth (d_greeter d) of None \<Rightarrow> d | Some ga \<Rightarrow> stop_auth (se_greeter_exit S) ga d)"
    using assms(2) Pair by (simp add: inv_stop_auth split: option.split)
  with Pair assms show ?thesis
    by (simp add: greeter_stop_with_def Let_def inv_greeter_exited split: option.split)
qed

lemma inv_session_stop_with:
  assumes "\<And>x. display_inv E n x \<Longrightarrow> display_inv E n (stop x)" "display_inv E n ad"
  shows "display_inv E n (session_stop_with stop S ad)"
  using assms by (cases ad) (simp add: session_stop_with_def Let_def inv_stop_auth inv_running split: option.split)

lemma inv_display_stop_n: "display_inv E n ad \<Longrightarrow> display_inv E n (display_stop_n k S ad)"
proof (induction k arbitrary: ad)
  case (Suc k)
  show ?case
    using inv_stop_tail [OF inv_session_stop_with [OF Suc.IH inv_greeter_stop_with [OF Suc.IH Suc.prems]]] Suc.prems
    by (simp add: display_stop_n.simps(2))
qed simp

lemma inv_display_stop: "display_inv E n ad \<Longrightarrow> display_inv E n (display_stop S ad)"
  by (simp add: display_stop_def inv_display_stop_n)

section \<open>Logging in keeps it\<close>

lemma inv_launch:
  assumes "display_inv E n (a, d)" "effect_allowed E (d_autologinSession d) (Launch p as)"
  shows "display_inv E n (a, log_effect (Launch p as) d)"
  using assms by (auto simp: display_inv_def queued_def log_effect_def)

lemma inv_queue:
  assumes "display_inv E n (a, d)" "queued d = 0" "\<not> au_autologin a"
  shows "display_inv E n (a, log_effect QueueServerStarted d)"
  using assms by (auto simp: display_inv_def queued_def log_effect_def effect_allowed_def)

lemma inv_autologin_failure:
  assumes "display_inv E n (a, d)" "au_autologin a"
  shows "display_inv E n (snd (handleAutologinFailure (a, d)))"
  using assms by (auto simp: handleAutologinFailure_def auth_setAutologin_def display_inv_def queued_def log_effect_def effect_allowed_def)

lemma startAuth_cases:
  assumes "startAuth E user password session (a, d) = (ok, ad')"
  shows "\<not> ok \<and> (\<exists>d'. ad' = (a, d') \<and> same_view d d')
    \<or> ok \<and> session_valid session \<and> (\<exists>d' sid t. same_view d d'
        \<and> ad' = ((session_auth E user session sid t a)\<lparr>au_running := True\<rparr>,
            log_effect (Launch (LIBEXEC_INSTALL_DIR (de_build E) @ ''/plasmalogin-helper'')
              (auth_args (de_auth_server E) (session_auth E user session sid t a))) d'))"
proof (cases "auth_isActive a \<or> \<not> session_valid session \<or> xdgSessionType session = [] \<or> session_exec session = []")
  case True
  with assms show ?thesis by (auto simp: startAuth_def Let_def split: if_splits)
next
  case False
  let ?a = "session_auth E user session (gl_lastSessionId (d_globals d)) (login_terminal E d) a"
  let ?d = "d\<lparr>d_passPhrase := password, d_reuseSessionId := find_reusable E user, d_sessionName := session_fileName session,
     d_sessionTerminalId := login_terminal E d, d_globals := snd (newSessionId (d_globals d))\<rparr>"
  have "startAuth E user password session (a, d) = (True, ?a\<lparr>au_running := True\<rparr>,
      log_effect (Launch (LIBEXEC_INSTALL_DIR (de_build E) @ ''/plasmalogin-helper'') (auth_args (de_auth_server E) ?a)) ?d)"
    using False by (simp add: startAuth_def Let_def auth_start_def newSessionId_def session_auth_def login_terminal_def)
  then have r: "ok" "ad' = (?a\<lparr>au_running := True\<rparr>,
      log_effect (Launch (LIBEXEC_INSTALL_DIR (de_build E) @ ''/plasmalogin-helper'') (auth_args (de_auth_server E) ?a)) ?d)"
    using assms by simp_all
  have "same_view d ?d" "session_valid session" using False by (simp_all add: same_view_def)
  with r show ?thesis
    by (intro disjI2 conjI exI [of _ ?d] exI [of _ "gl_lastSessionId (d_globals d)"] exI [of _ "login_terminal E d"])
qed

lemma inv_startAuth:
  assumes "display_inv E0 n (a, d)" "same_programs E0 E"
    and allowed: "\<And>sid t. launch_allowed E0 (d_autologinSession d) (session_auth E user session sid t a)"
  shows "display_inv E0 n (snd (startAuth E user password session (a, d)))"
proof -
  obtain ok ad' where r: "startAuth E user password session (a, d) = (ok, ad')" by (meson surj_pair)
  from startAuth_cases [OF r] show ?thesis
  proof (elim disjE conjE exE)
    fix d' assume "ad' = (a, d')" "same_view d d'"
    with r inv_view [OF assms(1)] show ?thesis by simp
  next
    fix d' sid t
    let ?a = "session_auth E user session sid t a"
    assume v: "same_view d d'" and ad': "ad' = (?a\<lparr>au_running := True\<rparr>,
        log_effect (Launch (LIBEXEC_INSTALL_DIR (de_build E) @ ''/plasmalogin-helper'') (auth_args (de_auth_server E) ?a)) d')"
    have "display_inv E0 n (?a\<lparr>au_running := True\<rparr>, d')"
      using assms(1) by (rule display_inv_cong) (simp_all add: v)
    moreover have "effect_allowed E0 (d_autologinSession d')
        (Launch (LIBEXEC_INSTALL_DIR (de_build E) @ ''/plasmalogin-helper'') (auth_args (de_auth_server E) ?a))"
      using v assms(2) allowed by (auto simp: effect_allowed_def same_programs_def same_view_def)
    ultimately show ?thesis using r ad' by (simp add: inv_launch)
  qed
qed

lemma inv_emit:
  assumes "display_inv E n (a, d)"
  shows "display_inv E n (a, emit_loginFailed c d)" "display_inv E n (a, emit_loginSucceeded c d)"
  using inv_view [OF assms] assms by (simp_all add: emit_loginFailed_def emit_loginSucceeded_def split: option.split)

lemma inv_display_login:
  assumes "display_inv E0 n ad" "same_programs E0 E" "0 < n"
  shows "display_inv E0 n (display_login c E socket user password session ad)"
proof (cases ad)
  case (Pair a d)
  let ?d = "d\<lparr>d_socket := Some socket\<rparr>"
  have i: "display_inv E0 n (a, ?d)" using assms(1) Pair inv_view [of E0 n a d ?d] by simp
  have "\<not> au_autologin a" "\<not> au_greeter a" using i assms(3) by (auto simp: display_inv_def)
  then have "display_inv E0 n (snd (startAuth E user password session (a, ?d)))" if "user \<noteq> ''plasmalogin''"
    using that by (intro inv_startAuth [OF i assms(2)]) (simp add: launch_allowed_def)
  with Pair inv_emit(1) [OF i] show ?thesis by (simp add: display_login_def Let_def)
qed

lemma inv_readyRead:
  assumes "display_inv E0 n ad" "same_programs E0 E" "0 < n"
  shows "display_inv E0 n (display_readyRead c E socket bytes ad)"
proof -
  have "display_inv E0 n (fold (display_request c E socket) evs ad)" for evs
    using assms(1)
    by (induction evs arbitrary: ad) (simp_all add: display_request_def inv_display_login [OF _ assms(2,3)] split: greeter_event.split)
  then show ?thesis by (simp add: display_readyRead_def)
qed

section \<open>What a helper writes keeps it\<close>

text \<open>Two objects that differ in their request and their channel only.\<close>

definition same_but_answer :: "Auth \<Rightarrow> Auth \<Rightarrow> bool" where
  "same_but_answer a b \<longleftrightarrow> (\<forall>x y. a\<lparr>au_request := x, au_chan := y\<rparr> = b\<lparr>au_request := x, au_chan := y\<rparr>)"

lemma same_but_answer_trans [trans]: "same_but_answer a b \<Longrightarrow> same_but_answer b e \<Longrightarrow> same_but_answer a e"
  by (simp add: same_but_answer_def)

lemma same_but_answer_simps [simp]:
  "same_but_answer a a" "same_but_answer a (a\<lparr>au_chan := y\<rparr>)" "same_but_answer a (a\<lparr>au_request := x\<rparr>)"
  "same_but_answer a (auth_on_request f a)"
  by (simp_all add: same_but_answer_def auth_on_request_def)

lemma same_but_answer_sel:
  assumes "same_but_answer a b"
  shows "au_autologin b = au_autologin a" "au_greeter b = au_greeter a" "au_sessionPath b = au_sessionPath a"
proof -
  have "a\<lparr>au_request := au_request a, au_chan := au_chan a\<rparr> = b\<lparr>au_request := au_request a, au_chan := au_chan a\<rparr>"
    using assms unfolding same_but_answer_def by blast
  then have "a = b\<lparr>au_request := au_request a, au_chan := au_chan a\<rparr>" by simp
  then show "au_autologin b = au_autologin a" "au_greeter b = au_greeter a" "au_sessionPath b = au_sessionPath a"
    by (metis Auth.select_convs Auth.surjective Auth.update_convs(1) Auth.update_convs(5))+
qed

lemma same_but_answer_fold: "(\<And>r a. same_but_answer a (f r a)) \<Longrightarrow> same_but_answer a (fold f rs a)"
  by (induction rs arbitrary: a) (auto intro: same_but_answer_trans)

lemma requestFinished_frame: "same_but_answer a (auth_requestFinished c own d a)"
  unfolding auth_requestFinished_def Let_def
  by (rule same_but_answer_trans [OF _ same_but_answer_fold]) (auto simp: same_but_answer_def auth_on_request_def)

lemma auth_op_frame: "same_but_answer a (auth_op c own d r a)"
proof -
  have "same_but_answer a (a\<lparr>au_request := snd (ar_op r (au_request a))\<rparr>)" by simp
  from this same_but_answer_trans [OF this requestFinished_frame [of _ c own d]] show ?thesis
    by (simp add: auth_op_def case_prod_beta Let_def)
qed

text \<open>An answered request changes the request and the channel of the object, nothing else.\<close>

lemma auth_setRequest_frame: "same_but_answer a (auth_setRequest c own d q a)"
  unfolding auth_setRequest_def Let_def
  by (rule same_but_answer_trans [OF _ same_but_answer_fold]) (auto intro: auth_op_frame)

text \<open>
  The contract between an \<open>Auth\<close> and its owner that the messages of a helper need: a property of the two that
  does not read the request, the channel and the user name, and that every slot but the one for \<open>finished\<close> keeps.
\<close>

locale steady_owner =
  fixes own :: "'d auth_owner" and P :: "Auth \<times> 'd \<Rightarrow> bool"
  assumes keeps_frame: "P (a, d) \<Longrightarrow> same_but_answer a b \<Longrightarrow> P (b, d)"
    and keeps_user: "P (a, d) \<Longrightarrow> P (a\<lparr>au_user := u\<rparr>, d)"
    and keeps_signal: "P ad \<Longrightarrow> (\<And>k. s \<noteq> SigFinished k) \<Longrightarrow> P (own_signal own s ad)"
begin

lemma keeps_chan: "P (a, d) \<Longrightarrow> P (a\<lparr>au_chan := y\<rparr>, d)"
  by (erule keeps_frame) simp

lemma keeps_setUser: "P (a, d) \<Longrightarrow> P (auth_setUser u a, d)"
  by (simp add: auth_setUser_def keeps_user)

lemma keeps_setRequest: "P (a, d) \<Longrightarrow> P (auth_setRequest c own d q a, d)"
  by (erule keeps_frame) (rule auth_setRequest_frame)

lemma keeps_reply: "P (own_signal own s ad) \<Longrightarrow>
    P (case own_signal own s ad of (a1, d1) \<Rightarrow> (a1\<lparr>au_chan := ch_send (f a1) (au_chan a1)\<rparr>, d1))"
  by (cases "own_signal own s ad") (simp add: keeps_chan)

lemma keeps_message:
  assumes "P (a, d)"
  shows "P (snd (auth_message c own payload (m0, a, d)))"
  using keeps_signal [OF assms] keeps_setRequest [OF assms] keeps_reply [OF keeps_signal [OF assms]]
    keeps_reply [OF keeps_signal [OF keeps_setUser [OF assms]]]
  by (simp add: auth_message_def Let_def split: prod.splits Msg.split)

lemma keeps_messages: "P ad \<Longrightarrow> P (snd (fold (auth_message c own) payloads (m0, ad)))"
proof (induction payloads arbitrary: m0 ad)
  case (Cons p ps)
  obtain a d where ad: "ad = (a, d)" by fastforce
  from Cons.IH [OF keeps_message [of a d c p m0], of "fst (auth_message c own p (m0, a, d))"] Cons.prems
  show ?case by (simp add: ad)
qed simp

lemma keeps_data: "P ad \<Longrightarrow> P (auth_dataPending c own (apfst (helper_wrote ps) ad))"
  using keeps_messages [of "((fst ad)\<lparr>au_chan := (au_chan (fst ad))\<lparr>ch_in := []\<rparr>\<rparr>, snd ad)" c ps MSG_UNKNOWN]
    keeps_chan [of "fst ad" "snd ad"]
  by (cases ad) (simp add: auth_dataPending_def helper_wrote_def)

lemma keeps_error: "P ad \<Longrightarrow> P (auth_childError text own ad)"
  by (simp add: auth_childError_def keeps_signal)

end

section \<open>Every event keeps it\<close>

lemma inv_slot_finished:
  assumes "display_inv E n (a, d)"
  shows "display_inv E n (slotAuthenticationFinished c user success (a, d))"
proof (cases "au_autologin a \<and> \<not> success")
  case True
  then show ?thesis using inv_autologin_failure [OF assms] by (simp add: slotAuthenticationFinished_def)
next
  case False
  have "display_inv E n (a, case d_reuseSessionId d of None \<Rightarrow> d
      | Some s \<Rightarrow> log_effect (ActivateSession s) (log_effect (UnlockSession s) d))"
    using assms by (simp add: display_inv_log split: option.split)
  then have "display_inv E n (a, if success then emit_loginSucceeded c
      (case d_reuseSessionId d of None \<Rightarrow> d | Some s \<Rightarrow> log_effect (ActivateSession s) (log_effect (UnlockSession s) d))
    else emit_loginFailed c d)"
    using inv_emit assms by auto
  with False show ?thesis by (auto simp: slotAuthenticationFinished_def Let_def elim!: inv_view)
qed

lemma inv_display_signal:
  assumes "display_inv E n ad"
  shows "display_inv E n (display_signal c S s ad)"
proof (cases ad)
  case (Pair a d)
  with assms have i: "display_inv E n (a, d)" by simp
  then have v: "display_inv E n (a, on_client f k d)" for f k using inv_view by simp
  show ?thesis
    unfolding Pair using i v inv_slot_finished [OF i] inv_display_stop [OF i] inv_emit [OF v]
    by (simp add: display_signal_def slotSessionStarted_def slotHelperFinished_def slotAuthInfo_def slotAuthError_def
        display_inv_log Let_def split: auth_signal.split option.split)
qed

interpretation display_steady: steady_owner "display_owner c S" "display_inv E n" for c S E n
  by unfold_locales
    (auto simp: display_owner_def inv_display_signal same_but_answer_sel elim!: display_inv_cong)

text \<open>The greeter's object is told apart from the display's; as long as the greeter holds it, a session it reports
  may be marked as started.\<close>

definition greeter_inv :: "daemon_env \<Rightarrow> nat \<Rightarrow> Auth \<times> disp \<Rightarrow> bool" where
  "greeter_inv E n gad \<longleftrightarrow> display_inv E n (snd gad) \<and> g_auth (d_greeter (snd (snd gad))) \<noteq> None"

lemma greeter_invD: "greeter_inv E n gad \<Longrightarrow> display_inv E n (snd gad)"
  by (simp add: greeter_inv_def)

lemma greeter_inv_signal:
  assumes "greeter_inv E n gad" "\<And>k. s \<noteq> SigFinished k"
  shows "greeter_inv E n (greeter_signal S s gad)"
proof -
  obtain g a d where gad: "gad = (g, a, d)" by (metis prod_cases3)
  have "greeter_inv E n (g, a, greeter_onSessionStarted b d)" for b
    using assms(1) by (simp add: gad greeter_inv_def greeter_onSessionStarted_def display_inv_def queued_def)
  with assms(1) show ?thesis using assms(2) [of "case s of SigFinished k \<Rightarrow> k"]
    by (cases s) (simp_all add: gad greeter_signal_def)
qed

interpretation greeter_steady: steady_owner "greeter_owner S" "greeter_inv E n" for S E n
proof unfold_locales
  fix s gad assume "greeter_inv E n gad" "\<And>k. s \<noteq> SigFinished k"
  then show "greeter_inv E n (own_signal (greeter_owner S) s gad)" by (simp add: greeter_owner_def greeter_inv_signal)
qed (simp_all add: greeter_inv_def)

lemma inv_with_greeter_auth:
  assumes "display_inv E n ad" "\<And>g. greeter_inv E n (g, ad) \<Longrightarrow> display_inv E n (snd (f (g, ad)))"
  shows "display_inv E n (with_greeter_auth f ad)"
proof (cases "g_auth (d_greeter (snd ad))")
  case None
  with assms show ?thesis by (simp add: with_greeter_auth_def)
next
  case (Some g)
  obtain g' a d where r: "f (g, ad) = (g', a, d)" by (metis prod_cases3)
  have "greeter_inv E n (g, ad)" using assms(1) Some by (simp add: greeter_inv_def)
  from assms(2) [OF this] r have "display_inv E n (a, d)" by simp
  with Some r show ?thesis by (simp add: with_greeter_auth_def) (simp add: display_inv_def queued_def)
qed

lemma inv_with_steady:
  assumes "display_inv E n ad" "\<And>gad. greeter_inv E n gad \<Longrightarrow> greeter_inv E n (f gad)"
  shows "display_inv E n (with_greeter_auth f ad)"
  by (rule inv_with_greeter_auth [OF assms(1)]) (rule greeter_invD, rule assms(2))

lemma inv_greeter_finished:
  assumes "display_inv E n ad"
  shows "display_inv E n (greeter_onHelperFinished S status ad)"
  using assms by (cases ad) (simp add: greeter_onHelperFinished_def inv_greeter_exited inv_display_stop)

lemma inv_greeter_exit_event:
  assumes "greeter_inv E n gad"
  shows "display_inv E n (snd (auth_childExited code normal text (greeter_owner S) gad))"
proof -
  obtain g a d where gad: "gad = (g, a, d)" by (metis prod_cases3)
  with assms have "display_inv E n (a, d)" by (simp add: greeter_inv_def)
  with gad show ?thesis
    by (simp add: auth_childExited_def greeter_owner_def greeter_signal_def inv_greeter_finished Let_def)
qed

lemma inv_server_started:
  assumes "display_inv E0 n ad" "n < queued (snd ad)" "same_programs E0 E"
  shows "display_inv E0 (Suc n) (displayServerStarted E ad)"
proof (cases ad)
  case (Pair a d)
  let ?srv = "snd (ss_start (de_listen E) [] (de_random E) (d_socketServer d))"
  have z: "n = 0" "queued d = 1" "\<not> au_autologin a" "g_auth (d_greeter d) = None" "\<not> g_started (d_greeter d)"
    using assms(1,2) Pair by (auto simp: display_inv_def)
  have i: "display_inv E0 (Suc n) (a, d\<lparr>d_socketServer := srv\<rparr>)" for srv
    using assms(1) Pair z by (auto simp: display_inv_def queued_def)
  have "effect_allowed E0 (d_autologinSession d) (Launch (LIBEXEC_INSTALL_DIR (de_build E) @ ''/plasmalogin-helper'')
      (auth_args (de_auth_server E) x))"
    if "au_user x = ''plasmalogin''" "au_sessionPath x = de_greeter_exec E" "au_greeter x" "\<not> au_autologin x" for x
    using that assms(3) by (auto simp: effect_allowed_def launch_allowed_def same_programs_def)
  then have "display_inv E0 (Suc n) (snd (greeter_start E (a, d\<lparr>d_socketServer := srv, d_greeter := greeter_setSocket s (d_greeter d)\<rparr>)))"
    for srv s
    using i [of srv] z
    by (simp add: greeter_start_def Let_def newSessionId_def auth_new_def auth_setters auth_start_def greeter_setSocket_def
        log_effect_def) (simp add: display_inv_def queued_def)
  with i Pair show ?thesis
    by (simp add: displayServerStarted_def startSocketServerAndGreeter_def case_prod_beta Let_def)
qed

lemma inv_step:
  assumes "life_step c E0 l l'" "display_inv E0 (lf_delivered l) (lf_display l)"
  shows "display_inv E0 (lf_delivered l') (lf_display l')"
  using assms
proof (induction rule: life_step.induct)
  case (helper_connected l ch)
  then show ?case by (cases "lf_display l") (simp add: auth_setSocket_def display_steady.keeps_chan)
next
  case (helper_exited l code normal msg S)
  obtain a d where ad: "lf_display l = (a, d)" by fastforce
  with helper_exited show ?case
    by (simp add: auth_childExited_def display_owner_def inv_display_signal inv_running Let_def)
next
  case (greeter_connected l ch)
  then show ?case by (auto intro!: inv_with_greeter_auth simp: greeter_inv_def)
next
  case (greeter_data l S ps)
  then show ?case using inv_with_steady [OF greeter_data greeter_steady.keeps_data] by simp
next
  case (greeter_exited l code normal msg S)
  then show ?case by (simp add: inv_with_greeter_auth inv_greeter_exit_event)
next
  case (greeter_error l msg S)
  then show ?case using inv_with_steady [OF greeter_error greeter_steady.keeps_error] by simp
next
  case (greeter_timer t l S)
  then show ?case by (simp add: greeter_stop_def inv_greeter_stop_with inv_display_stop)
qed (simp_all add: inv_server_started inv_readyRead inv_display_stop display_steady.keeps_data display_steady.keeps_error)

lemma session_valid_invalid [simp]: "\<not> session_valid invalid_session"
  by (simp add: session_valid_def invalid_session_def)

lemma inv_begin:
  assumes "same_daemon E0 E" "same_daemon E0 E'"
  shows "display_inv E0 0 (snd (display_start E' (display_new E soft_reboots g)))"
proof -
  obtain a d where ad: "display_new E soft_reboots g = (a, d)" by fastforce
  have new: "d_log d = []" "\<not> au_autologin a" "\<not> au_greeter a" "au_sessionPath a = []" "g_auth (d_greeter d) = None"
    "\<not> g_started (d_greeter d)" "session_valid (d_autologinSession d) \<longrightarrow> cfg_autologinUser (de_config E0) \<noteq> []" "\<not> d_started d"
    using ad assms(1)
    by (auto simp: display_new_def auth_new_def auth_setVerbose_def same_daemon_def same_programs_def Let_def split: prod.splits if_splits)
  let ?d = "d\<lparr>d_started := True\<rparr>"
  have i: "display_inv E0 0 (a\<lparr>au_autologin := b\<rparr>, ?d)" for b
    using new by (simp add: display_inv_def queued_def)
  show ?thesis
  proof (cases "session_valid (d_autologinSession d)")
    case False
    have "display_inv E0 0 (a, ?d)" by (rule display_inv_cong [OF i [of False]]) (simp_all add: new)
    with new False show ?thesis by (simp add: ad display_start_def Let_def inv_queue queued_def)
  next
    case True
    let ?a = "a\<lparr>au_autologin := True\<rparr>"
    have a: "auth_setAutologin True a = ?a" using new(2) by (simp add: auth_setAutologin_def)
    obtain ok ad2 where r: "startAuth E' (cfg_autologinUser (de_config E')) [] (d_autologinSession d) (?a, ?d) = (ok, ad2)"
      by (meson surj_pair)
    have c: "cfg_autologinUser (de_config E') = cfg_autologinUser (de_config E0)" using assms(2) by (simp add: same_daemon_def)
    have "display_inv E0 0 (snd (startAuth E' (cfg_autologinUser (de_config E')) [] (d_autologinSession d) (?a, ?d)))"
      using new True by (intro inv_startAuth [OF i same_daemonD [OF assms(2)]]) (simp add: launch_allowed_def c)
    moreover have "\<exists>d2. ad2 = (?a, d2)" if "\<not> ok" using startAuth_cases [OF r] that by blast
    ultimately show ?thesis using new True r inv_autologin_failure [of E0 0 ?a]
      by (auto simp: ad a display_start_def Let_def)
  qed
qed

lemma life_invariant: "life_reachable c E0 l \<Longrightarrow> display_inv E0 (lf_delivered l) (lf_display l)"
proof (induction rule: life_reachable.induct)
  case (begun E E' soft_reboots g)
  then show ?case by (simp add: life_begin_def inv_begin)
next
  case (next_event l l')
  then show ?case using inv_step by blast
next
  case (others l g)
  then show ?case by (cases "lf_display l") (auto elim!: inv_view)
qed

section \<open>What no order of events can bring about\<close>

text \<open>Nobody gets in without a password but the one the administrator chose.  Whatever order the events of a
  display come in, and whatever its greeter and the helpers write, every helper it starts is either its greeter's (of the user
  \<open>plasmalogin\<close>, with the greeter's command, without the automatic login), or one with the automatic login for the configured user, who is set,
  with the command of the configured session or none, or one that asks for a password, and that is never \<open>plasmalogin\<close>'s.\<close>

theorem passwordless_only_configured:
  assumes "life_reachable c E0 l" "Launch program args \<in> set (d_log (snd (lf_display l)))"
  shows "program = LIBEXEC_INSTALL_DIR (de_build E0) @ ''/plasmalogin-helper''
    \<and> (\<exists>x. args = auth_args (de_auth_server E0) x
      \<and> (if au_greeter x
         then au_user x = ''plasmalogin'' \<and> au_sessionPath x = de_greeter_exec E0 \<and> \<not> au_autologin x
         else if au_autologin x
         then au_user x = cfg_autologinUser (de_config E0) \<and> au_user x \<noteq> []
           \<and> session_valid (d_autologinSession (snd (lf_display l)))
           \<and> au_sessionPath x \<in> {[], session_exec (d_autologinSession (snd (lf_display l)))}
         else au_user x \<noteq> ''plasmalogin''))"
proof -
  from life_invariant [OF assms(1)]
  have "effect_allowed E0 (d_autologinSession (snd (lf_display l))) (Launch program args)"
    using assms(2) by (simp add: display_inv_def case_prod_beta list_all_iff)
  then obtain y where y: "program = LIBEXEC_INSTALL_DIR (de_build E0) @ ''/plasmalogin-helper''"
      "args = auth_args (de_auth_server E0) y" "launch_allowed E0 (d_autologinSession (snd (lf_display l))) y"
    by (auto simp: effect_allowed_def)
  then show ?thesis by (intro conjI exI [of _ y]) (auto simp: launch_allowed_def split: if_splits)
qed

text \<open>Property C17: the greeter is started once.  In every state a display can reach, \<open>displayServerStarted\<close> has been
  queued at most once and run no more often than that; as long as it is still to be run there is no greeter, so that no
  running greeter is replaced; and a greeter that counts as started has the object its \<open>stop\<close> uses.\<close>

theorem greeter_started_once:
  assumes "life_reachable c E0 l"
  shows "count_list (d_log (snd (lf_display l))) QueueServerStarted \<le> 1
    \<and> lf_delivered l \<le> count_list (d_log (snd (lf_display l))) QueueServerStarted
    \<and> (lf_delivered l = 0 \<longrightarrow> g_auth (d_greeter (snd (lf_display l))) = None)
    \<and> (g_started (d_greeter (snd (lf_display l))) \<longrightarrow> g_auth (d_greeter (snd (lf_display l))) \<noteq> None)"
  using life_invariant [OF assms] by (auto simp: display_inv_def queued_def case_prod_beta)

text \<open>A life: the display is started without an automatic login, and the event loop starts its greeter.\<close>

definition sample_life :: life where
  "sample_life = life_begin (sample_denv []) (sample_denv []) None sample_globals"

definition sample_life_greeter :: life where
  "sample_life_greeter = \<lparr>lf_delivered = 1, lf_display = displayServerStarted (sample_denv []) (lf_display sample_life)\<rparr>"

lemma sample_life_sel:
  "d_log (snd (lf_display sample_life)) = [QueueServerStarted]" "lf_delivered sample_life = 0"
  "g_started (d_greeter (snd (lf_display sample_life))) = False"
proof -
  obtain a d where ad: "sample_disp = (a, d)" by fastforce
  have "d_autologinSession (snd sample_disp) = invalid_session"
    by (simp add: sample_disp_def display_new_def sample_denv_def Let_def split: prod.splits)
  with sample_disp_sel have d: "d_autologinSession d = invalid_session" "\<not> d_started d" "d_log d = []" "\<not> g_started (d_greeter d)"
    unfolding ad by simp_all
  then have "snd (display_start (sample_denv []) (a, d)) = (a, log_effect QueueServerStarted (d\<lparr>d_started := True\<rparr>))"
    by (simp add: display_start_def Let_def)
  with d show "d_log (snd (lf_display sample_life)) = [QueueServerStarted]" "lf_delivered sample_life = 0"
    "g_started (d_greeter (snd (lf_display sample_life))) = False"
    by (simp_all add: sample_life_def life_begin_def sample_disp_def [symmetric] ad)
qed

lemma sample_life_reachable: "life_reachable c (sample_denv []) sample_life_greeter"
proof -
  have s: "same_daemon (sample_denv []) (sample_denv [])" by (simp add: same_daemon_def same_programs_def)
  have "life_reachable c (sample_denv []) sample_life" unfolding sample_life_def by (rule begun [OF s s])
  moreover from server_started [of sample_life, OF _ same_daemonD [OF s], of c]
  have "life_step c (sample_denv []) sample_life sample_life_greeter"
    by (simp add: sample_life_sel queued_def sample_life_greeter_def)
  ultimately show ?thesis by (rule next_event)
qed

lemma sample_life_launch: "\<exists>program args. Launch program args \<in> set (d_log (snd (lf_display sample_life_greeter)))"
  using sample_life_sel
  by (cases "lf_display sample_life")
    (auto simp: sample_life_greeter_def displayServerStarted_def startSocketServerAndGreeter_def greeter_start_def
      auth_start_def greeter_setSocket_def log_effect_def sample_denv_def Let_def split: prod.splits)

lemma passwordless_only_configured_witness:
  "\<exists>x. Launch ''/usr/libexec/plasmalogin-helper'' (auth_args ''auth'' x) \<in> set (d_log (snd (lf_display sample_life_greeter)))
     \<and> (\<not> au_greeter x \<longrightarrow> au_user x \<noteq> ''plasmalogin'')"
proof -
  obtain program args where l: "Launch program args \<in> set (d_log (snd (lf_display sample_life_greeter)))"
    using sample_life_launch by blast
  have "de_auth_server (sample_denv []) = ''auth''" "LIBEXEC_INSTALL_DIR (de_build (sample_denv [])) = ''/usr/libexec''"
    "cfg_autologinUser (de_config (sample_denv [])) = []"
    by (simp_all add: sample_denv_def)
  with passwordless_only_configured [OF sample_life_reachable l] l show ?thesis by (auto split: if_splits)
qed

lemma greeter_started_once_witness:
  "count_list (d_log (snd (lf_display sample_life_greeter))) QueueServerStarted \<le> 1"
  using greeter_started_once [OF sample_life_reachable [of sd_qds]] by simp

end
