(* ===== verification/Pam_Data.thy ===== *)
theory Pam_Data
  imports Wire
begin

text \<open>
  The prompt bookkeeping of the PAM conversation: class \<open>PamData\<close> of
  \<open>src/helper/backend/PamBackend.cpp\<close>.  A PAM message is its style and its text, already
  converted by \<open>fromLocal8Bit\<close>.
\<close>

record pam_message =
  msg_style :: int
  msg_text :: QString

definition PAM_PROMPT_ECHO_OFF :: int where "PAM_PROMPT_ECHO_OFF = 1"
definition PAM_PROMPT_ECHO_ON :: int where "PAM_PROMPT_ECHO_ON = 2"
definition PAM_ERROR_MSG :: int where "PAM_ERROR_MSG = 3"
definition PAM_TEXT_INFO :: int where "PAM_TEXT_INFO = 4"

lemmas pam_style_defs = PAM_PROMPT_ECHO_OFF_def PAM_PROMPT_ECHO_ON_def PAM_ERROR_MSG_def PAM_TEXT_INFO_def

section \<open>The patterns of the code\<close>

text \<open>
  The regular expressions are alternatives of fixed words between two \<open>\b\<close> anchors, matched
  without regard to case; \<open>\b\<close> holds where exactly one of the neighbouring characters is a
  letter, a digit or an underscore.
\<close>

definition is_word_char :: "char \<Rightarrow> bool" where
  "is_word_char ch = (let n = (of_char ch :: nat)
     in 48 \<le> n \<and> n \<le> 57 \<or> 65 \<le> n \<and> n \<le> 90 \<or> 97 \<le> n \<and> n \<le> 122 \<or> n = 95)"

definition word_at :: "string \<Rightarrow> nat \<Rightarrow> bool" where
  "word_at s i \<longleftrightarrow> i < length s \<and> is_word_char (s ! i)"

definition boundary :: "string \<Rightarrow> nat \<Rightarrow> bool" where
  "boundary s i \<longleftrightarrow> (0 < i \<and> word_at s (i - 1)) \<noteq> word_at s i"

definition has_word :: "string list \<Rightarrow> string \<Rightarrow> bool" where
  "has_word alts s =
     list_ex (\<lambda>i. list_ex (\<lambda>w. starts_with w (map lower (drop i s)) \<and> boundary s i \<and> boundary s (i + length w)) alts)
       [0..<Suc (length s)]"

text \<open>\<open>^Changing password for [^ ]+$\<close>; \<open>$\<close> also matches before a final line feed.\<close>

definition changing_password :: "string \<Rightarrow> bool" where
  "changing_password s =
     (let p = ''Changing password for ''; r = drop (length p) s;
          name = (if r \<noteq> [] \<and> last r = CHR 0x0A \<and> length r \<ge> 2 then butlast r else r)
      in starts_with p s \<and> r \<noteq> [] \<and> CHR '' '' \<notin> set name)"

section \<open>The state and its operations\<close>

definition loginRequest :: Request where
  "loginRequest = \<lparr>r_prompts = [mk_prompt LOGIN_USER ''login:'' False,
     mk_prompt LOGIN_PASSWORD ''Password: '' True]\<rparr>"

definition changePassRequest :: Request where
  "changePassRequest = \<lparr>r_prompts = [mk_prompt CHANGE_CURRENT ''(current) UNIX password: '' True,
     mk_prompt CHANGE_NEW ''New password: '' True,
     mk_prompt CHANGE_REPEAT ''Retype new password: '' True]\<rparr>"

definition changePassNoOldRequest :: Request where
  "changePassNoOldRequest = \<lparr>r_prompts = [mk_prompt CHANGE_NEW ''New password: '' True,
     mk_prompt CHANGE_REPEAT ''Retype new password: '' True]\<rparr>"

definition invalidRequest :: Request where
  "invalidRequest = \<lparr>r_prompts = []\<rparr>"

definition invalidPrompt :: Prompt where
  "invalidPrompt = empty_prompt"

record PamData =
  m_sent :: bool
  m_currentRequest :: Request

definition init_pam_data :: PamData where
  "init_pam_data = \<lparr>m_sent = False, m_currentRequest = empty_request\<rparr>"

abbreviation pd_prompts :: "PamData \<Rightarrow> Prompt list" where
  "pd_prompts d \<equiv> r_prompts (m_currentRequest d)"

definition detectPrompt :: "pam_message \<Rightarrow> prompt_type" where
  "detectPrompt msg =
     (if msg_style msg = PAM_PROMPT_ECHO_OFF then
        if has_word [''password''] (msg_text msg) then
          if has_word [''reenter'', ''re-enter'', ''retype'', ''re-type'', ''again'', ''confirm'', ''repeat''] (msg_text msg)
          then CHANGE_REPEAT
          else if has_word [''new''] (msg_text msg) then CHANGE_NEW
          else if has_word [''old'', ''current''] (msg_text msg) then CHANGE_CURRENT
          else LOGIN_PASSWORD
        else UNKNOWN
      else LOGIN_USER)"

text \<open>The \<open>const\<close> overload.\<close>

definition findPrompt_const :: "pam_message \<Rightarrow> PamData \<Rightarrow> Prompt" where
  "findPrompt_const msg d =
     (case find (\<lambda>p. detectPrompt msg = p_type p \<and> p_message p = msg_text msg) (pd_prompts d) of
        Some p \<Rightarrow> p | None \<Rightarrow> invalidPrompt)"

text \<open>
  The overload that returns a reference into the list: the position of the prompt, or
  \<open>None\<close> for the static \<open>invalidPrompt\<close>.
\<close>

fun find_index :: "('a \<Rightarrow> bool) \<Rightarrow> 'a list \<Rightarrow> nat option" where
  "find_index P [] = None"
| "find_index P (x # xs) = (if P x then Some 0 else map_option Suc (find_index P xs))"

definition prompt_matches :: "pam_message \<Rightarrow> Prompt \<Rightarrow> bool" where
  "prompt_matches msg p \<longleftrightarrow>
     detectPrompt msg = UNKNOWN \<and> msg_text msg = p_message p \<or> detectPrompt msg = p_type p"

definition findPrompt :: "pam_message \<Rightarrow> PamData \<Rightarrow> nat option" where
  "findPrompt msg d = find_index (prompt_matches msg) (pd_prompts d)"

definition prompt_ref :: "PamData \<Rightarrow> nat option \<Rightarrow> Prompt" where
  "prompt_ref d r = (case r of None \<Rightarrow> invalidPrompt | Some i \<Rightarrow> pd_prompts d ! i)"

definition set_prompts :: "Prompt list \<Rightarrow> PamData \<Rightarrow> PamData" where
  "set_prompts ps d = d\<lparr>m_currentRequest := \<lparr>r_prompts = ps\<rparr>\<rparr>"

definition insertPrompt :: "pam_message \<Rightarrow> bool \<Rightarrow> PamData \<Rightarrow> bool \<times> PamData" where
  "insertPrompt msg predict d =
     (let r = findPrompt msg d; p = prompt_ref d r in
      if prompt_valid p then
        (if m_sent d then (False, d)
         else (True, case r of None \<Rightarrow> d
           | Some i \<Rightarrow> set_prompts ((pd_prompts d)[i := p\<lparr>p_message := msg_text msg\<rparr>]) d))
      else
        let d1 = (if pd_prompts d \<noteq> [] \<and> m_sent d
                  then d\<lparr>m_currentRequest := request_clear (m_currentRequest d), m_sent := False\<rparr> else d);
            t = detectPrompt msg
        in if predict \<and> t = LOGIN_USER then (True, d1\<lparr>m_currentRequest := loginRequest\<rparr>)
           else if predict \<and> t = CHANGE_CURRENT then (True, d1\<lparr>m_currentRequest := changePassRequest\<rparr>)
           else if predict \<and> t = CHANGE_NEW then (True, d1\<lparr>m_currentRequest := changePassNoOldRequest\<rparr>)
           else (True, set_prompts (pd_prompts d1
                  @ [mk_prompt t (msg_text msg) (msg_style msg = PAM_PROMPT_ECHO_OFF)]) d1))"

definition handleInfo :: "pam_message \<Rightarrow> bool \<Rightarrow> PamData \<Rightarrow> AuthInfo \<times> PamData" where
  "handleInfo msg predict d =
     (if changing_password (msg_text msg)
      then (INFO_PASS_CHANGE_REQUIRED, if predict then d\<lparr>m_currentRequest := changePassRequest\<rparr> else d)
      else (INFO_UNKNOWN, d))"

text \<open>\<open>removeOne\<close> removes the first prompt equal to the one found.\<close>

definition getResponse :: "pam_message \<Rightarrow> PamData \<Rightarrow> QByteArray \<times> PamData" where
  "getResponse msg d =
     (let p = prompt_ref d (findPrompt msg d);
          d1 = set_prompts (remove1 p (pd_prompts d)) d
      in (p_response p, if pd_prompts d1 = [] then d1\<lparr>m_sent := False\<rparr> else d1))"

definition getRequest :: "PamData \<Rightarrow> Request" where
  "getRequest d = (if \<not> m_sent d then m_currentRequest d else invalidRequest)"

definition same_question :: "Prompt \<Rightarrow> Prompt \<Rightarrow> bool" where
  "same_question p q \<longleftrightarrow> p_type p = p_type q \<and> p_message p = p_message q \<and> p_hidden p = p_hidden q"

definition completeRequest :: "Request \<Rightarrow> PamData \<Rightarrow> PamData" where
  "completeRequest request d =
     (if length (r_prompts request) \<noteq> length (pd_prompts d) then d
      else if \<not> list_all2 same_question (r_prompts request) (pd_prompts d) then d
      else d\<lparr>m_currentRequest := request, m_sent := True\<rparr>)"


section \<open>Lemmas\<close>

lemma detectPrompt_not_NONE [simp]: "detectPrompt msg \<noteq> NONE"
  by (simp add: detectPrompt_def prompt_type_defs)

lemma prompt_valid_mk [simp]: "t \<noteq> NONE \<Longrightarrow> prompt_valid (mk_prompt t m h)"
  by (simp add: prompt_valid_def mk_prompt_def)

lemma prompt_valid_type: "p_type p \<noteq> NONE \<Longrightarrow> prompt_valid p"
  by (simp add: prompt_valid_def)

lemma invalidPrompt_not_valid [simp]: "\<not> prompt_valid invalidPrompt"
  by (simp add: prompt_valid_def invalidPrompt_def empty_prompt_def)

lemma mk_prompt_sel [simp]:
  "p_type (mk_prompt t m h) = t" "p_message (mk_prompt t m h) = m"
  "p_hidden (mk_prompt t m h) = h" "p_response (mk_prompt t m h) = []"
  by (simp_all add: mk_prompt_def)

lemma set_prompts_sel [simp]: "pd_prompts (set_prompts ps d) = ps" "m_sent (set_prompts ps d) = m_sent d"
  by (simp_all add: set_prompts_def)

lemma prompt_ref_simps [simp]: "prompt_ref d None = invalidPrompt" "prompt_ref d (Some i) = pd_prompts d ! i"
  by (simp_all add: prompt_ref_def)

lemma find_index_Some: "find_index P xs = Some i \<Longrightarrow> i < length xs \<and> P (xs ! i)"
  by (induction xs arbitrary: i) (auto split: if_splits simp: less_Suc_eq_0_disj)

lemma find_index_None: "find_index P xs = None \<longleftrightarrow> (\<forall>x \<in> set xs. \<not> P x)"
  by (induction xs) auto

lemma findPrompt_valid:
  "findPrompt msg d = Some i \<Longrightarrow> \<forall>p \<in> set (pd_prompts d). p_type p \<noteq> NONE \<Longrightarrow>
     i < length (pd_prompts d) \<and> prompt_valid (pd_prompts d ! i)"
  using find_index_Some [of "prompt_matches msg" "pd_prompts d" i]
  by (auto simp: findPrompt_def prompt_valid_type)

lemma same_question_refl [simp]: "same_question p p"
  by (simp add: same_question_def)

lemma request_types [simp]:
  "\<forall>p \<in> set (r_prompts loginRequest). p_type p \<noteq> NONE"
  "\<forall>p \<in> set (r_prompts changePassRequest). p_type p \<noteq> NONE"
  "\<forall>p \<in> set (r_prompts changePassNoOldRequest). p_type p \<noteq> NONE"
  by (simp_all add: loginRequest_def changePassRequest_def changePassNoOldRequest_def prompt_type_defs)

lemma requests_nonempty [simp]:
  "r_prompts loginRequest \<noteq> []" "r_prompts changePassRequest \<noteq> []" "r_prompts changePassNoOldRequest \<noteq> []"
  by (simp_all add: loginRequest_def changePassRequest_def changePassNoOldRequest_def)

section \<open>The states a conversation can reach\<close>

text \<open>
  The operations PamBackend applies, in any order and with any messages.  \<open>converse\<close> hands
  an answer to \<open>completeRequest\<close> only when it is a valid request.
\<close>

inductive pd_step :: "PamData \<Rightarrow> PamData \<Rightarrow> bool" where
  insert: "pd_step d (snd (insertPrompt msg predict d))"
| info: "pd_step d (snd (handleInfo msg predict d))"
| response: "pd_step d (snd (getResponse msg d))"
| complete: "request_valid r \<Longrightarrow> pd_step d (completeRequest r d)"

inductive pd_reachable :: "PamData \<Rightarrow> bool" where
  init: "pd_reachable init_pam_data"
| step: "pd_reachable d \<Longrightarrow> pd_step d d' \<Longrightarrow> pd_reachable d'"

inductive_cases pd_stepE: "pd_step d d'"

definition pd_ok :: "PamData \<Rightarrow> bool" where
  "pd_ok d \<longleftrightarrow> (m_sent d \<longrightarrow> pd_prompts d \<noteq> []) \<and> (\<forall>p \<in> set (pd_prompts d). p_type p \<noteq> NONE)"

lemma pd_ok_init: "pd_ok init_pam_data"
  by (simp add: pd_ok_def init_pam_data_def empty_request_def)

lemma set_list_update_cases: "x \<in> set (xs[i := y]) \<Longrightarrow> x = y \<or> x \<in> set xs"
  using set_update_subset_insert [of xs i y] by auto

lemma pd_ok_insert: 
  assumes "pd_ok d"
  shows "pd_ok (snd (insertPrompt msg predict d))"
proof (cases "findPrompt msg d")
  case None
  with assms show ?thesis by (auto simp: insertPrompt_def pd_ok_def Let_def request_clear_def)
next
  case (Some i)
  with assms findPrompt_valid [OF Some] have i: "i < length (pd_prompts d)" "prompt_valid (pd_prompts d ! i)"
    by (auto simp: pd_ok_def)
  then have "p_type (pd_prompts d ! i) \<noteq> NONE" using assms by (simp add: pd_ok_def)
  with Some i assms show ?thesis
    by (auto simp: insertPrompt_def pd_ok_def Let_def dest: set_list_update_cases)
qed

lemma pd_ok_info: "pd_ok d \<Longrightarrow> pd_ok (snd (handleInfo msg predict d))"
  by (auto simp: handleInfo_def pd_ok_def)

lemma pd_ok_response: "pd_ok d \<Longrightarrow> pd_ok (snd (getResponse msg d))"
  by (auto simp: getResponse_def pd_ok_def Let_def dest: notin_set_remove1 [rotated] set_mp [OF set_remove1_subset])

lemma completeRequest_same:
  "list_all2 same_question (pd_prompts (completeRequest r d)) (pd_prompts d)"
  by (simp add: completeRequest_def list_all2_refl)

lemma same_question_types:
  "list_all2 same_question ps qs \<Longrightarrow> (\<forall>p \<in> set ps. p_type p \<noteq> NONE) \<longleftrightarrow> (\<forall>p \<in> set qs. p_type p \<noteq> NONE)"
  by (induction rule: list_all2_induct) (auto simp: same_question_def)

lemma pd_ok_complete: "pd_ok d \<Longrightarrow> request_valid r \<Longrightarrow> pd_ok (completeRequest r d)"
  using same_question_types [OF completeRequest_same [of r d]]
  by (auto simp: completeRequest_def pd_ok_def request_valid_def)

lemma pd_ok_step: "pd_step d d' \<Longrightarrow> pd_ok d \<Longrightarrow> pd_ok d'"
  by (auto elim!: pd_stepE simp: pd_ok_insert pd_ok_info pd_ok_response pd_ok_complete)



section \<open>One question and its answer\<close>

lemma findPrompt_single:
  "pd_prompts d = [p] \<Longrightarrow> p_type p = detectPrompt msg \<Longrightarrow> findPrompt msg d = Some 0"
  by (simp add: findPrompt_def prompt_matches_def)

lemma insert_fresh:
  "pd_prompts d = [] \<Longrightarrow> \<not> m_sent d \<Longrightarrow> insertPrompt msg False d
     = (True, set_prompts [mk_prompt (detectPrompt msg) (msg_text msg) (msg_style msg = PAM_PROMPT_ECHO_OFF)] d)"
  by (simp add: insertPrompt_def findPrompt_def Let_def)

lemma response_single:
  "pd_prompts d = [p] \<Longrightarrow> p_type p = detectPrompt msg \<Longrightarrow>
     getResponse msg d = (p_response p, d\<lparr>m_currentRequest := \<lparr>r_prompts = []\<rparr>, m_sent := False\<rparr>)"
  by (simp add: getResponse_def findPrompt_single set_prompts_def)

text \<open>The answer of the daemon to a request: the same questions with responses filled in.\<close>

definition answer_request :: "QByteArray list \<Rightarrow> Request \<Rightarrow> Request" where
  "answer_request rs q = \<lparr>r_prompts = map2 (\<lambda>p r. p\<lparr>p_response := r\<rparr>) (r_prompts q) rs\<rparr>"

lemma complete_answer:
  "length rs = length (pd_prompts d) \<Longrightarrow>
     completeRequest (answer_request rs (m_currentRequest d)) d
       = d\<lparr>m_currentRequest := answer_request rs (m_currentRequest d), m_sent := True\<rparr>"
  by (simp add: completeRequest_def answer_request_def list_all2_conv_all_nth same_question_def)

lemma single_question_steps:
  fixes msg r d
  defines "q \<equiv> \<lparr>r_prompts = [mk_prompt (detectPrompt msg) (msg_text msg) (msg_style msg = PAM_PROMPT_ECHO_OFF)]\<rparr>"
  assumes "pd_prompts d = []" "\<not> m_sent d"
  shows "insertPrompt msg False d = (True, set_prompts (r_prompts q) d)"
    and "getRequest (set_prompts (r_prompts q) d) = q"
    and "m_sent (completeRequest (answer_request [r] q) (set_prompts (r_prompts q) d))"
    and "getResponse msg (completeRequest (answer_request [r] q) (set_prompts (r_prompts q) d)) = (r, d)"
proof -
  have eq: "d\<lparr>m_currentRequest := \<lparr>r_prompts = []\<rparr>, m_sent := False\<rparr> = d"
    using assms(2,3) by (cases d; cases "m_currentRequest d") auto
  show "insertPrompt msg False d = (True, set_prompts (r_prompts q) d)"
    using insert_fresh [OF assms(2,3), of msg] by (simp add: q_def)
  show "getRequest (set_prompts (r_prompts q) d) = q"
    using assms(3) by (simp add: getRequest_def set_prompts_def)
  have "completeRequest (answer_request [r] (m_currentRequest (set_prompts (r_prompts q) d))) (set_prompts (r_prompts q) d)
      = (set_prompts (r_prompts q) d)\<lparr>m_currentRequest := answer_request [r] q, m_sent := True\<rparr>"
    by (subst complete_answer) (simp_all add: q_def set_prompts_def)
  then have c: "completeRequest (answer_request [r] q) (set_prompts (r_prompts q) d)
      = d\<lparr>m_currentRequest := answer_request [r] q, m_sent := True\<rparr>"
    by (simp add: set_prompts_def)
  then show "m_sent (completeRequest (answer_request [r] q) (set_prompts (r_prompts q) d))" by simp
  show "getResponse msg (completeRequest (answer_request [r] q) (set_prompts (r_prompts q) d)) = (r, d)"
    unfolding c using eq by (simp add: answer_request_def q_def response_single)
qed

text \<open>A question the prediction does not cover makes a round trip: it is inserted into
  an idle conversation, sent as the request, and after the daemon's answer \<open>getResponse\<close> for the
  same message gives exactly the answer, and leaves the conversation idle again.\<close>

theorem single_question_roundtrip:
  assumes "pd_prompts d = []" "\<not> m_sent d"
  shows "let (new, d1) = insertPrompt msg False d;
             d2 = completeRequest (answer_request [r] (getRequest d1)) d1
         in new \<and> length (r_prompts (getRequest d1)) = 1 \<and> m_sent d2 \<and> getResponse msg d2 = (r, d)"
  using single_question_steps(1,2) [OF assms, where msg = msg]
    single_question_steps(3,4) [OF assms, where msg = msg and r = r] by simp

lemma single_question_roundtrip_witness:
  "let d = init_pam_data; msg = \<lparr>msg_style = PAM_PROMPT_ECHO_OFF, msg_text = ''Password: ''\<rparr>;
       (new, d1) = insertPrompt msg False d;
       d2 = completeRequest (answer_request [''secret''] (getRequest d1)) d1
   in new \<and> length (r_prompts (getRequest d1)) = 1 \<and> m_sent d2 \<and> getResponse msg d2 = (''secret'', d)"
  unfolding Let_def [of init_pam_data] Let_def [of "\<lparr>msg_style = PAM_PROMPT_ECHO_OFF, msg_text = _\<rparr>"]
  by (rule single_question_roundtrip) (simp_all add: init_pam_data_def empty_request_def)

text \<open>\<open>completeRequest\<close> takes over an answer only when it asks the same questions in
  the same order; whatever the daemon sends, the questions of the current request (type, message and
  whether it is hidden) stay as they were.\<close>

theorem complete_keeps_questions:
  "list_all2 same_question (pd_prompts (completeRequest r d)) (pd_prompts d)
   \<and> (completeRequest r d = d
      \<or> m_currentRequest (completeRequest r d) = r \<and> m_sent (completeRequest r d))"
  using completeRequest_same [of r d] by (simp add: completeRequest_def)

text \<open>With prediction, a login needs a single round trip to the greeter.  Once the
  question for the user name has produced the login request and the daemon has answered it, the
  password question that follows is not asked again (\<open>insertPrompt\<close> reports nothing new), both
  answers are delivered, and the conversation is idle afterwards.\<close>

theorem predicted_login_single_request:
  assumes "detectPrompt um = LOGIN_USER" "detectPrompt pm = LOGIN_PASSWORD"
  shows "let (new, d1) = insertPrompt um True init_pam_data;
             d2 = completeRequest (answer_request [user, password] (getRequest d1)) d1;
             (u, d3) = getResponse um d2;
             (again, d4) = insertPrompt pm predict d3;
             (pw, d5) = getResponse pm d4
         in new \<and> u = user \<and> \<not> again \<and> pw = password \<and> d5 = init_pam_data"
proof -
  let ?q2 = "mk_prompt LOGIN_PASSWORD ''Password: '' True\<lparr>p_response := password\<rparr>"
  let ?d1 = "init_pam_data\<lparr>m_currentRequest := loginRequest\<rparr>"
  let ?d2 = "?d1\<lparr>m_currentRequest := answer_request [user, password] loginRequest, m_sent := True\<rparr>"
  let ?d3 = "set_prompts [?q2] ?d2"
  have s1: "insertPrompt um True init_pam_data = (True, ?d1)"
    using assms by (simp add: insertPrompt_def findPrompt_def init_pam_data_def empty_request_def Let_def)
  have s2: "completeRequest (answer_request [user, password] (getRequest ?d1)) ?d1 = ?d2"
    using complete_answer [of "[user, password]" ?d1]
    by (simp add: getRequest_def init_pam_data_def loginRequest_def)
  have s3: "getResponse um ?d2 = (user, ?d3)"
    using assms by (simp add: getResponse_def findPrompt_def prompt_matches_def answer_request_def
        loginRequest_def set_prompts_def)
  have s4: "insertPrompt pm predict ?d3 = (False, ?d3)"
    using assms by (simp add: insertPrompt_def findPrompt_single prompt_valid_type prompt_type_defs Let_def)
  have s5: "getResponse pm ?d3 = (password, init_pam_data)"
    using assms by (simp add: response_single set_prompts_def init_pam_data_def empty_request_def)
  show ?thesis by (simp only: Let_def s1 s2 s3 s4 s5 prod.case) simp
qed

lemma predicted_login_single_request_witness:
  "let um = \<lparr>msg_style = PAM_PROMPT_ECHO_ON, msg_text = ''login: ''\<rparr>;
       pm = \<lparr>msg_style = PAM_PROMPT_ECHO_OFF, msg_text = ''Password: ''\<rparr>
   in let (new, d1) = insertPrompt um True init_pam_data;
          d2 = completeRequest (answer_request [''joe'', ''secret''] (getRequest d1)) d1;
          (u, d3) = getResponse um d2;
          (again, d4) = insertPrompt pm True d3;
          (pw, d5) = getResponse pm d4
      in new \<and> u = ''joe'' \<and> \<not> again \<and> pw = ''secret'' \<and> d5 = init_pam_data"
  unfolding Let_def [of "\<lparr>msg_style = _, msg_text = _\<rparr>"]
proof (rule predicted_login_single_request)
  show "detectPrompt \<lparr>msg_style = PAM_PROMPT_ECHO_ON, msg_text = ''login: ''\<rparr> = LOGIN_USER" by code_simp
  show "detectPrompt \<lparr>msg_style = PAM_PROMPT_ECHO_OFF, msg_text = ''Password: ''\<rparr> = LOGIN_PASSWORD" by code_simp
qed

end
