(* ===== verification/Pam_Backend.thy ===== *)
theory Pam_Backend
  imports Pam_Data Helper_Channel User_Session
begin

unbundle bit_operations_syntax

text \<open>
  The PAM side of the helper: the wrapper \<open>PamHandle\<close>
  (\<open>src/helper/backend/PamHandle.cpp\<close>) and \<open>PamBackend\<close> with its conversation
  function (\<open>src/helper/backend/PamBackend.cpp\<close>).

  Linux-PAM itself is a parameter: a record of functions over its own state \<open>'p\<close>.  A call
  that may talk to the user is a tree: it either returns, or asks for a conversation and goes
  on with the answer, so every order of conversations a PAM stack may choose is covered.
  A call of the conversation function whose behaviour is undefined makes the whole call
  undefined (\<open>None\<close>).
\<close>

definition PAM_SUCCESS :: int where "PAM_SUCCESS = 0"
definition PAM_BUF_ERR :: int where "PAM_BUF_ERR = 5"
definition PAM_NEW_AUTHTOK_REQD :: int where "PAM_NEW_AUTHTOK_REQD = 12"
definition PAM_CONV_ERR :: int where "PAM_CONV_ERR = 19"
definition PAM_MAX_NUM_MSG :: int where "PAM_MAX_NUM_MSG = 32"
definition PAM_TTY :: int where "PAM_TTY = 3"
definition PAM_XDISPLAY :: int where "PAM_XDISPLAY = 11"
definition PAM_ESTABLISH_CRED :: int where "PAM_ESTABLISH_CRED = 0x2"
definition PAM_DELETE_CRED :: int where "PAM_DELETE_CRED = 0x4"
definition PAM_CHANGE_EXPIRED_AUTHTOK :: int where "PAM_CHANGE_EXPIRED_AUTHTOK = 0x20"

lemmas pam_const_defs =
  PAM_SUCCESS_def PAM_BUF_ERR_def PAM_NEW_AUTHTOK_REQD_def PAM_CONV_ERR_def PAM_MAX_NUM_MSG_def
  PAM_TTY_def PAM_XDISPLAY_def PAM_ESTABLISH_CRED_def PAM_DELETE_CRED_def PAM_CHANGE_EXPIRED_AUTHTOK_def

type_synonym conv_reply = "int \<times> QByteArray list"

datatype 'p pam_call =
    PamReturn int 'p
  | PamConverse "pam_message list" "conv_reply \<Rightarrow> 'p pam_call"

record 'p pam_lib =
  lib_start :: "QString \<Rightarrow> QString option \<Rightarrow> 'p \<Rightarrow> int \<times> 'p"
  lib_authenticate :: "int \<Rightarrow> 'p \<Rightarrow> 'p pam_call"
  lib_acct_mgmt :: "int \<Rightarrow> 'p \<Rightarrow> 'p pam_call"
  lib_chauthtok :: "int \<Rightarrow> 'p \<Rightarrow> 'p pam_call"
  lib_setcred :: "int \<Rightarrow> 'p \<Rightarrow> 'p pam_call"
  lib_open_session :: "int \<Rightarrow> 'p \<Rightarrow> 'p pam_call"
  lib_close_session :: "int \<Rightarrow> 'p \<Rightarrow> 'p pam_call"
  lib_set_item :: "int \<Rightarrow> QString \<Rightarrow> 'p \<Rightarrow> int \<times> 'p"
  lib_get_user :: "'p \<Rightarrow> int \<times> QString"
  lib_putenv :: "string \<Rightarrow> 'p \<Rightarrow> int \<times> 'p"
  lib_getenvlist :: "'p \<Rightarrow> QStringList option"
  lib_end :: "int \<Rightarrow> 'p \<Rightarrow> int \<times> 'p"
  lib_strerror :: "int \<Rightarrow> 'p \<Rightarrow> QString"

text \<open>
  \<open>b_mem\<close> holds, per conversation, the number of the allocation that fails (0 for the
  \<open>calloc\<close> of the reply array), or \<open>None\<close>; past the end of the list no allocation fails.
\<close>

record 'p backend =
  b_autologin :: bool
  b_greeter :: bool
  b_data :: PamData
  b_lib :: 'p
  b_handle :: bool
  b_silent :: int
  b_result :: int
  b_open :: bool
  b_mem :: "nat option list"
  b_chan :: channel

definition init_backend :: "'p \<Rightarrow> channel \<Rightarrow> 'p backend" where
  "init_backend p ch = \<lparr>b_autologin = False, b_greeter = False, b_data = init_pam_data, b_lib = p,
     b_handle = False, b_silent = 0, b_result = 0, b_open = False, b_mem = [], b_chan = ch\<rparr>"

section \<open>The conversation function\<close>

text \<open>The first loop: prompts are collected, messages are forwarded to the daemon.\<close>

definition conv_message :: "qds \<Rightarrow> bool \<Rightarrow> pam_message \<Rightarrow> bool \<times> 'p backend \<Rightarrow> bool \<times> 'p backend" where
  "conv_message c single msg nb =
     (let (newRequest, b) = nb in
      if msg_style msg = PAM_PROMPT_ECHO_OFF \<or> msg_style msg = PAM_PROMPT_ECHO_ON then
        (let (r, d) = insertPrompt msg single (b_data b) in (r, b\<lparr>b_data := d\<rparr>))
      else if msg_style msg = PAM_ERROR_MSG then
        (newRequest, b\<lparr>b_chan := helper_error c (msg_text msg) ERROR_AUTHENTICATION (b_chan b)\<rparr>)
      else if msg_style msg = PAM_TEXT_INFO then
        (let (i, d) = handleInfo msg single (b_data b)
         in (newRequest, b\<lparr>b_data := d, b_chan := helper_info c (msg_text msg) i (b_chan b)\<rparr>))
      else (newRequest, b))"

text \<open>
  The request to the daemon, when there is something new to ask; \<open>False\<close> is the early return
  with \<open>PAM_CONV_ERR\<close>.
\<close>

definition conv_ask :: "qds \<Rightarrow> bool \<Rightarrow> 'p backend \<Rightarrow> bool \<times> 'p backend" where
  "conv_ask c newRequest b =
     (let sent = getRequest (b_data b) in
      if newRequest \<and> request_valid sent then
        (let (received, ch) = helper_request c sent (b_chan b); b1 = b\<lparr>b_chan := ch\<rparr>
         in if \<not> request_valid received then (False, b1)
            else (True, b1\<lparr>b_data := completeRequest received (b_data b1)\<rparr>))
      else (True, b))"

text \<open>
  The reply loop.  The reply array is allocated as \<open>*resp\<close> but written as \<open>resp[i]->resp\<close>:
  for every message after the first that dereferences a pointer next to the caller's variable,
  which is undefined behaviour.
\<close>

datatype conv_outcome = ConvReturn int "QByteArray list" | ConvUndefined

fun conv_respond :: "nat option \<Rightarrow> nat \<Rightarrow> pam_message list \<Rightarrow> QByteArray list \<Rightarrow> PamData \<Rightarrow> conv_outcome \<times> PamData" where
  "conv_respond mem i [] resps d = (ConvReturn PAM_SUCCESS resps, d)"
| "conv_respond mem i (msg # msgs) resps d =
     (let (response, d1) = getResponse msg d in
      if 0 < i then (ConvUndefined, d1)
      else if mem = Some (Suc i) then (ConvReturn PAM_BUF_ERR [], d1)
      else conv_respond mem (Suc i) msgs (resps @ [response]) d1)"

definition next_mem :: "'p backend \<Rightarrow> nat option" where
  "next_mem b = (case b_mem b of [] \<Rightarrow> None | m # ms \<Rightarrow> m)"

definition converse :: "qds \<Rightarrow> pam_message list \<Rightarrow> 'p backend \<Rightarrow> conv_outcome \<times> 'p backend" where
  "converse c msgs b =
     (let n = int (length msgs) in
      if n \<le> 0 \<or> PAM_MAX_NUM_MSG < n then (ConvReturn PAM_CONV_ERR [], b)
      else
        let (newRequest, b1) = fold (conv_message c (n = 1)) msgs (False, b);
            (answered, b2) = conv_ask c newRequest b1
        in if \<not> answered then (ConvReturn PAM_CONV_ERR [], b2)
           else
             let mem = next_mem b2; b3 = b2\<lparr>b_mem := tl (b_mem b2)\<rparr>
             in if mem = Some 0 then (ConvReturn PAM_BUF_ERR [], b3)
                else let (res, d) = conv_respond mem 0 msgs [] (b_data b3)
                     in (res, b3\<lparr>b_data := d\<rparr>))"

text \<open>A PAM call with the conversations it holds: its result code and the new state.\<close>

primrec run_call :: "qds \<Rightarrow> 'p pam_call \<Rightarrow> 'p backend \<Rightarrow> (int \<times> 'p backend) option" where
  "run_call c (PamReturn r p) b = Some (r, b\<lparr>b_lib := p\<rparr>)"
| "run_call c (PamConverse msgs k) b =
     (case converse c msgs b of
        (ConvUndefined, b1) \<Rightarrow> None
      | (ConvReturn r resps, b1) \<Rightarrow> run_call c (k (r, resps)) b1)"

section \<open>PamHandle\<close>

text \<open>A library call that records its code in \<open>m_result\<close> and tells whether it succeeded.\<close>

definition ph_call :: "qds \<Rightarrow> ('p \<Rightarrow> 'p pam_call) \<Rightarrow> 'p backend \<Rightarrow> (int \<times> 'p backend) option" where
  "ph_call c f b = map_option (\<lambda>(r, b1). (r, b1\<lparr>b_result := r\<rparr>)) (run_call c (f (b_lib b)) b)"

definition ph_simple :: "('p \<Rightarrow> int \<times> 'p) \<Rightarrow> 'p backend \<Rightarrow> bool \<times> 'p backend" where
  "ph_simple f b = (let (r, p) = f (b_lib b) in (r = PAM_SUCCESS, b\<lparr>b_lib := p, b_result := r\<rparr>))"

fun ph_putEnv :: "'p pam_lib \<Rightarrow> string list \<Rightarrow> 'p backend \<Rightarrow> bool \<times> 'p backend" where
  "ph_putEnv L [] b = (True, b)"
| "ph_putEnv L (s # ss) b =
     (let (ok, b1) = ph_simple (lib_putenv L s) b in if ok then ph_putEnv L ss b1 else (False, b1))"

text \<open>Entries without an equal sign are skipped.\<close>

definition env_entry :: "string \<Rightarrow> env \<Rightarrow> env" where
  "env_entry s e =
     (let index = index_of CHR ''='' s
      in if index \<noteq> -1 then env_insert (q_left s index) (q_mid s (index + 1)) e else e)"

definition ph_getEnv :: "'p pam_lib \<Rightarrow> 'p backend \<Rightarrow> env" where
  "ph_getEnv L b = (case lib_getenvlist L (b_lib b) of None \<Rightarrow> [] | Some l \<Rightarrow> fold env_entry l [])"

definition ph_chAuthTok :: "qds \<Rightarrow> 'p pam_lib \<Rightarrow> int \<Rightarrow> 'p backend \<Rightarrow> (bool \<times> 'p backend) option" where
  "ph_chAuthTok c L flags b =
     map_option (\<lambda>(r, b1). (r = PAM_SUCCESS, b1)) (ph_call c (lib_chauthtok L (flags OR b_silent b)) b)"

definition ph_acctMgmt :: "qds \<Rightarrow> 'p pam_lib \<Rightarrow> int \<Rightarrow> 'p backend \<Rightarrow> (bool \<times> 'p backend) option" where
  "ph_acctMgmt c L flags b =
     (case ph_call c (lib_acct_mgmt L (flags OR b_silent b)) b of
        None \<Rightarrow> None
      | Some (r, b1) \<Rightarrow>
          if r = PAM_NEW_AUTHTOK_REQD then ph_chAuthTok c L PAM_CHANGE_EXPIRED_AUTHTOK b1
          else if r \<noteq> PAM_SUCCESS then Some (False, b1)
          else Some (True, b1))"

definition ph_authenticate :: "qds \<Rightarrow> 'p pam_lib \<Rightarrow> int \<Rightarrow> 'p backend \<Rightarrow> (bool \<times> 'p backend) option" where
  "ph_authenticate c L flags b =
     map_option (\<lambda>(r, b1). (r = PAM_SUCCESS, b1)) (ph_call c (lib_authenticate L (flags OR b_silent b)) b)"

definition ph_setCred :: "qds \<Rightarrow> 'p pam_lib \<Rightarrow> int \<Rightarrow> 'p backend \<Rightarrow> (bool \<times> 'p backend) option" where
  "ph_setCred c L flags b =
     map_option (\<lambda>(r, b1). (r = PAM_SUCCESS, b1)) (ph_call c (lib_setcred L (flags OR b_silent b)) b)"

definition ph_openSession :: "qds \<Rightarrow> 'p pam_lib \<Rightarrow> 'p backend \<Rightarrow> (bool \<times> 'p backend) option" where
  "ph_openSession c L b =
     map_option (\<lambda>(r, b1). (r = PAM_SUCCESS, b1\<lparr>b_open := (r = PAM_SUCCESS)\<rparr>))
       (ph_call c (lib_open_session L (b_silent b)) b)"

text \<open>\<open>closeSession\<close> leaves \<open>m_open\<close> as it is.\<close>

definition ph_closeSession :: "qds \<Rightarrow> 'p pam_lib \<Rightarrow> 'p backend \<Rightarrow> (bool \<times> 'p backend) option" where
  "ph_closeSession c L b =
     map_option (\<lambda>(r, b1). (r = PAM_SUCCESS, b1)) (ph_call c (lib_close_session L (b_silent b)) b)"

definition ph_setItem :: "'p pam_lib \<Rightarrow> int \<Rightarrow> QString \<Rightarrow> 'p backend \<Rightarrow> bool \<times> 'p backend" where
  "ph_setItem L item v b = ph_simple (lib_set_item L item v) b"

text \<open>\<open>getItem(PAM_USER)\<close>: the code is recorded, the item returned whatever it is.\<close>

definition ph_getUser :: "'p pam_lib \<Rightarrow> 'p backend \<Rightarrow> QString \<times> 'p backend" where
  "ph_getUser L b = (let (r, u) = lib_get_user L (b_lib b) in (u, b\<lparr>b_result := r\<rparr>))"

definition ph_start :: "'p pam_lib \<Rightarrow> QString \<Rightarrow> QString \<Rightarrow> 'p backend \<Rightarrow> bool \<times> 'p backend" where
  "ph_start L service user b =
     (let (r, p) = lib_start L service (if user = [] then None else Some user) (b_lib b)
      in (r = PAM_SUCCESS, b\<lparr>b_lib := p, b_result := r, b_handle := (r = PAM_SUCCESS)\<rparr>))"

definition ph_end :: "'p pam_lib \<Rightarrow> int \<Rightarrow> 'p backend \<Rightarrow> bool \<times> 'p backend" where
  "ph_end L flags b =
     (if \<not> b_handle b then (False, b)
      else
        let (r, p) = lib_end L (b_silent b OR flags) (b_lib b); b1 = b\<lparr>b_lib := p, b_result := r\<rparr>
        in if r \<noteq> PAM_SUCCESS then (False, b1) else (True, b1\<lparr>b_handle := False\<rparr>))"

definition ph_errorString :: "'p pam_lib \<Rightarrow> 'p backend \<Rightarrow> QString" where
  "ph_errorString L b = lib_strerror L (b_result b) (b_lib b)"

section \<open>PamBackend\<close>

definition pb_error :: "qds \<Rightarrow> 'p pam_lib \<Rightarrow> AuthError \<Rightarrow> 'p backend \<Rightarrow> 'p backend" where
  "pb_error c L type b = b\<lparr>b_chan := helper_error c (ph_errorString L b) type (b_chan b)\<rparr>"

definition pam_service :: "bool \<Rightarrow> bool \<Rightarrow> QString \<Rightarrow> QString" where
  "pam_service greeter autologin user =
     (if user = ''plasmalogin'' \<and> greeter then ''plasmalogin-greeter''
      else if autologin then ''plasmalogin-autologin''
      else ''plasmalogin'')"

definition pb_start :: "qds \<Rightarrow> 'p pam_lib \<Rightarrow> QString \<Rightarrow> 'p backend \<Rightarrow> bool \<times> 'p backend" where
  "pb_start c L user b =
     (let (result, b1) = ph_start L (pam_service (b_greeter b) (b_autologin b) user) user b
      in (result, if \<not> result then pb_error c L ERROR_INTERNAL b1 else b1))"

definition pb_authenticate :: "qds \<Rightarrow> 'p pam_lib \<Rightarrow> 'p backend \<Rightarrow> (bool \<times> 'p backend) option" where
  "pb_authenticate c L b =
     (case ph_authenticate c L 0 b of
        None \<Rightarrow> None
      | Some (ok, b1) \<Rightarrow>
          if \<not> ok then Some (False, pb_error c L ERROR_AUTHENTICATION b1)
          else
            case ph_acctMgmt c L 0 b1 of
              None \<Rightarrow> None
            | Some (ok2, b2) \<Rightarrow>
                if \<not> ok2 then Some (False, pb_error c L ERROR_AUTHENTICATION b2)
                else Some (True, b2))"

text \<open>
  The items set before the session is opened: the terminal, and for an X11 user session the
  display (in \<open>PAM_XDISPLAY\<close>, which Linux-PAM has).
\<close>

definition pb_set_items :: "'p pam_lib \<Rightarrow> env \<Rightarrow> 'p backend \<Rightarrow> 'p backend" where
  "pb_set_items L sessionEnv b =
     (let b1 = (if env_contains sessionEnv ''XDG_VTNR''
                then snd (ph_setItem L PAM_TTY (vt_path (to_int (env_value sessionEnv ''XDG_VTNR''))) b) else b);
          display = env_value sessionEnv ''DISPLAY''
      in if env_value sessionEnv ''XDG_SESSION_TYPE'' = ''x11'' \<and> env_value sessionEnv ''XDG_SESSION_CLASS'' = ''user''
            \<and> display \<noteq> []
         then snd (ph_setItem L PAM_XDISPLAY display b1) else b1)"

definition user_environment :: "passwd option \<Rightarrow> env \<Rightarrow> env" where
  "user_environment pw e =
     (let e1 = (case pw of None \<Rightarrow> e
          | Some p \<Rightarrow> env_insert ''LOGNAME'' (pw_name p) (env_insert ''USER'' (pw_name p)
              (env_insert ''SHELL'' (pw_shell p) (env_insert ''PWD'' (pw_dir p)
                (env_insert ''HOME'' (pw_dir p) e)))))
      in if env_value e1 ''XDG_SESSION_CLASS'' = ''greeter''
         then env_insert ''QT_NO_XDG_DESKTOP_PORTAL'' ''1'' e1 else e1)"

text \<open>\<open>getpwnam\<close> is a parameter, as is whether the session process comes up.\<close>

definition pb_openSession ::
  "qds \<Rightarrow> 'p pam_lib \<Rightarrow> build_config \<Rightarrow> (string \<Rightarrow> passwd option) \<Rightarrow> bool \<Rightarrow> QString
     \<Rightarrow> session \<Rightarrow> 'p backend \<Rightarrow> (bool \<times> session \<times> 'p backend) option" where
  "pb_openSession c L cfg getpwnam came_up user s b =
     (case ph_setCred c L PAM_ESTABLISH_CRED b of
        None \<Rightarrow> None
      | Some (ok, b1) \<Rightarrow>
          if \<not> ok then Some (False, s, pb_error c L ERROR_AUTHENTICATION b1)
          else
            let (ok2, b3) = ph_putEnv L (env_strings (us_env s)) (pb_set_items L (us_env s) b1)
            in if \<not> ok2 then Some (False, s, pb_error c L ERROR_INTERNAL b3)
               else
                 case ph_openSession c L b3 of
                   None \<Rightarrow> None
                 | Some (ok4, b4) \<Rightarrow>
                     if \<not> ok4 then Some (False, s, pb_error c L ERROR_INTERNAL b4)
                     else
                       let e = user_environment (getpwnam user) (env_insert_all (us_env s) (ph_getEnv L b4));
                           (started, s5) = us_start cfg came_up (s\<lparr>us_env := e\<rparr>)
                       in Some (started, s5, b4))"

definition pb_closeSession :: "qds \<Rightarrow> 'p pam_lib \<Rightarrow> 'p backend \<Rightarrow> (bool \<times> 'p backend) option" where
  "pb_closeSession c L b =
     (if b_open b then
        case ph_closeSession c L b of
          None \<Rightarrow> None
        | Some (_, b1) \<Rightarrow> map_option (\<lambda>(_, b2). (True, b2)) (ph_setCred c L PAM_DELETE_CRED b1)
      else Some (True, b))"

definition pb_userName :: "'p pam_lib \<Rightarrow> 'p backend \<Rightarrow> QString \<times> 'p backend" where
  "pb_userName L b = ph_getUser L b"

definition pb_setAutologin :: "bool \<Rightarrow> 'p backend \<Rightarrow> 'p backend" where
  "pb_setAutologin on b = b\<lparr>b_autologin := on\<rparr>"

definition pb_setGreeter :: "bool \<Rightarrow> 'p backend \<Rightarrow> 'p backend" where
  "pb_setGreeter on b = b\<lparr>b_greeter := on\<rparr>"


section \<open>The conversation, message by message\<close>

lemma fold_conv_mem [simp]: "b_mem (snd (fold (conv_message c single) msgs (n, b))) = b_mem b"
proof (induction msgs arbitrary: n b)
  case (Cons m ms)
  have "b_mem (snd (conv_message c single m (n, b))) = b_mem b"
    by (simp add: conv_message_def Let_def split: prod.splits)
  with Cons show ?case by (simp del: split_paired_All) (metis prod.collapse)
qed simp

lemma conv_ask_mem [simp]: "b_mem (snd (conv_ask c n b)) = b_mem b"
  by (simp add: conv_ask_def Let_def split: prod.splits)

lemma converse_eq:
  assumes "fold (conv_message c (length msgs = Suc 0)) msgs (False, b) = (n, b1)" "conv_ask c n b1 = (a, b2)"
  shows "converse c msgs b =
    (if msgs = [] \<or> 32 < length msgs then (ConvReturn PAM_CONV_ERR [], b)
     else if \<not> a then (ConvReturn PAM_CONV_ERR [], b2)
     else if next_mem b2 = Some 0 then (ConvReturn PAM_BUF_ERR [], b2\<lparr>b_mem := tl (b_mem b2)\<rparr>)
     else map_prod id (\<lambda>d. b2\<lparr>b_mem := tl (b_mem b2), b_data := d\<rparr>)
            (conv_respond (next_mem b2) 0 msgs [] (b_data b2)))"
  using assms by (simp add: converse_def PAM_MAX_NUM_MSG_def Let_def map_prod_def split: prod.splits)

lemma conv_respond_second: "mem \<noteq> Some 1 \<Longrightarrow> fst (conv_respond mem 0 (m1 # m2 # ms) [] d) = ConvUndefined"
  by (simp add: Let_def split: prod.splits)

text \<open>A conversation with no message or with more than \<open>PAM_MAX_NUM_MSG\<close> is refused with
  \<open>PAM_CONV_ERR\<close> before anything is touched.\<close>

theorem converse_bounds:
  "length msgs = 0 \<or> 32 < length msgs \<Longrightarrow> converse c msgs b = (ConvReturn PAM_CONV_ERR [], b)"
  by (auto simp: converse_def PAM_MAX_NUM_MSG_def)

lemma converse_bounds_witness:
  "converse sd_qds [] (init_backend (0 :: nat) \<lparr>ch_out = [], ch_in = []\<rparr>)
    = (ConvReturn PAM_CONV_ERR [], init_backend (0 :: nat) \<lparr>ch_out = [], ch_in = []\<rparr>)"
  by (rule converse_bounds) simp



context qt_stream begin

lemma ask_answered:
  assumes "request_valid (getRequest (b_data b))" "length rs = length (r_prompts (getRequest (b_data b)))"
    and "ch_in (b_chan b) = (put_msg c REQUEST @ put_request c (answer_request rs (getRequest (b_data b)))) # ps"
    and "length rs < 2 ^ 31"
  shows "conv_ask c True b = (True, b\<lparr>b_chan := \<lparr>ch_out = ch_out (b_chan b)
      @ [put_msg c REQUEST @ put_request c (getRequest (b_data b))], ch_in = ps\<rparr>,
      b_data := completeRequest (answer_request rs (getRequest (b_data b))) (b_data b)\<rparr>)"
proof -
  have "request_valid (answer_request rs (getRequest (b_data b)))"
    using assms(1,2) by (auto simp: request_valid_def answer_request_def zip_eq_Nil_iff)
  moreover have "int (length (r_prompts (answer_request rs (getRequest (b_data b))))) < 2 ^ 31"
    using assms(2,4) by (simp add: answer_request_def)
  ultimately show ?thesis
    using assms request_answered [OF assms(3), of "getRequest (b_data b)"]
    by (simp add: conv_ask_def Let_def)
qed

lemma converse_single:
  assumes "pd_prompts (b_data b) = []" "\<not> m_sent (b_data b)" "msg_style msg = PAM_PROMPT_ECHO_OFF"
    and "insertPrompt msg True (b_data b) = insertPrompt msg False (b_data b)" "b_mem b = []"
    and "ch_in (b_chan b) = (put_msg c REQUEST @ put_request c \<lparr>r_prompts =
      [(mk_prompt (detectPrompt msg) (msg_text msg) True)\<lparr>p_response := r\<rparr>]\<rparr>) # ps"
  shows "converse c [msg] b = (ConvReturn PAM_SUCCESS [r], b\<lparr>b_chan := \<lparr>ch_out = ch_out (b_chan b)
      @ [put_msg c REQUEST @ put_request c \<lparr>r_prompts = [mk_prompt (detectPrompt msg) (msg_text msg) True]\<rparr>],
      ch_in = ps\<rparr>\<rparr>)"
proof -
  let ?q = "\<lparr>r_prompts = [mk_prompt (detectPrompt msg) (msg_text msg) True]\<rparr>"
  let ?d1 = "set_prompts (r_prompts ?q) (b_data b)"
  let ?b1 = "b\<lparr>b_data := ?d1\<rparr>"
  let ?d2 = "completeRequest (answer_request [r] (getRequest ?d1)) ?d1"
  have i: "insertPrompt msg True (b_data b) = (True, ?d1)"
    using assms(3,4) insert_fresh [OF assms(1,2), of msg] by simp
  have g: "getRequest ?d1 = ?q" using assms(2) by (simp add: getRequest_def set_prompts_def)
  have a: "conv_ask c True ?b1 = (True, ?b1\<lparr>b_chan := \<lparr>ch_out = ch_out (b_chan b)
      @ [put_msg c REQUEST @ put_request c ?q], ch_in = ps\<rparr>, b_data := ?d2\<rparr>)"
    using ask_answered [of ?b1 "[r]" ps] assms(6) g by (simp add: request_valid_def answer_request_def)
  have r: "getResponse msg ?d2 = (r, b_data b)"
    using single_question_steps(4) [OF assms(1,2), where msg = msg and r = r] assms(3) g by simp
  show ?thesis
    using assms(3,5) i a r
    by (simp add: converse_def conv_message_def PAM_MAX_NUM_MSG_def next_mem_def Let_def)
qed

end

end
