(* ===== verification/Helper_App.thy ===== *)
theory Helper_App
  imports Pam_Backend
begin

text \<open>
  The helper process (\<open>src/helper/HelperApp.cpp\<close>): reading the command line, the
  authentication sequence, and the clean-up when the process ends.  A result code is the
  argument of \<open>exit\<close>; \<open>None\<close> in its place means the process goes on running.
\<close>

record 'p helper =
  h_id :: int
  h_user :: QString
  h_server :: QString
  h_session :: session
  h_backend :: "'p backend"

definition init_helper :: "'p \<Rightarrow> channel \<Rightarrow> 'p helper" where
  "init_helper p ch = \<lparr>h_id = -1, h_user = [], h_server = [], h_session = init_session,
     h_backend = init_backend p ch\<rparr>"

section \<open>The command line\<close>

text \<open>
  The value after the first occurrence of an option; \<open>Inl\<close> when the option is the last
  argument.
\<close>

definition option_value :: "string \<Rightarrow> QStringList \<Rightarrow> unit + string option" where
  "option_value name args =
     (let pos = index_of name args in
      if 0 \<le> pos then (if int (length args) - 1 \<le> pos then Inl () else Inr (Some (args ! nat (pos + 1))))
      else Inr None)"

definition set_value :: "(string \<Rightarrow> 'h \<Rightarrow> 'h) \<Rightarrow> string option \<Rightarrow> 'h \<Rightarrow> 'h" where
  "set_value f v h = (case v of None \<Rightarrow> h | Some x \<Rightarrow> f x h)"

definition h_set_flags :: "QStringList \<Rightarrow> 'p helper \<Rightarrow> 'p helper" where
  "h_set_flags args h =
     (let h1 = (if 0 \<le> index_of ''--autologin'' args then h\<lparr>h_backend := pb_setAutologin True (h_backend h)\<rparr> else h)
      in if 0 \<le> index_of ''--greeter'' args then h1\<lparr>h_backend := pb_setGreeter True (h_backend h1)\<rparr> else h1)"

definition helper_setUp :: "QStringList \<Rightarrow> 'p helper \<Rightarrow> 'p helper \<times> int option" where
  "helper_setUp args h =
     (case option_value ''--socket'' args of
        Inl _ \<Rightarrow> (h, Some HELPER_OTHER_ERROR)
      | Inr server \<Rightarrow>
          let h1 = set_value (\<lambda>x h. h\<lparr>h_server := x\<rparr>) server h in
          case option_value ''--id'' args of
            Inl _ \<Rightarrow> (h1, Some HELPER_OTHER_ERROR)
          | Inr idv \<Rightarrow>
              let h2 = set_value (\<lambda>x h. h\<lparr>h_id := to_long_long x\<rparr>) idv h1 in
              case option_value ''--start'' args of
                Inl _ \<Rightarrow> (h2, Some HELPER_OTHER_ERROR)
              | Inr path \<Rightarrow>
                  let h3 = set_value (\<lambda>x h. h\<lparr>h_session := (h_session h)\<lparr>us_path := x\<rparr>\<rparr>) path h2 in
                  case option_value ''--user'' args of
                    Inl _ \<Rightarrow> (h3, Some HELPER_OTHER_ERROR)
                  | Inr user \<Rightarrow>
                      let h4 = set_value (\<lambda>x h. h\<lparr>h_user := x\<rparr>) user h3 in
                      case option_value ''--display-server'' args of
                        Inl _ \<Rightarrow> (h4, Some HELPER_OTHER_ERROR)
                      | Inr _ \<Rightarrow>
                          let h5 = h_set_flags args h4
                          in if h_server h5 = [] \<or> h_id h5 \<le> 0 then (h5, Some HELPER_OTHER_ERROR)
                             else (h5, None))"

section \<open>The authentication sequence\<close>

definition h_refuse :: "qds \<Rightarrow> 'p helper \<Rightarrow> 'p helper" where
  "h_refuse c h = h\<lparr>h_backend := (h_backend h)\<lparr>b_chan :=
     snd (helper_authenticated c [] (b_chan (h_backend h)))\<rparr>\<rparr>"

definition h_report_session :: "qds \<Rightarrow> bool \<Rightarrow> 'p helper \<Rightarrow> 'p helper" where
  "h_report_session c success h = h\<lparr>h_backend := (h_backend h)\<lparr>b_chan :=
     helper_session_opened c success (b_chan (h_backend h))\<rparr>\<rparr>"

text \<open>
  What follows a successful authentication: the daemon's environment goes under the session's
  own, and with a session to start, PAM opens it and the process is started.
\<close>

definition h_accept ::
  "qds \<Rightarrow> 'p pam_lib \<Rightarrow> build_config \<Rightarrow> (string \<Rightarrow> passwd option) \<Rightarrow> bool \<Rightarrow> 'p helper
     \<Rightarrow> ('p helper \<times> int option) option" where
  "h_accept c L cfg getpwnam came_up h =
     (let (user, b) = pb_userName L (h_backend h);
          (e, ch) = helper_authenticated c user (b_chan b);
          h1 = h\<lparr>h_user := user, h_backend := b\<lparr>b_chan := ch\<rparr>\<rparr>
      in if us_path (h_session h1) \<noteq> [] then
           (let s = (h_session h1)\<lparr>us_env := env_insert_all e (us_env (h_session h1))\<rparr> in
            case pb_openSession c L cfg getpwnam came_up user s (h_backend h1) of
              None \<Rightarrow> None
            | Some (ok, s2, b2) \<Rightarrow>
                let h2 = h1\<lparr>h_session := s2, h_backend := b2\<rparr>
                in if \<not> ok then Some (h_report_session c False h2, Some HELPER_SESSION_ERROR)
                   else Some (h_report_session c True h2, None))
         else Some (h1, Some HELPER_SUCCESS))"

definition helper_doAuth ::
  "qds \<Rightarrow> 'p pam_lib \<Rightarrow> build_config \<Rightarrow> (string \<Rightarrow> passwd option) \<Rightarrow> bool \<Rightarrow> 'p helper
     \<Rightarrow> ('p helper \<times> int option) option" where
  "helper_doAuth c L cfg getpwnam came_up h =
     (let b0 = (h_backend h)\<lparr>b_chan := helper_hello c (word_of_int (h_id h)) (b_chan (h_backend h))\<rparr>;
          (started, b1) = pb_start c L (h_user h) b0
      in if \<not> started then Some (h_refuse c (h\<lparr>h_backend := b1\<rparr>), Some HELPER_AUTH_ERROR)
         else
           case pb_authenticate c L b1 of
             None \<Rightarrow> None
           | Some (ok, b2) \<Rightarrow>
               if \<not> ok then Some (h_refuse c (h\<lparr>h_backend := b2\<rparr>), Some HELPER_AUTH_ERROR)
               else h_accept c L cfg getpwnam came_up (h\<lparr>h_backend := b2\<rparr>))"

definition helper_sessionFinished :: "int \<Rightarrow> int option" where
  "helper_sessionFinished status = Some status"

text \<open>
  The destructor stops the session and closes the PAM session; destroying the backend then
  ends the PAM transaction.
\<close>

definition helper_destroy :: "qds \<Rightarrow> 'p pam_lib \<Rightarrow> bool \<Rightarrow> 'p helper \<Rightarrow> (session_effect list \<times> 'p backend) option" where
  "helper_destroy c L first_wait h =
     map_option (\<lambda>(_, b). (us_stop first_wait (h_session h), snd (ph_end L 0 b)))
       (pb_closeSession c L (h_backend h))"


section \<open>What a PAM stack may answer\<close>

text \<open>\<open>returns_only R t\<close>: every result code the call \<open>t\<close> can give, whatever the user answers, is in \<open>R\<close>.\<close>

primrec returns_only :: "int set \<Rightarrow> 'p pam_call \<Rightarrow> bool" where
  "returns_only R (PamReturn r p) = (r \<in> R)"
| "returns_only R (PamConverse msgs k) = (\<forall>x. returns_only R (k x))"

text \<open>
  The stack denies the login: it never authenticates, or the account is not valid, or the
  password has expired and cannot be changed.
\<close>

definition pam_denies :: "'p pam_lib \<Rightarrow> bool" where
  "pam_denies L \<longleftrightarrow>
     (\<forall>flags p. returns_only (- {PAM_SUCCESS}) (lib_authenticate L flags p))
   \<or> (\<forall>flags p. returns_only (- {PAM_SUCCESS, PAM_NEW_AUTHTOK_REQD}) (lib_acct_mgmt L flags p))
   \<or> (\<forall>flags p. returns_only (- {PAM_SUCCESS}) (lib_acct_mgmt L flags p))
     \<and> (\<forall>flags p. returns_only (- {PAM_SUCCESS}) (lib_chauthtok L flags p))"

section \<open>Frame lemmas\<close>

lemma conv_message_open [simp]: "b_open (snd (conv_message c single m nb)) = b_open (snd nb)"
  by (cases nb) (simp add: conv_message_def Let_def split: prod.splits)

lemma fold_conv_open [simp]: "b_open (snd (fold (conv_message c single) msgs nb)) = b_open (snd nb)"
  by (induction msgs arbitrary: nb) simp_all

lemma conv_ask_open [simp]: "b_open (snd (conv_ask c n b)) = b_open b"
  by (simp add: conv_ask_def Let_def split: prod.splits)

lemma converse_open [simp]: "b_open (snd (converse c msgs b)) = b_open b"
proof -
  obtain n b1 where n: "fold (conv_message c (length msgs = Suc 0)) msgs (False, b) = (n, b1)" by fastforce
  obtain a b2 where a: "conv_ask c n b1 = (a, b2)" by fastforce
  have "b_open b2 = b_open b"
    using fold_conv_open [of c "length msgs = Suc 0" msgs "(False, b)", unfolded n] conv_ask_open [of c n b1] a
    by simp
  then show ?thesis
    by (simp add: converse_eq [OF n a] map_prod_def split: prod.splits)
qed

lemma run_call_open: "run_call c t b = Some (r, b') \<Longrightarrow> b_open b' = b_open b"
proof (induction t arbitrary: b)
  case (PamConverse msgs k)
  then obtain r1 resps b1 where "converse c msgs b = (ConvReturn r1 resps, b1)" "run_call c (k (r1, resps)) b1 = Some (r, b')"
    by (auto split: prod.splits conv_outcome.splits)
  with PamConverse.IH [of "k (r1, resps)" b1] converse_open [of c msgs b] show ?case by auto
qed auto

lemma run_call_returns: "run_call c t b = Some (r, b') \<Longrightarrow> returns_only R t \<Longrightarrow> r \<in> R"
proof (induction t arbitrary: b)
  case (PamConverse msgs k)
  then obtain r1 resps b1 where "run_call c (k (r1, resps)) b1 = Some (r, b')"
    by (auto split: prod.splits conv_outcome.splits)
  with PamConverse show ?case by auto
qed auto

lemma ph_call_open: "ph_call c f b = Some (r, b') \<Longrightarrow> b_open b' = b_open b"
  using run_call_open by (fastforce simp: ph_call_def)

lemma ph_call_returns: "ph_call c f b = Some (r, b') \<Longrightarrow> returns_only R (f (b_lib b)) \<Longrightarrow> r \<in> R"
  using run_call_returns by (fastforce simp: ph_call_def)

lemma ph_call_family:
  "\<forall>flags p. returns_only R (f flags p) \<Longrightarrow> ph_call c (f fl) b = Some (r, b') \<Longrightarrow> r \<in> R"
  using ph_call_returns [of c "f fl"] by blast

lemmas pam_codes =
  ph_call_family [of _ "lib_authenticate L" for L] ph_call_family [of _ "lib_acct_mgmt L" for L]
  ph_call_family [of _ "lib_chauthtok L" for L]

lemma ph_authenticate_open: "ph_authenticate c L fl b = Some (ok, b') \<Longrightarrow> b_open b' = b_open b"
  by (auto simp: ph_authenticate_def dest: ph_call_open)

lemma ph_acctMgmt_open: "ph_acctMgmt c L fl b = Some (ok, b') \<Longrightarrow> b_open b' = b_open b"
  by (auto simp: ph_acctMgmt_def ph_chAuthTok_def dest!: ph_call_open split: option.splits if_splits)

lemma pb_error_open [simp]: "b_open (pb_error c L t b) = b_open b"
  by (simp add: pb_error_def)

lemma pb_start_open: "pb_start c L u b = (ok, b') \<Longrightarrow> b_open b' = b_open b"
  by (auto simp: pb_start_def ph_start_def Let_def split: prod.splits if_splits)

lemma pb_authenticate_open: "pb_authenticate c L b = Some (ok, b') \<Longrightarrow> b_open b' = b_open b"
  by (auto simp: pb_authenticate_def split: option.splits if_splits
      dest!: ph_authenticate_open ph_acctMgmt_open)

lemma ph_acctMgmt_denied:
  assumes "(\<forall>flags p. returns_only (- {PAM_SUCCESS, PAM_NEW_AUTHTOK_REQD}) (lib_acct_mgmt L flags p))
      \<or> (\<forall>flags p. returns_only (- {PAM_SUCCESS}) (lib_acct_mgmt L flags p))
         \<and> (\<forall>flags p. returns_only (- {PAM_SUCCESS}) (lib_chauthtok L flags p))"
    and "ph_acctMgmt c L fl b = Some (ok, b')"
  shows "\<not> ok"
  using assms
  by (auto simp: ph_acctMgmt_def ph_chAuthTok_def split: option.splits if_splits dest: pam_codes)

lemma pb_authenticate_denied:
  assumes "pam_denies L" "pb_authenticate c L b = Some (ok, b')"
  shows "\<not> ok"
proof -
  consider (auth) "\<forall>flags p. returns_only (- {PAM_SUCCESS}) (lib_authenticate L flags p)"
    | (acct) "(\<forall>flags p. returns_only (- {PAM_SUCCESS, PAM_NEW_AUTHTOK_REQD}) (lib_acct_mgmt L flags p))
      \<or> (\<forall>flags p. returns_only (- {PAM_SUCCESS}) (lib_acct_mgmt L flags p))
         \<and> (\<forall>flags p. returns_only (- {PAM_SUCCESS}) (lib_chauthtok L flags p))"
    using assms(1) by (auto simp: pam_denies_def)
  then show ?thesis
  proof cases
    case auth
    then show ?thesis using assms(2)
      by (auto simp: pb_authenticate_def ph_authenticate_def split: option.splits if_splits dest: pam_codes)
  next
    case acct
    show ?thesis using assms(2)
      by (auto simp: pb_authenticate_def split: option.splits if_splits dest!: ph_acctMgmt_denied [OF acct])
  qed
qed

lemma h_refuse_simps [simp]:
  "h_session (h_refuse c h) = h_session h"
  "b_open (h_backend (h_refuse c h)) = b_open (h_backend h)"
  "ch_out (b_chan (h_backend (h_refuse c h))) = ch_out (b_chan (h_backend h)) @ [put_msg c AUTHENTICATED @ enc_str c []]"
  by (simp_all add: h_refuse_def authenticated_empty)

section \<open>Properties of the sequence\<close>

text \<open>Property C2: when the PAM stack denies the login, \<open>doAuth\<close> ends with the exit code of an
  authentication error; the last thing the daemon hears is an empty \<open>AUTHENTICATED\<close>, no session
  process is started and no PAM session is opened.\<close>

theorem denied_login_opens_nothing:
  assumes "pam_denies L" "helper_doAuth c L cfg getpwnam came_up h = Some (h', code)"
  shows "code = Some HELPER_AUTH_ERROR \<and> h_session h' = h_session h
    \<and> b_open (h_backend h') = b_open (h_backend h)
    \<and> last (ch_out (b_chan (h_backend h'))) = put_msg c AUTHENTICATED @ enc_str c []"
proof -
  let ?b0 = "(h_backend h)\<lparr>b_chan := helper_hello c (word_of_int (h_id h)) (b_chan (h_backend h))\<rparr>"
  obtain started b1 where s: "pb_start c L (h_user h) ?b0 = (started, b1)" by fastforce
  show ?thesis
  proof (cases started)
    case False
    with assms(2) s pb_start_open [OF s] show ?thesis by (auto simp: helper_doAuth_def)
  next
    case True
    with assms(2) s obtain ok b2 where a: "pb_authenticate c L b1 = Some (ok, b2)"
      by (auto simp: helper_doAuth_def split: option.splits)
    with pb_authenticate_denied [OF assms(1)] have "\<not> ok" by blast
    with assms(2) s a True pb_start_open [OF s] pb_authenticate_open [OF a] show ?thesis
      by (auto simp: helper_doAuth_def)
  qed
qed


text \<open>
  A small PAM stack for the examples: it asks for the password in one conversation, and answers
  account management with a given code.
\<close>

definition sample_pam :: "QString \<Rightarrow> int \<Rightarrow> nat pam_lib" where
  "sample_pam password acct =
     \<lparr>lib_start = (\<lambda>_ _ p. (PAM_SUCCESS, p)),
      lib_authenticate = (\<lambda>_ p. PamConverse [\<lparr>msg_style = PAM_PROMPT_ECHO_OFF, msg_text = ''Password: ''\<rparr>]
        (\<lambda>(r, resps). PamReturn (if r = PAM_SUCCESS \<and> resps = [password] then PAM_SUCCESS else 7) p)),
      lib_acct_mgmt = (\<lambda>_ p. PamReturn acct p),
      lib_chauthtok = (\<lambda>_ p. PamReturn 20 p),
      lib_setcred = (\<lambda>_ p. PamReturn PAM_SUCCESS p),
      lib_open_session = (\<lambda>_ p. PamReturn PAM_SUCCESS p),
      lib_close_session = (\<lambda>_ p. PamReturn PAM_SUCCESS p),
      lib_set_item = (\<lambda>_ _ p. (PAM_SUCCESS, p)),
      lib_get_user = (\<lambda>_. (PAM_SUCCESS, ''joe'')),
      lib_putenv = (\<lambda>_ p. (PAM_SUCCESS, p)),
      lib_getenvlist = (\<lambda>_. Some [''XDG_RUNTIME_DIR=/run/user/1000'', ''HOME=/nowhere'']),
      lib_end = (\<lambda>_ p. (PAM_SUCCESS, p)),
      lib_strerror = (\<lambda>_ _. ''error'')\<rparr>"

definition sample_answer :: "byte list" where
  "sample_answer = put_msg sd_qds REQUEST @ put_request sd_qds
     \<lparr>r_prompts = [(mk_prompt LOGIN_PASSWORD ''Password: '' True)\<lparr>p_response := ''secret''\<rparr>]\<rparr>"

definition sample_helper :: "nat helper" where
  "sample_helper = (init_helper 0 \<lparr>ch_out = [], ch_in = [sample_answer,
     put_msg sd_qds AUTHENTICATED @ put_env sd_qds [(''XDG_SESSION_TYPE'', ''wayland'')]]\<rparr>)
     \<lparr>h_id := 1, h_user := ''joe'', h_session := init_session\<lparr>us_path := ''startplasma''\<rparr>\<rparr>"

definition sample_cfg :: build_config where
  "sample_cfg = \<lparr>LIBEXEC_INSTALL_DIR = ''/usr/libexec'', DATA_INSTALL_DIR = ''/usr/share/plasmalogin'',
     SESSION_COMMAND = ''/usr/share/plasmalogin/Xsession'', WAYLAND_SESSION_COMMAND = ''/usr/share/plasmalogin/wayland-session''\<rparr>"

definition sample_passwd :: passwd where
  "sample_passwd = \<lparr>pw_name = ''joe'', pw_uid = 1000, pw_gid = 1000, pw_dir = ''/home/joe'', pw_shell = ''/bin/sh''\<rparr>"

lemma detect_sample [simp]:
  "detectPrompt \<lparr>msg_style = PAM_PROMPT_ECHO_OFF, msg_text = ''Password: ''\<rparr> = LOGIN_PASSWORD"
  by code_simp

lemma sample_converse:
  "ch_in (b_chan b) = sample_answer # ps \<Longrightarrow> b_data b = init_pam_data \<Longrightarrow> b_mem b = [] \<Longrightarrow>
    \<exists>ch. converse sd_qds [\<lparr>msg_style = PAM_PROMPT_ECHO_OFF, msg_text = ''Password: ''\<rparr>] b
        = (ConvReturn PAM_SUCCESS [''secret''], b\<lparr>b_chan := ch\<rparr>) \<and> ch_in ch = ps"
  using sd.converse_single [of b "\<lparr>msg_style = PAM_PROMPT_ECHO_OFF, msg_text = ''Password: ''\<rparr>" "''secret''" ps]
  by (simp add: sample_answer_def init_pam_data_def empty_request_def insertPrompt_def findPrompt_def Let_def
      prompt_type_defs) (intro exI conjI, rule refl, simp)

lemma sample_authenticate:
  assumes "ch_in (b_chan b) = sample_answer # ps" "b_data b = init_pam_data" "b_mem b = []"
  shows "\<exists>ch. ph_authenticate sd_qds (sample_pam ''secret'' acct) fl b
     = Some (True, b\<lparr>b_chan := ch, b_result := PAM_SUCCESS\<rparr>) \<and> ch_in ch = ps"
proof -
  from sample_converse [OF assms] obtain ch where
    "converse sd_qds [\<lparr>msg_style = PAM_PROMPT_ECHO_OFF, msg_text = ''Password: ''\<rparr>] b
       = (ConvReturn PAM_SUCCESS [''secret''], b\<lparr>b_chan := ch\<rparr>)" "ch_in ch = ps" by blast
  then show ?thesis
    by (intro exI [of _ ch]) (simp add: ph_authenticate_def ph_call_def sample_pam_def PAM_SUCCESS_def)
qed

lemma sample_pb_authenticate:
  assumes "ch_in (b_chan b) = sample_answer # ps" "b_data b = init_pam_data" "b_mem b = []" "acct \<noteq> PAM_NEW_AUTHTOK_REQD"
  shows "\<exists>b'. pb_authenticate sd_qds (sample_pam ''secret'' acct) b = Some (acct = PAM_SUCCESS, b')
     \<and> (acct = PAM_SUCCESS \<longrightarrow> ch_in (b_chan b') = ps)"
proof -
  from sample_authenticate [OF assms(1-3)] obtain ch where
    a: "ph_authenticate sd_qds (sample_pam ''secret'' acct) 0 b
      = Some (True, b\<lparr>b_chan := ch, b_result := PAM_SUCCESS\<rparr>)" "ch_in ch = ps" by blast
  have m: "lib_acct_mgmt (sample_pam ''secret'' acct) fl p = PamReturn acct p" for fl p
    by (simp add: sample_pam_def)
  show ?thesis using a assms(4) by (simp add: pb_authenticate_def ph_acctMgmt_def ph_call_def m)
qed

lemma sample_start:
  "\<exists>b. pb_start sd_qds (sample_pam ''secret'' acct) (h_user sample_helper)
      ((h_backend sample_helper)\<lparr>b_chan := helper_hello sd_qds (word_of_int (h_id sample_helper)) (b_chan (h_backend sample_helper))\<rparr>)
     = (True, b) \<and> ch_in (b_chan b) = [sample_answer, put_msg sd_qds AUTHENTICATED @ put_env sd_qds [(''XDG_SESSION_TYPE'', ''wayland'')]]
     \<and> b_data b = init_pam_data \<and> b_mem b = []"
  by (simp add: pb_start_def ph_start_def sample_pam_def sample_helper_def init_helper_def init_backend_def
      helper_hello_def Let_def)

lemma denied_login_opens_nothing_witness:
  "case helper_doAuth sd_qds (sample_pam ''secret'' 13) sample_cfg (\<lambda>_. None) True sample_helper of
     None \<Rightarrow> False
   | Some (h', code) \<Rightarrow> code = Some HELPER_AUTH_ERROR \<and> \<not> us_running (h_session h') \<and> \<not> b_open (h_backend h')"
proof -
  have d: "pam_denies (sample_pam ''secret'' 13)"
    by (simp add: pam_denies_def sample_pam_def PAM_SUCCESS_def PAM_NEW_AUTHTOK_REQD_def)
  have i: "\<not> us_running (h_session sample_helper)" "\<not> b_open (h_backend sample_helper)"
    by (simp_all add: sample_helper_def init_helper_def init_session_def init_backend_def)
  have "helper_doAuth sd_qds (sample_pam ''secret'' 13) sample_cfg (\<lambda>_. None) True sample_helper \<noteq> None"
  proof -
    from sample_start obtain b1 where b1: "pb_start sd_qds (sample_pam ''secret'' 13) (h_user sample_helper)
      ((h_backend sample_helper)\<lparr>b_chan := helper_hello sd_qds (word_of_int (h_id sample_helper)) (b_chan (h_backend sample_helper))\<rparr>) = (True, b1)"
      "\<exists>ps. ch_in (b_chan b1) = sample_answer # ps" "b_data b1 = init_pam_data" "b_mem b1 = []" by blast
    then obtain b2 where "pb_authenticate sd_qds (sample_pam ''secret'' 13) b1 = Some (False, b2)"
      using sample_pb_authenticate [of b1 _ 13] by (auto simp: PAM_NEW_AUTHTOK_REQD_def PAM_SUCCESS_def)
    then show ?thesis by (simp add: helper_doAuth_def b1 Let_def)
  qed
  then obtain h' code where
    r: "helper_doAuth sd_qds (sample_pam ''secret'' 13) sample_cfg (\<lambda>_. None) True sample_helper = Some (h', code)"
    by fastforce
  from denied_login_opens_nothing [OF d r] i r show ?thesis by simp
qed

lemma h_report_out [simp]:
  "ch_out (b_chan (h_backend (h_report_session c s h))) = ch_out (b_chan (h_backend h)) @ [put_msg c SESSION_STATUS @ enc_bool c s]"
  "h_session (h_report_session c s h) = h_session h"
  by (simp_all add: h_report_session_def helper_session_opened_def)

lemma us_start_result:
  "us_start cfg up s = (ok, s') \<Longrightarrow> us_path s' = us_path s \<and> us_env s' = us_env s \<and> (up \<longrightarrow> ok = us_running s' \<or> \<not> ok)"
  by (auto simp: us_start_def Let_def split: if_splits)

lemma pb_openSession_path:
  "pb_openSession c L cfg pw up u s b = Some (ok, s', b') \<Longrightarrow> us_path s' = us_path s"
  by (auto simp: pb_openSession_def Let_def split: option.splits prod.splits if_splits dest: us_start_result)

lemma h_accept_outcome:
  assumes "h_accept c L cfg getpwnam up h = Some (h', code)"
  shows "code = Some HELPER_SUCCESS \<and> us_path (h_session h) = [] \<and> h_session h' = h_session h
    \<or> us_path (h_session h) \<noteq> [] \<and> code = Some HELPER_SESSION_ERROR
      \<and> last (ch_out (b_chan (h_backend h'))) = put_msg c SESSION_STATUS @ enc_bool c False
    \<or> us_path (h_session h) \<noteq> [] \<and> code = None
      \<and> last (ch_out (b_chan (h_backend h'))) = put_msg c SESSION_STATUS @ enc_bool c True"
  using assms
  by (auto simp: h_accept_def Let_def split: prod.splits option.splits if_splits)


lemma env_ok_entries [simp]: "env_ok e \<Longrightarrow> env_ok (fold env_entry l e)"
  by (induction l arbitrary: e) (simp_all add: env_entry_def Let_def)

lemma env_ok_getEnv [simp]: "env_ok (ph_getEnv L b)"
  by (simp add: ph_getEnv_def split: option.splits)

lemma env_get_user_environment:
  "env_get (user_environment (Some p) e) k =
     (if k = ''QT_NO_XDG_DESKTOP_PORTAL'' \<and> env_value e ''XDG_SESSION_CLASS'' = ''greeter'' then Some ''1''
      else if k = ''HOME'' \<or> k = ''PWD'' then Some (pw_dir p)
      else if k = ''SHELL'' then Some (pw_shell p)
      else if k = ''USER'' \<or> k = ''LOGNAME'' then Some (pw_name p)
      else env_get e k)"
  by (simp add: user_environment_def Let_def)

lemma pb_openSession_env:
  assumes "pb_openSession c L cfg getpwnam up user s b = Some (True, s', b')"
  shows "us_env s' = user_environment (getpwnam user) (env_insert_all (us_env s) (ph_getEnv L b'))"
proof -
  have "us_env (snd (us_start cfg up x)) = us_env x" for x
    by (cases "us_start cfg up x") (simp add: us_start_result)
  with assms show ?thesis
    unfolding pb_openSession_def Let_def
    by (auto split: option.splits prod.splits if_splits simp: prod_eq_iff simp del: us_start_def) 
qed

text \<open>The environment a session is started with.  What the password database says of
  the user (\<open>HOME\<close>, \<open>PWD\<close>, \<open>SHELL\<close>, \<open>USER\<close>, \<open>LOGNAME\<close>) is over
  what the PAM modules set, and that is over what the daemon sent; no other variable is lost or
  added, except that a greeter is kept off the desktop portal.\<close>

theorem session_environment:
  assumes "pb_openSession c L cfg getpwnam up user s b = Some (True, s', b')" "getpwnam user = Some p"
  shows "env_get (us_env s') k =
    (let inherited = env_insert_all (us_env s) (ph_getEnv L b')
     in if k = ''QT_NO_XDG_DESKTOP_PORTAL'' \<and> env_value inherited ''XDG_SESSION_CLASS'' = ''greeter'' then Some ''1''
        else if k = ''HOME'' \<or> k = ''PWD'' then Some (pw_dir p)
        else if k = ''SHELL'' then Some (pw_shell p)
        else if k = ''USER'' \<or> k = ''LOGNAME'' then Some (pw_name p)
        else case env_get (ph_getEnv L b') k of None \<Rightarrow> env_get (us_env s) k | Some v \<Rightarrow> Some v)"
  using pb_openSession_env [OF assms(1)]
  by (simp only: assms(2) env_get_user_environment env_get_insert_all [OF env_ok_getEnv] Let_def)


lemma env_value_sample: 
  "env_value (env_insert_all [(''XDG_SESSION_TYPE'', ''wayland'')] (ph_getEnv (sample_pam pw acct) b)) ''XDG_SESSION_TYPE'' = ''wayland''"
  by (simp add: env_value_def env_get_insert_all ph_getEnv_def sample_pam_def env_entry_def Let_def q_left_def q_mid_def
      env_get_Cons split: option.splits)

lemma env_value_user_environment:
  "k \<notin> {''QT_NO_XDG_DESKTOP_PORTAL'', ''HOME'', ''PWD'', ''SHELL'', ''USER'', ''LOGNAME''} \<Longrightarrow>
     env_value (user_environment (Some p) e) k = env_value e k"
  by (simp add: env_value_def env_get_user_environment)

lemma us_start_wayland:
  "env_value e ''XDG_SESSION_TYPE'' = ''wayland'' \<Longrightarrow>
     us_start cfg True (s\<lparr>us_env := e\<rparr>) = (True, s\<lparr>us_env := e, us_program := WAYLAND_SESSION_COMMAND cfg,
       us_arguments := [us_path s], us_running := True\<rparr>)"
  by (simp add: us_start_def Let_def)

lemma sample_set_items:
  "pb_set_items L [(''XDG_SESSION_TYPE'', ''wayland'')] b = b"
  by (simp add: pb_set_items_def env_contains_def env_value_def env_get_Cons Let_def)

lemma sample_putEnv: "\<exists>r. ph_putEnv (sample_pam pw acct) l b = (True, b\<lparr>b_result := r\<rparr>)"
proof (induction l arbitrary: b)
  case Nil
  show ?case by (auto intro: exI [of _ "b_result b"])
next
  case (Cons x l)
  have "ph_simple (lib_putenv (sample_pam pw acct) x) b = (True, b\<lparr>b_result := PAM_SUCCESS\<rparr>)"
    by (simp add: ph_simple_def sample_pam_def)
  with Cons [of "b\<lparr>b_result := PAM_SUCCESS\<rparr>"] show ?case by simp
qed

lemma sample_cred:
  "ph_setCred sd_qds (sample_pam pw acct) fl b = Some (True, b\<lparr>b_result := PAM_SUCCESS\<rparr>)"
  "ph_openSession sd_qds (sample_pam pw acct) b = Some (True, b\<lparr>b_result := PAM_SUCCESS, b_open := True\<rparr>)"
  by (simp_all add: ph_setCred_def ph_openSession_def ph_call_def sample_pam_def)

lemma sample_openSession:
  assumes "us_env s = [(''XDG_SESSION_TYPE'', ''wayland'')]"
  shows "\<exists>s' b'. pb_openSession sd_qds (sample_pam pw acct) cfg (\<lambda>_. Some sample_passwd) True user s b
     = Some (True, s', b') \<and> us_running s'"
proof -
  let ?e = "\<lambda>b. user_environment (Some sample_passwd) (env_insert_all [(''XDG_SESSION_TYPE'', ''wayland'')] (ph_getEnv (sample_pam pw acct) b))"
  have e: "env_value (?e b) ''XDG_SESSION_TYPE'' = ''wayland''" for b
    by (subst env_value_user_environment) (simp_all only: env_value_sample, simp)
  have w: "us_start cfg True (s\<lparr>us_env := ?e b\<rparr>) = (True, s\<lparr>us_env := ?e b, us_program := WAYLAND_SESSION_COMMAND cfg, us_arguments := [us_path s], us_running := True\<rparr>)" for b
    by (rule us_start_wayland [OF e])
  obtain r where p: "ph_putEnv (sample_pam pw acct) (env_strings [(''XDG_SESSION_TYPE'', ''wayland'')]) (b\<lparr>b_result := PAM_SUCCESS\<rparr>)
     = (True, b\<lparr>b_result := PAM_SUCCESS, b_result := r\<rparr>)"
    using sample_putEnv by blast
  show ?thesis
    by (simp only: pb_openSession_def sample_cred option.case prod.case Let_def assms sample_set_items p w
        simp_thms if_False if_True) simp
qed

lemma session_environment_witness:
  "\<exists>s' b'. pb_openSession sd_qds (sample_pam ''secret'' 0) sample_cfg (\<lambda>_. Some sample_passwd) True ''joe''
       (init_session\<lparr>us_env := [(''XDG_SESSION_TYPE'', ''wayland'')]\<rparr>) (h_backend sample_helper) = Some (True, s', b')
     \<and> env_get (us_env s') ''HOME'' = Some ''/home/joe''"
proof -
  obtain s' b' where r: "pb_openSession sd_qds (sample_pam ''secret'' 0) sample_cfg (\<lambda>_. Some sample_passwd) True ''joe''
       (init_session\<lparr>us_env := [(''XDG_SESSION_TYPE'', ''wayland'')]\<rparr>) (h_backend sample_helper) = Some (True, s', b')"
    using sample_openSession [of "init_session\<lparr>us_env := [(''XDG_SESSION_TYPE'', ''wayland'')]\<rparr>" "''secret''" 0 sample_cfg "''joe''"
      "h_backend sample_helper"] by auto
  from session_environment [OF r, of sample_passwd "''HOME''"] r show ?thesis
    by (simp add: sample_passwd_def)
qed



end
