(* ===== verification/Helper_Args.thy ===== *)
theory Helper_Args
  imports Helper_App Auth_Daemon
begin

text \<open>
  The command line between the two programs: what \<open>Auth::start\<close> writes
  (\<open>src/auth/Auth.cpp\<close>) is what \<open>HelperApp::setUp\<close> reads
  (\<open>src/helper/HelperApp.cpp\<close>), as long as no value looks like an option.
\<close>

lemma option_value_Nil [simp]: "option_value n [] = Inr None"
  by (simp add: option_value_def)

lemma option_value_hit [simp]: "option_value n (n # v # rest) = Inr (Some v)"
  by (simp add: option_value_def Let_def)

lemma option_value_last: "n \<notin> set args \<Longrightarrow> option_value n (args @ [n]) = Inl ()"
  by (simp add: option_value_def Let_def)

lemma option_value_skip [simp]: "n \<noteq> m \<Longrightarrow> option_value n (m # rest) = option_value n rest"
proof (cases "n \<in> set rest")
  case True
  moreover from True have "0 \<le> index_of n rest" by simp
  then have "nat (index_of n rest + 2) = Suc (nat (index_of n rest + 1))" by linarith
  ultimately show "n \<noteq> m \<Longrightarrow> ?thesis" by (auto simp: option_value_def Let_def add.commute)
next
  case False
  then show "n \<noteq> m \<Longrightarrow> ?thesis" by (simp add: option_value_def index_of_notin)
qed

definition helper_options :: "string set" where
  "helper_options = {''--socket'', ''--id'', ''--start'', ''--user'', ''--display-server'', ''--autologin'', ''--greeter''}"

lemma number_not_option: "0 \<le> i \<Longrightarrow> number i \<notin> helper_options"
  by (auto simp: helper_options_def number_not_dash)

text \<open>The shape of the argument list, for any seven distinct option names.\<close>

lemma option_values:
  assumes "distinct [so, ii, st, us, di, au, gr]"
    and "v1 \<notin> {so, ii, st, us, di, au, gr}" "v2 \<notin> {so, ii, st, us, di, au, gr}"
    and "v3 \<notin> {so, ii, st, us, di, au, gr}" "v4 \<notin> {so, ii, st, us, di, gr}"
    and "args = [so, v1, ii, v2] @ (if p then [st, v3] else []) @ (if q then [us, v4] else [])
     @ (if f then [au] else []) @ (if g then [gr] else [])"
  shows "option_value so args = Inr (Some v1)" "option_value ii args = Inr (Some v2)"
    "option_value st args = Inr (if p then Some v3 else None)"
    "option_value us args = Inr (if q then Some v4 else None)"
    "option_value di args = Inr None"
    "au \<in> set args \<longleftrightarrow> f \<or> q \<and> v4 = au" "gr \<in> set args \<longleftrightarrow> g"
  using assms by auto

lemma options_distinct:
  "distinct [''--socket'', ''--id'', ''--start'', ''--user'', ''--display-server'', ''--autologin'', ''--greeter'']"
  by code_simp

lemmas args_values =
  option_values [OF options_distinct, folded helper_options_def, OF _ _ _ _ auth_args_def]

lemma setUp_values:
  assumes "option_value ''--socket'' args = Inr v1" "option_value ''--id'' args = Inr v2"
    "option_value ''--start'' args = Inr v3" "option_value ''--user'' args = Inr v4"
    "option_value ''--display-server'' args = Inr v5"
  shows "helper_setUp args h =
    (let h5 = h_set_flags args (set_value (\<lambda>x h. h\<lparr>h_user := x\<rparr>) v4
       (set_value (\<lambda>x h. h\<lparr>h_session := (h_session h)\<lparr>us_path := x\<rparr>\<rparr>) v3
         (set_value (\<lambda>x h. h\<lparr>h_id := to_long_long x\<rparr>) v2 (set_value (\<lambda>x h. h\<lparr>h_server := x\<rparr>) v1 h))))
     in if h_server h5 = [] \<or> h_id h5 \<le> 0 then (h5, Some HELPER_OTHER_ERROR) else (h5, None))"
  by (simp only: helper_setUp_def assms sum.case Let_def)

lemma setUp_args:
  assumes "server \<noteq> []" "0 < au_id a" "au_id a < 2 ^ 63"
    and "server \<notin> helper_options" "au_sessionPath a \<notin> helper_options"
    and "au_user a \<notin> helper_options - {''--autologin''}"
  shows "\<exists>h. helper_setUp (auth_args server a) (init_helper p ch) = (h, None)
    \<and> h_id h = au_id a \<and> h_server h = server \<and> h_user h = au_user a
    \<and> us_path (h_session h) = au_sessionPath a
    \<and> b_autologin (h_backend h) = (au_autologin a \<or> au_user a = ''--autologin'')
    \<and> b_greeter (h_backend h) = au_greeter a"
proof -
  have n: "number (au_id a) \<notin> helper_options" using assms(2) number_not_option by simp
  have u: "au_user a \<notin> {''--socket'', ''--id'', ''--start'', ''--user'', ''--display-server'', ''--greeter''}"
    using assms(6) by (auto simp: helper_options_def)
  note v = args_values [OF assms(4) n assms(5) u]
  have e: "au_user a \<noteq> [] \<and> au_user a = ''--autologin'' \<longleftrightarrow> au_user a = ''--autologin''" by auto
  show ?thesis
    unfolding setUp_values [OF v(1-5)] h_set_flags_def index_of_nonneg_iff v(6,7) e
    using assms(1-3) to_long_long_number [of "au_id a"]
    by (simp add: Let_def set_value_def init_helper_def init_backend_def init_session_def
        pb_setAutologin_def pb_setGreeter_def)
qed

text \<open>Property C5: the helper's command line round trips.  With a server name and an id in range, and
  no value that is itself an option name, \<open>setUp\<close> accepts what \<open>Auth::start\<close> passes and ends
  with exactly the daemon's id, server, user, session path and flags.\<close>

theorem command_line_roundtrip:
  assumes "server \<noteq> []" "0 < au_id a" "au_id a < 2 ^ 63"
    and "server \<notin> helper_options" "au_sessionPath a \<notin> helper_options" "au_user a \<notin> helper_options"
  shows "case helper_setUp (auth_args server a) (init_helper p ch) of (h, code) \<Rightarrow>
    code = None \<and> h_id h = au_id a \<and> h_server h = server \<and> h_user h = au_user a
    \<and> us_path (h_session h) = au_sessionPath a
    \<and> b_autologin (h_backend h) = au_autologin a \<and> b_greeter (h_backend h) = au_greeter a"
  using setUp_args [OF assms(1-5), of p ch] assms(6) by (auto simp: helper_options_def)

definition sample_auth :: Auth where
  "sample_auth = (fst (auth_new None [] 3))\<lparr>au_user := ''joe'', au_sessionPath := ''startplasma-wayland'', au_autologin := True\<rparr>"

lemma sample_auth_sel:
  "au_id sample_auth = 3" "au_user sample_auth = ''joe''" "au_sessionPath sample_auth = ''startplasma-wayland''"
  "au_autologin sample_auth" "\<not> au_greeter sample_auth"
  by (simp_all add: sample_auth_def auth_new_def)

lemma command_line_roundtrip_witness:
  "case helper_setUp (auth_args ''plasmalogin-auth-1'' sample_auth) (init_helper (0 :: nat) \<lparr>ch_out = [], ch_in = []\<rparr>) of (h, code) \<Rightarrow>
    code = None \<and> h_user h = ''joe'' \<and> b_autologin (h_backend h) \<and> \<not> b_greeter (h_backend h)"
  using sample_auth_sel command_line_roundtrip [of "''plasmalogin-auth-1''" sample_auth "0 :: nat" "\<lparr>ch_out = [], ch_in = []\<rparr>"]
  by (auto simp: helper_options_def)

text \<open>A value that is an option name is taken for the option.  A user called
  \<open>--autologin\<close>, whom the greeter may name freely, makes the helper use the autologin PAM service although
  the daemon asked for an ordinary login.\<close>

theorem user_named_autologin:
  assumes "au_user a = ''--autologin''"
    and "server \<notin> helper_options" "au_sessionPath a \<notin> helper_options" "server \<noteq> []" "0 < au_id a" "au_id a < 2 ^ 63"
  shows "case helper_setUp (auth_args server a) (init_helper p ch) of (h, code) \<Rightarrow>
    code = None \<and> b_autologin (h_backend h)
    \<and> pam_service (b_greeter (h_backend h)) (b_autologin (h_backend h)) (h_user h) = ''plasmalogin-autologin''"
  using setUp_args [OF assms(4-6,2,3), of p ch] assms(1) by (auto simp: pam_service_def)

lemma user_named_autologin_witness:
  "case helper_setUp (auth_args ''s'' (sample_auth\<lparr>au_user := ''--autologin'', au_autologin := False\<rparr>)) (init_helper (0 :: nat) \<lparr>ch_out = [], ch_in = []\<rparr>) of (h, code) \<Rightarrow>
    code = None \<and> b_autologin (h_backend h)"
  using user_named_autologin [of "sample_auth\<lparr>au_user := ''--autologin'', au_autologin := False\<rparr>" "''s''" "0 :: nat" "\<lparr>ch_out = [], ch_in = []\<rparr>"]
  by (simp add: sample_auth_def auth_new_def helper_options_def split: prod.splits)

text \<open>An option with no value after it, an id that is not positive or a missing server makes
  \<open>setUp\<close> give up with \<open>HELPER_OTHER_ERROR\<close>; it never goes on with such a command line.\<close>

theorem setUp_accepts_only_complete:
  assumes "helper_setUp args (init_helper p ch) = (h, None)"
  shows "h_server h \<noteq> [] \<and> 0 < h_id h
    \<and> (\<forall>n \<in> {''--socket'', ''--id'', ''--start'', ''--user'', ''--display-server''}. option_value n args \<noteq> Inl ())"
  using assms by (auto simp: helper_setUp_def Let_def split: sum.splits if_splits)

lemma setUp_accepts_only_complete_witness:
  "case helper_setUp (auth_args ''s'' sample_auth) (init_helper (0 :: nat) \<lparr>ch_out = [], ch_in = []\<rparr>) of
     (h, Some _) \<Rightarrow> False | (h, None) \<Rightarrow> h_server h \<noteq> [] \<and> 0 < h_id h"
proof -
  from sample_auth_sel setUp_args [of "''s''" sample_auth "0 :: nat" "\<lparr>ch_out = [], ch_in = []\<rparr>"]
  obtain h where "helper_setUp (auth_args ''s'' sample_auth) (init_helper (0 :: nat) \<lparr>ch_out = [], ch_in = []\<rparr>) = (h, None)"
    by (auto simp: helper_options_def)
  from setUp_accepts_only_complete [OF this] this show ?thesis by simp
qed

end
