(* ===== verification/Startup.thy ===== *)
theory Startup
  imports Prelude
begin

text \<open>
  The first process of the greeter's session (\<open>src/frontend/startkde/startplasma.cpp\<close>,
  \<open>startplasmalogin-wayland.cpp\<close>): it prepares its environment, hands it to D-Bus and systemd, starts the session's
  target, waits, and stops it again.

  The systemd user manager is a parameter: a state, what a \<open>Get\<close> of its property \<open>Environment\<close> answers, and what
  the calls do to the state.  The contract \<open>systemd_ok\<close> is what its documentation says of them.
\<close>

section \<open>Kinds of variables\<close>

definition isShellVariable :: "string \<Rightarrow> bool" where
  "isShellVariable name \<longleftrightarrow> name = ''_'' \<or> name = ''SHELL'' \<or> starts_with ''SHLVL'' name"

definition isConfinementVariable :: "string \<Rightarrow> bool" where
  "isConfinementVariable name \<longleftrightarrow> name = ''SNAP'' \<or> starts_with ''SNAP_'' name"

definition isSessionVariable :: "string \<Rightarrow> bool" where
  "isSessionVariable name \<longleftrightarrow> name = ''DISPLAY'' \<or> name = ''XAUTHORITY'' \<or> name = ''WAYLAND_DISPLAY''
     \<or> name = ''WAYLAND_SOCKET'' \<or> starts_with ''XDG_'' name"

section \<open>The process\<close>

text \<open>
  What the code sees of the configuration: \<open>readEntry\<close> of \<open>plasma-localerc\<close> by group and key (\<open>None\<close>: there is no such
  key), the result of locale1's \<open>GetAll\<close> (\<open>None\<close>: not a reply), the writable configuration directory, the look and
  feel package and the first line of the file that names the active one, and the colour scheme: its file, the hash of the
  file (\<open>None\<close>: it cannot be read) and the hash written down before.  \<open>f_xcursorPath\<close> is the macro \<open>XCURSOR_PATH\<close> of the
  build, when it is defined; \<open>f_cursor\<close> the theme and the size of the cursor in \<open>kcminputrc\<close>.
\<close>

text \<open>\<open>KLookAndFeelManager::Contents\<close>, as far as the code names it.\<close>

datatype lookandfeel_contents = AppearanceSettings | AllSettings

record startup_files =
  f_locale :: "string \<Rightarrow> string \<Rightarrow> string option"
  f_locale1 :: "(string \<Rightarrow> string option) option"
  f_configDir :: string
  f_lookAndFeel :: string
  f_activeLnf :: string
  f_colorScheme :: string
  f_colorSchemeFile :: string
  f_colorHash :: "string option"
  f_writtenHash :: string
  f_xcursorPath :: "string option"
  f_cursor :: "string \<times> int"

datatype startup_effect =
    MkPath string
  | WriteLang string
  | SaveLookAndFeel string lookandfeel_contents
  | SetColors string string
  | WriteColorHash string
  | StartUnit string
  | StopUnit string
  | ResetFailed
  | EventLoop
  | RunProcess string "string list" "string list"

record 's startup =
  su_env :: env
  su_systemd :: 's
  su_out :: "startup_effect list"

definition su_log :: "startup_effect \<Rightarrow> 's startup \<Rightarrow> 's startup" where
  "su_log x s = s\<lparr>su_out := su_out s @ [x]\<rparr>"

definition qputenv :: "string \<Rightarrow> string \<Rightarrow> 's startup \<Rightarrow> 's startup" where
  "qputenv name v s = s\<lparr>su_env := env_insert name v (su_env s)\<rparr>"

definition setEnvironmentVariable :: "string \<Rightarrow> string \<Rightarrow> 's startup \<Rightarrow> 's startup" where
  "setEnvironmentVariable name v s = (if env_get (su_env s) name \<noteq> Some v then qputenv name v s else s)"

definition createConfigDirectory :: "startup_files \<Rightarrow> 's startup \<Rightarrow> 's startup" where
  "createConfigDirectory F s = su_log (MkPath (f_configDir F)) s"

section \<open>Programs and the cursor\<close>

text \<open>\<open>runSync\<close>: the program inherits the environment, with the further assignments after it; its exit code is the result.\<close>

definition runSync :: "(string \<Rightarrow> string list \<Rightarrow> int) \<Rightarrow> string \<Rightarrow> string list \<Rightarrow> string list \<Rightarrow> 's startup \<Rightarrow> int \<times> 's startup" where
  "runSync exit_code program args env s = (exit_code program args, su_log (RunProcess program args env) s)"

text \<open>\<open>replace\<close>: every occurrence of a string that is not empty, from left to right.\<close>

function replace_all :: "string \<Rightarrow> string \<Rightarrow> string \<Rightarrow> string" where
  "replace_all old new s =
     (if old = [] \<or> s = [] then s
      else if starts_with old s then new @ replace_all old new (drop (length old) s)
      else hd s # replace_all old new (tl s))"
  by pat_completeness auto
termination
  by (relation "measure (\<lambda>(old, new, s). length s)") auto

declare replace_all.simps [simp del]

definition setupCursor :: "startup_files \<Rightarrow> (string \<Rightarrow> string list \<Rightarrow> int) \<Rightarrow> bool \<Rightarrow> 's startup \<Rightarrow> 's startup" where
  "setupCursor F exit_code wayland s =
     (let s1 = (case f_xcursorPath F of
            None \<Rightarrow> s
          | Some path \<Rightarrow> qputenv ''XCURSOR_PATH'' (replace_all ''$XCURSOR_PATH'' (env_value (su_env s) ''XCURSOR_PATH'') path) s)
      in if wayland then s1
         else snd (runSync exit_code ''kapplymousetheme'' [fst (f_cursor F), number (snd (f_cursor F))] [] s1))"

section \<open>The locale\<close>

definition lcValues :: "string list" where
  "lcValues = [''LANG'', ''LC_ADDRESS'', ''LC_COLLATE'', ''LC_CTYPE'', ''LC_IDENTIFICATION'', ''LC_MONETARY'', ''LC_MESSAGES'',
     ''LC_MEASUREMENT'', ''LC_NAME'', ''LC_NUMERIC'', ''LC_PAPER'', ''LC_TELEPHONE'', ''LC_TIME'', ''LC_ALL'']"

definition read_value :: "startup_files \<Rightarrow> string \<Rightarrow> string \<Rightarrow> string" where
  "read_value F grp key = (case f_locale F grp key of None \<Rightarrow> [] | Some v \<Rightarrow> v)"

definition put_nonempty :: "string \<Rightarrow> string \<Rightarrow> 's startup \<Rightarrow> 's startup" where
  "put_nonempty name v s = (if v \<noteq> [] then qputenv name v s else s)"

definition runStartupConfig :: "startup_files \<Rightarrow> 's startup \<Rightarrow> 's startup" where
  "runStartupConfig F s0 =
     (let s1 = fold (\<lambda>lc. put_nonempty lc (read_value F ''Formats'' lc)) lcValues s0;
          s2 = put_nonempty ''LANGUAGE'' (read_value F ''Translations'' ''LANGUAGE'') s1
      in if f_locale F ''Formats'' ''LANG'' = None \<and> env_value (su_env s2) ''LANG'' \<noteq> []
         then su_log (WriteLang (env_value (su_env s2) ''LANG'')) s2 else s2)"

text \<open>The keyboard of the system, as locale1 knows it.\<close>

definition queryAndSet :: "(string \<Rightarrow> string option) \<Rightarrow> string \<times> string \<Rightarrow> 's startup \<Rightarrow> 's startup" where
  "queryAndSet result vk s = (let (var, key) = vk in put_nonempty var (case result key of None \<Rightarrow> [] | Some v \<Rightarrow> v) s)"

definition xkbDefaults :: "(string \<times> string) list" where
  "xkbDefaults = [(''XKB_DEFAULT_MODEL'', ''X11Model''), (''XKB_DEFAULT_LAYOUT'', ''X11Layout''),
     (''XKB_DEFAULT_VARIANT'', ''X11Variant''), (''XKB_DEFAULT_OPTIONS'', ''X11Options'')]"

definition queryLocale1 :: "startup_files \<Rightarrow> 's startup \<Rightarrow> 's startup" where
  "queryLocale1 F s = (case f_locale1 F of None \<Rightarrow> s | Some result \<Rightarrow> fold (queryAndSet result) xkbDefaults s)"

section \<open>Plasma's own variables\<close>

text \<open>The switch between day and night is commented out in the code.\<close>

definition determineLookAndFeel :: "startup_files \<Rightarrow> string \<times> lookandfeel_contents" where
  "determineLookAndFeel F = (f_lookAndFeel F, AllSettings)"

definition setupPlasmaEnvironment :: "startup_files \<Rightarrow> 's startup \<Rightarrow> 's startup" where
  "setupPlasmaEnvironment F s0 =
     (let s1 = qputenv ''KDE_APPLICATIONS_AS_SCOPE'' ''1''
            (qputenv ''QT_QPA_PLATFORMTHEME'' ''kde'' (qputenv ''QT_AUTO_SCREEN_SCALE_FACTOR'' ''0'' s0));
          currentConfigDirs = (let v = env_value (su_env s1) ''XDG_CONFIG_DIRS'' in if v = [] then ''/etc/xdg'' else v);
          extraConfigDir = f_configDir F @ ''/kdedefaults'';
          s2 = qputenv ''XDG_CONFIG_DIRS'' (extraConfigDir @ '':'' @ currentConfigDirs) (su_log (MkPath extraConfigDir) s1);
          (lookAndFeelName, lookAndFeelContents) = determineLookAndFeel F;
          s3 = (if f_activeLnf F \<noteq> lookAndFeelName then su_log (SaveLookAndFeel lookAndFeelName lookAndFeelContents) s2 else s2)
      in if f_colorSchemeFile F = [] then s3
         else case f_colorHash F of
                None \<Rightarrow> s3
              | Some fileHash \<Rightarrow>
                  if fileHash \<noteq> f_writtenHash F then su_log (WriteColorHash fileHash) (su_log (SetColors (f_colorScheme F) (f_colorSchemeFile F)) s3)
                  else s3)"

section \<open>systemd\<close>

datatype get_reply = ErrorMessage | WrongType | Assignments "string list"

record 's systemd =
  sd_get :: "'s \<Rightarrow> get_reply"
  sd_unset :: "string list \<Rightarrow> 's \<Rightarrow> 's"
  sd_unset_and_set :: "string list \<Rightarrow> string list \<Rightarrow> 's \<Rightarrow> 's"
  sd_update :: "env \<Rightarrow> 's \<Rightarrow> 's"

text \<open>An assignment as systemd sends it, and as the code takes it apart.\<close>

definition assignment :: "string \<times> string \<Rightarrow> string" where
  "assignment kv = fst kv @ ''='' @ snd kv"

definition insert_assignment :: "string \<Rightarrow> env \<Rightarrow> env" where
  "insert_assignment a e =
     (let idx = index_of CHR ''='' a in if 0 < idx then env_insert (q_left a idx) (q_mid a (idx + 1)) e else e)"

definition getSystemdEnvironment :: "'s systemd \<Rightarrow> 's \<Rightarrow> env option" where
  "getSystemdEnvironment D m =
     (case sd_get D m of
        ErrorMessage \<Rightarrow> None
      | WrongType \<Rightarrow> None
      | Assignments as \<Rightarrow> Some (fold insert_assignment as []))"

definition importSystemdEnvrionment :: "'s systemd \<Rightarrow> 's startup \<Rightarrow> 's startup" where
  "importSystemdEnvrionment D s =
     (case getSystemdEnvironment D (su_systemd s) of
        None \<Rightarrow> s
      | Some environment \<Rightarrow>
          fold (\<lambda>name s. if \<not> isShellVariable name \<and> \<not> isSessionVariable name
              then setEnvironmentVariable name (env_value environment name) s else s) (env_keys environment) s)"

definition dropSessionVarsFromSystemdEnvironment :: "'s systemd \<Rightarrow> 's startup \<Rightarrow> 's startup" where
  "dropSessionVarsFromSystemdEnvironment D s =
     (case getSystemdEnvironment D (su_systemd s) of
        None \<Rightarrow> s
      | Some environment \<Rightarrow>
          let varsToDrop = filter (\<lambda>name. \<not> env_contains (su_env s) name \<and> isSessionVariable name) (env_keys environment)
          in s\<lparr>su_systemd := sd_unset D varsToDrop (su_systemd s)\<rparr>)"

definition launch_environment :: "env \<Rightarrow> env" where
  "launch_environment environment =
     fold (\<lambda>name e. if isShellVariable name \<or> isConfinementVariable name then env_remove name e else e)
       (env_keys environment) environment"

definition syncDBusEnvironment :: "'s systemd \<Rightarrow> 's startup \<Rightarrow> bool \<times> 's startup" where
  "syncDBusEnvironment D s =
     (let s1 = dropSessionVarsFromSystemdEnvironment D s
      in (True, s1\<lparr>su_systemd := sd_update D (launch_environment (su_env s1)) (su_systemd s1)\<rparr>))"

definition cleanupPlasmaEnvironment :: "'s systemd \<Rightarrow> env option \<Rightarrow> 's startup \<Rightarrow> 's startup" where
  "cleanupPlasmaEnvironment D oldSystemdEnvironment s =
     (case oldSystemdEnvironment of
        None \<Rightarrow> s
      | Some old \<Rightarrow>
          (case getSystemdEnvironment D (su_systemd s) of
             None \<Rightarrow> s
           | Some current \<Rightarrow>
               s\<lparr>su_systemd := sd_unset_and_set D (env_keys current) (map assignment old) (su_systemd s)\<rparr>))"

definition resetSystemdFailedUnits :: "'s startup \<Rightarrow> 's startup" where
  "resetSystemdFailedUnits s = su_log ResetFailed s"

section \<open>The main function\<close>

text \<open>The environment saved before the synchronisation is the second result: the code does nothing more with it.\<close>

definition startup_main ::
  "startup_files \<Rightarrow> (string \<Rightarrow> string list \<Rightarrow> int) \<Rightarrow> 's systemd \<Rightarrow> 's startup \<Rightarrow> int \<times> env option \<times> 's startup" where
  "startup_main F exit_code D s0 =
     (let s1 = queryLocale1 F (qputenv ''QT_WAYLAND_RECONNECT'' ''1'' (setupCursor F exit_code True (createConfigDirectory F s0)));
          s2 = runStartupConfig F (setupPlasmaEnvironment F s1);
          oldSystemdEnvironment = getSystemdEnvironment D (su_systemd s2);
          (synced, s3) = syncDBusEnvironment D s2
      in if \<not> synced then (1, oldSystemdEnvironment, s3)
         else (0, oldSystemdEnvironment,
               su_log (StopUnit ''plasma-login-kwin_wayland.service'') (su_log (StopUnit ''plasma-login-wayland.target'')
                 (su_log EventLoop (su_log (StartUnit ''plasma-login-wayland.target'') s3)))))"

section \<open>Processes and services\<close>

text \<open>The handler of \<open>SIGTERM\<close>: the event loop ends with this code, when there is an application.\<close>

definition sigtermHandler :: "bool \<Rightarrow> int option" where
  "sigtermHandler has_instance = (if has_instance then Some (-1) else None)"

text \<open>\<open>gentleTermination\<close>: \<open>finishes\<close> answers the two waits of five seconds.\<close>

datatype process_call = Terminate | Kill | WarnUnfinished

definition gentleTermination :: "bool \<Rightarrow> bool \<times> bool \<Rightarrow> process_call list" where
  "gentleTermination running finishes =
     (if \<not> running then []
      else Terminate # (if \<not> fst finishes then Kill # (if \<not> snd finishes then [WarnUnfinished] else []) else []))"

definition allServices :: "string list \<Rightarrow> string \<Rightarrow> string list" where
  "allServices services prefx = filter (starts_with prefx) services"

section \<open>What systemd promises\<close>

text \<open>Environments whose assignments can be taken apart again.\<close>

definition good_env :: "env \<Rightarrow> bool" where
  "good_env e \<longleftrightarrow> env_ok e \<and> (\<forall>k \<in> set (env_keys e). k \<noteq> [] \<and> CHR ''='' \<notin> set k)"

lemma good_env_Nil [simp]: "good_env []"
  by (simp add: good_env_def env_keys_def)

lemma good_env_insert: "good_env e \<Longrightarrow> k \<noteq> [] \<Longrightarrow> CHR ''='' \<notin> set k \<Longrightarrow> good_env (env_insert k v e)"
  by (simp add: good_env_def env_keys_insert)

lemma good_env_remove: "good_env e \<Longrightarrow> good_env (env_remove k e)"
  by (simp add: good_env_def env_keys_remove)

lemma insert_assignment_ok [simp]:
  "k \<noteq> [] \<Longrightarrow> CHR ''='' \<notin> set k \<Longrightarrow> insert_assignment (assignment (k, v)) e = env_insert k v e"
  by (simp add: insert_assignment_def assignment_def q_left_def q_mid_def Let_def nat_add_distrib)

lemma index_of_take: "0 \<le> index_of c s \<Longrightarrow> c \<notin> set (take (nat (index_of c s)) s)"
proof (induction s)
  case (Cons x xs)
  then show ?case by (cases "c = x") (auto simp: nat_add_distrib take_Cons' split: if_splits)
qed simp

lemma insert_assignment_good: "good_env e \<Longrightarrow> good_env (insert_assignment a e)"
proof -
  assume e: "good_env e"
  have "take (nat (index_of CHR ''='' a)) a \<noteq> []" if "0 < index_of CHR ''='' a"
    using that by (cases a) auto
  then show ?thesis
    using e index_of_take [of "CHR ''=''" a] by (auto simp: insert_assignment_def q_left_def Let_def intro!: good_env_insert)
qed

lemma assignments_good: "good_env e \<Longrightarrow> good_env (fold insert_assignment as e)"
  by (induction as arbitrary: e) (simp_all add: insert_assignment_good)

lemma assignments_back:
  "good_env e \<Longrightarrow> env_get (fold insert_assignment (map assignment e) f) k = (case env_get e k of None \<Rightarrow> env_get f k | Some v \<Rightarrow> Some v)"
proof (induction e arbitrary: f)
  case (Cons kv e)
  obtain k' v where kv: "kv = (k', v)" by fastforce
  have g: "good_env e" "k' \<noteq> []" "CHR ''='' \<notin> set k'" "env_get e k' = None"
    using Cons.prems by (simp_all add: good_env_def env_keys_def env_ok_Cons kv)
  with Cons.IH [OF g(1), of "env_insert k' v f"] show ?case
    by (simp add: kv env_get_Cons split: option.split)
qed simp

text \<open>
  The documented behaviour: variables that are unset are gone and the others stay; of the two lists the set list wins;
  an update sets at most the variables it is given.
\<close>

definition systemd_ok :: "'s systemd \<Rightarrow> bool" where
  "systemd_ok D \<longleftrightarrow>
     (\<forall>m e. getSystemdEnvironment D m = Some e \<longrightarrow>
        (\<forall>names. \<exists>e'. getSystemdEnvironment D (sd_unset D names m) = Some e'
           \<and> (\<forall>k. env_get e' k = (if k \<in> set names then None else env_get e k)))
      \<and> (\<forall>names f. good_env f \<longrightarrow> (\<exists>e'. getSystemdEnvironment D (sd_unset_and_set D names (map assignment f) m) = Some e'
           \<and> (\<forall>k. env_get e' k = (case env_get f k of Some v \<Rightarrow> Some v | None \<Rightarrow> if k \<in> set names then None else env_get e k))))
      \<and> (\<forall>f. \<exists>e'. getSystemdEnvironment D (sd_update D f m) = Some e'
           \<and> (\<forall>k. env_get e' k = env_get e k \<or> env_get f k \<noteq> None \<and> env_get e' k = env_get f k)))"

locale systemd_manager =
  fixes D :: "'s systemd"
  assumes ok: "systemd_ok D"
begin

lemma unset:
  assumes "getSystemdEnvironment D m = Some e"
  obtains e' where "getSystemdEnvironment D (sd_unset D names m) = Some e'"
    "\<And>k. env_get e' k = (if k \<in> set names then None else env_get e k)"
  using ok assms unfolding systemd_ok_def by blast

lemma update:
  assumes "getSystemdEnvironment D m = Some e"
  obtains e' where "getSystemdEnvironment D (sd_update D f m) = Some e'"
    "\<And>k. env_get e' k = env_get e k \<or> env_get f k \<noteq> None \<and> env_get e' k = env_get f k"
  using ok assms unfolding systemd_ok_def by blast

lemma unset_and_set:
  assumes "getSystemdEnvironment D m = Some e" "good_env f"
  obtains e' where "getSystemdEnvironment D (sd_unset_and_set D names (map assignment f) m) = Some e'"
    "\<And>k. env_get e' k = (case env_get f k of Some v \<Rightarrow> Some v | None \<Rightarrow> if k \<in> set names then None else env_get e k)"
  using ok assms unfolding systemd_ok_def by blast

lemma environment_good: "getSystemdEnvironment D m = Some e \<Longrightarrow> good_env e"
  by (auto simp: getSystemdEnvironment_def assignments_good split: get_reply.splits)

lemma drop_session_variables:
  assumes "getSystemdEnvironment D (su_systemd s) = Some e"
  obtains e' where "getSystemdEnvironment D (su_systemd (dropSessionVarsFromSystemdEnvironment D s)) = Some e'"
    "\<And>k. env_get e' k = (if isSessionVariable k \<and> env_get (su_env s) k = None then None else env_get e k)"
    "su_env (dropSessionVarsFromSystemdEnvironment D s) = su_env s"
proof -
  let ?names = "filter (\<lambda>name. \<not> env_contains (su_env s) name \<and> isSessionVariable name) (env_keys e)"
  obtain e' where e': "getSystemdEnvironment D (sd_unset D ?names (su_systemd s)) = Some e'"
    "\<And>k. env_get e' k = (if k \<in> set ?names then None else env_get e k)"
    using unset [OF assms] by blast
  show thesis
    by (rule that [of e']) (use e' assms in \<open>auto simp: dropSessionVarsFromSystemdEnvironment_def env_keys_get env_contains_def\<close>)
qed

lemma cleanup_back:
  assumes "getSystemdEnvironment D m0 = Some old" "getSystemdEnvironment D (su_systemd s) = Some current"
  obtains e' where "getSystemdEnvironment D (su_systemd (cleanupPlasmaEnvironment D (Some old) s)) = Some e'"
    "\<And>k. env_get e' k = env_get old k"
proof -
  obtain e' where "getSystemdEnvironment D (sd_unset_and_set D (env_keys current) (map assignment old) (su_systemd s)) = Some e'"
    "\<And>k. env_get e' k = (case env_get old k of Some v \<Rightarrow> Some v | None \<Rightarrow> if k \<in> set (env_keys current) then None else env_get current k)"
    using unset_and_set [OF assms(2) environment_good [OF assms(1)]] by blast
  then show thesis
    by (intro that [of e']) (use assms(2) in \<open>auto simp: cleanupPlasmaEnvironment_def env_keys_get split: option.splits\<close>)
qed

end

text \<open>A manager whose state is its environment.\<close>

definition env_set_all :: "env \<Rightarrow> env \<Rightarrow> env" where
  "env_set_all f e =
     fold (\<lambda>k e. if k = [] \<or> CHR ''='' \<in> set k then e else env_insert k (env_value f k) e) (env_keys f) e"

definition parsed :: "env \<Rightarrow> env" where
  "parsed m = fold insert_assignment (map assignment m) []"

definition env_systemd :: "env systemd" where
  "env_systemd =
     \<lparr>sd_get = (\<lambda>m. Assignments (map assignment m)),
      sd_unset = (\<lambda>names m. fold env_remove names (parsed m)),
      sd_unset_and_set = (\<lambda>names as m. fold insert_assignment as (fold env_remove names (parsed m))),
      sd_update = (\<lambda>f m. env_set_all f (parsed m))\<rparr>"

lemma env_systemd_sel [simp]:
  "sd_unset env_systemd names m = fold env_remove names (parsed m)"
  "sd_unset_and_set env_systemd names as m = fold insert_assignment as (fold env_remove names (parsed m))"
  "sd_update env_systemd f m = env_set_all f (parsed m)"
  "getSystemdEnvironment env_systemd m = Some (parsed m)"
  by (simp_all add: env_systemd_def getSystemdEnvironment_def parsed_def)

lemma fold_remove_get: "env_get (fold env_remove names e) k = (if k \<in> set names then None else env_get e k)"
  by (induction names arbitrary: e) auto

lemma fold_remove_good: "good_env e \<Longrightarrow> good_env (fold env_remove names e)"
  by (induction names arbitrary: e) (simp_all add: good_env_remove)

lemma env_set_all_get:
  "env_get (env_set_all f e) k = (if k \<in> set (env_keys f) \<and> k \<noteq> [] \<and> CHR ''='' \<notin> set k then Some (env_value f k) else env_get e k)"
proof -
  have "env_get (fold (\<lambda>k e. if k = [] \<or> CHR ''='' \<in> set k then e else env_insert k (env_value f k) e) ks e) k
    = (if k \<in> set ks \<and> k \<noteq> [] \<and> CHR ''='' \<notin> set k then Some (env_value f k) else env_get e k)" for ks
    by (induction ks arbitrary: e) auto
  then show ?thesis by (simp add: env_set_all_def)
qed

lemma env_set_all_good: "good_env e \<Longrightarrow> good_env (env_set_all f e)"
proof -
  have "good_env e \<Longrightarrow> good_env (fold (\<lambda>k e. if k = [] \<or> CHR ''='' \<in> set k then e else env_insert k (env_value f k) e) ks e)" for ks
    by (induction ks arbitrary: e) (simp_all add: good_env_insert)
  then show "good_env e \<Longrightarrow> good_env (env_set_all f e)" by (simp add: env_set_all_def)
qed

lemma parsed_good: "good_env (parsed m)"
  by (simp add: parsed_def assignments_good)

lemma parsed_get: "good_env m \<Longrightarrow> env_get (parsed m) k = env_get m k"
  by (simp add: parsed_def assignments_back split: option.split)

lemma env_systemd_ok: "systemd_ok env_systemd"
  unfolding systemd_ok_def
proof (intro allI impI conjI)
  fix m e names f
  assume "getSystemdEnvironment env_systemd m = Some e"
  then have e: "e = parsed m" by simp
  show "\<exists>e'. getSystemdEnvironment env_systemd (sd_unset env_systemd names m) = Some e'
      \<and> (\<forall>k. env_get e' k = (if k \<in> set names then None else env_get e k))"
    by (simp add: e parsed_get fold_remove_good parsed_good fold_remove_get)
  show "\<exists>e'. getSystemdEnvironment env_systemd (sd_update env_systemd f m) = Some e'
      \<and> (\<forall>k. env_get e' k = env_get e k \<or> env_get f k \<noteq> None \<and> env_get e' k = env_get f k)"
    by (auto simp: e parsed_get env_set_all_good parsed_good env_set_all_get env_keys_get env_value_def)
  assume f: "good_env f"
  show "\<exists>e'. getSystemdEnvironment env_systemd (sd_unset_and_set env_systemd names (map assignment f) m) = Some e'
      \<and> (\<forall>k. env_get e' k = (case env_get f k of Some v \<Rightarrow> Some v | None \<Rightarrow> if k \<in> set names then None else env_get e k))"
    using f by (simp add: e parsed_get assignments_good fold_remove_good parsed_good assignments_back fold_remove_get
        split: option.split)
qed

interpretation es: systemd_manager env_systemd
  by unfold_locales (rule env_systemd_ok)

section \<open>What the session gets\<close>

lemma launch_environment_get:
  "env_get (launch_environment e) k = (if isShellVariable k \<or> isConfinementVariable k then None else env_get e k)"
proof -
  have "env_get (fold (\<lambda>name e. if isShellVariable name \<or> isConfinementVariable name then env_remove name e else e) ks e) k
    = (if k \<in> set ks \<and> (isShellVariable k \<or> isConfinementVariable k) then None else env_get e k)" for ks
    by (induction ks arbitrary: e) auto
  then show ?thesis by (auto simp: launch_environment_def env_keys_get)
qed

text \<open>Property C29: nothing of an earlier session is left in systemd's environment.  After the synchronisation every session
  variable systemd knows (\<open>DISPLAY\<close>, \<open>WAYLAND_DISPLAY\<close>, \<open>XDG_...\<close> and their like) is one this process has set;
  shell and confinement variables of this process are not passed on; and a variable of another kind
  that this process does not have keeps the value systemd had.\<close>

theorem no_stale_session_variables:
  assumes "systemd_ok D" "getSystemdEnvironment D (su_systemd s) = Some e"
  shows "\<exists>e'. getSystemdEnvironment D (su_systemd (snd (syncDBusEnvironment D s))) = Some e'
    \<and> (isSessionVariable k \<and> env_get (su_env s) k = None \<longrightarrow> env_get e' k = None)
    \<and> (isShellVariable k \<or> isConfinementVariable k \<longrightarrow> env_get e' k \<noteq> None \<longrightarrow> env_get e' k = env_get e k)
    \<and> (\<not> isSessionVariable k \<and> env_get (su_env s) k = None \<longrightarrow> env_get e' k = env_get e k)"
proof -
  have D: "systemd_manager D" using assms(1) by (rule systemd_manager.intro)
  let ?s1 = "dropSessionVarsFromSystemdEnvironment D s"
  obtain e1 where e1: "getSystemdEnvironment D (su_systemd ?s1) = Some e1"
    "\<And>k. env_get e1 k = (if isSessionVariable k \<and> env_get (su_env s) k = None then None else env_get e k)" "su_env ?s1 = su_env s"
    using systemd_manager.drop_session_variables [OF D assms(2)] by blast
  obtain e2 where e2: "getSystemdEnvironment D (sd_update D (launch_environment (su_env ?s1)) (su_systemd ?s1)) = Some e2"
    "\<And>k. env_get e2 k = env_get e1 k \<or> env_get (launch_environment (su_env ?s1)) k \<noteq> None
        \<and> env_get e2 k = env_get (launch_environment (su_env ?s1)) k"
    using systemd_manager.update [OF D e1(1)] by blast
  have "getSystemdEnvironment D (su_systemd (snd (syncDBusEnvironment D s))) = Some e2"
    using e2(1) by (simp add: syncDBusEnvironment_def Let_def)
  moreover have "env_get e2 k = (if isSessionVariable k \<and> env_get (su_env s) k = None then None else env_get e k)
      \<or> \<not> isShellVariable k \<and> \<not> isConfinementVariable k \<and> env_get (su_env s) k \<noteq> None"
    using e2(2) [of k] e1(2) [of k] by (auto simp: e1(3) launch_environment_get split: if_splits)
  ultimately show ?thesis by (intro exI [of _ e2]) (auto split: if_splits)
qed

lemma no_stale_session_variables_witness:
  "\<exists>e'. getSystemdEnvironment env_systemd (su_systemd (snd (syncDBusEnvironment env_systemd
       \<lparr>su_env = [(''PATH'', ''/bin'')], su_systemd = [(''DISPLAY'', '':0'')], su_out = []\<rparr>))) = Some e' \<and> env_get e' ''DISPLAY'' = None"
  using no_stale_session_variables [OF env_systemd_ok,
      of "\<lparr>su_env = [(''PATH'', ''/bin'')], su_systemd = [(''DISPLAY'', '':0'')], su_out = []\<rparr>" "parsed [(''DISPLAY'', '':0'')]" "''DISPLAY''"]
  by (auto simp: isSessionVariable_def env_get_Cons)

text \<open>The clean-up restores systemd's environment.  Whatever has been done to it since, after
  \<open>cleanupPlasmaEnvironment\<close> with the environment saved at the start systemd has exactly the variables it had then, with
  their values.  (The main function saves the environment and never calls the clean-up.)\<close>

theorem cleanup_restores_environment:
  assumes "systemd_ok D" "getSystemdEnvironment D m0 = Some old" "getSystemdEnvironment D (su_systemd s) = Some current"
  shows "\<exists>e'. getSystemdEnvironment D (su_systemd (cleanupPlasmaEnvironment D (getSystemdEnvironment D m0) s)) = Some e'
    \<and> (\<forall>k. env_get e' k = env_get old k)"
  using systemd_manager.cleanup_back [OF systemd_manager.intro [OF assms(1)] assms(2,3)] assms(2) by metis

lemma cleanup_restores_environment_witness:
  "\<exists>e'. getSystemdEnvironment env_systemd (su_systemd (cleanupPlasmaEnvironment env_systemd
       (getSystemdEnvironment env_systemd [(''A'', ''1'')]) \<lparr>su_env = [], su_systemd = [(''B'', ''2'')], su_out = []\<rparr>)) = Some e'
    \<and> (\<forall>k. env_get e' k = env_get (parsed [(''A'', ''1'')]) k)"
  by (rule cleanup_restores_environment [OF env_systemd_ok]) simp_all

text \<open>Importing: systemd's value wins for every variable that belongs to neither the shell nor a session.\<close>

lemma setEnvironmentVariable_get:
  "env_get (su_env (setEnvironmentVariable n v s)) k = (if k = n then Some v else env_get (su_env s) k)"
  by (simp add: setEnvironmentVariable_def qputenv_def)

lemma import_environment:
  assumes "getSystemdEnvironment D (su_systemd s) = Some e"
  shows "env_get (su_env (importSystemdEnvrionment D s)) k =
    (if isShellVariable k \<or> isSessionVariable k \<or> env_get e k = None then env_get (su_env s) k else env_get e k)"
proof -
  have "env_get (su_env (fold (\<lambda>name s. if \<not> isShellVariable name \<and> \<not> isSessionVariable name
        then setEnvironmentVariable name (env_value e name) s else s) ks s)) k
    = (if k \<in> set ks \<and> \<not> isShellVariable k \<and> \<not> isSessionVariable k then Some (env_value e k) else env_get (su_env s) k)" for ks
    by (induction ks arbitrary: s) (auto simp: setEnvironmentVariable_get)
  then show ?thesis using assms by (auto simp: importSystemdEnvrionment_def env_keys_get env_value_def split: option.splits)
qed

section \<open>What a variable of this process becomes\<close>

text \<open>The variables the main function sets itself.\<close>

definition startup_variables :: "string set" where
  "startup_variables = {''QT_WAYLAND_RECONNECT'', ''XCURSOR_PATH'', ''KDE_APPLICATIONS_AS_SCOPE'', ''QT_QPA_PLATFORMTHEME'',
     ''QT_AUTO_SCREEN_SCALE_FACTOR'', ''XDG_CONFIG_DIRS'', ''LANGUAGE''} \<union> set lcValues \<union> fst ` set xkbDefaults"

lemma su_log_sel [simp]: "su_env (su_log x s) = su_env s" "su_systemd (su_log x s) = su_systemd s"
  by (simp_all add: su_log_def)

lemma qputenv_sel [simp]:
  "env_get (su_env (qputenv n v s)) k = (if k = n then Some v else env_get (su_env s) k)" "su_systemd (qputenv n v s) = su_systemd s"
  by (simp_all add: qputenv_def)

lemma put_nonempty_other [simp]: "k \<noteq> n \<Longrightarrow> env_get (su_env (put_nonempty n v s)) k = env_get (su_env s) k"
  by (simp add: put_nonempty_def)

lemma put_nonempty_systemd [simp]: "su_systemd (put_nonempty n v s) = su_systemd s"
  by (simp add: put_nonempty_def)

lemma fold_put_nonempty:
  "k \<notin> set ns \<Longrightarrow> env_get (su_env (fold (\<lambda>n. put_nonempty n (f n)) ns s)) k = env_get (su_env s) k"
  "su_systemd (fold (\<lambda>n. put_nonempty n (f n)) ns s) = su_systemd s"
  by (induction ns arbitrary: s) simp_all

lemma fold_queryAndSet:
  "k \<notin> fst ` set vs \<Longrightarrow> env_get (su_env (fold (queryAndSet result) vs s)) k = env_get (su_env s) k"
  "su_systemd (fold (queryAndSet result) vs s) = su_systemd s"
  by (induction vs arbitrary: s) (auto simp: queryAndSet_def Let_def split: prod.splits)

lemma setupCursor_frame:
  "k \<noteq> ''XCURSOR_PATH'' \<Longrightarrow> env_get (su_env (setupCursor F x w s)) k = env_get (su_env s) k"
  "su_systemd (setupCursor F x w s) = su_systemd s"
  by (simp_all add: setupCursor_def runSync_def Let_def split: option.split)

lemma queryLocale1_frame:
  "k \<notin> fst ` set xkbDefaults \<Longrightarrow> env_get (su_env (queryLocale1 F s)) k = env_get (su_env s) k"
  "su_systemd (queryLocale1 F s) = su_systemd s"
  by (simp_all add: queryLocale1_def fold_queryAndSet split: option.split)

lemma setupPlasmaEnvironment_frame:
  "k \<notin> startup_variables \<Longrightarrow> env_get (su_env (setupPlasmaEnvironment F s)) k = env_get (su_env s) k"
  "su_systemd (setupPlasmaEnvironment F s) = su_systemd s"
  by (simp_all add: setupPlasmaEnvironment_def startup_variables_def determineLookAndFeel_def Let_def split: option.split)

lemma runStartupConfig_frame:
  "k \<notin> startup_variables \<Longrightarrow> env_get (su_env (runStartupConfig F s)) k = env_get (su_env s) k"
  "su_systemd (runStartupConfig F s) = su_systemd s"
  by (simp_all add: runStartupConfig_def startup_variables_def fold_put_nonempty Let_def)

text \<open>The environment the main function synchronises.\<close>

definition startup_prepared :: "startup_files \<Rightarrow> (string \<Rightarrow> string list \<Rightarrow> int) \<Rightarrow> 's startup \<Rightarrow> 's startup" where
  "startup_prepared F x s = runStartupConfig F (setupPlasmaEnvironment F
     (queryLocale1 F (qputenv ''QT_WAYLAND_RECONNECT'' ''1'' (setupCursor F x True (createConfigDirectory F s)))))"

lemma startup_prepared_frame:
  "k \<notin> startup_variables \<Longrightarrow> env_get (su_env (startup_prepared F x s)) k = env_get (su_env s) k"
  "su_systemd (startup_prepared F x s) = su_systemd s"
  by (simp_all add: startup_prepared_def runStartupConfig_frame setupPlasmaEnvironment_frame queryLocale1_frame setupCursor_frame
      createConfigDirectory_def) (simp add: startup_variables_def queryLocale1_frame setupCursor_frame)

lemma startup_main_systemd:
  "fst (startup_main F x D s) = 0"
  "su_systemd (snd (snd (startup_main F x D s))) = su_systemd (snd (syncDBusEnvironment D (startup_prepared F x s)))"
  by (simp_all add: startup_main_def startup_prepared_def syncDBusEnvironment_def Let_def)

text \<open>
  What the documentation of the launch environment says beyond \<open>systemd_ok\<close>: a variable with a name of letters, digits and
  underscores that does not start with a digit, and a value without control characters, is set.
\<close>

definition name_char :: "char \<Rightarrow> bool" where
  "name_char ch \<longleftrightarrow> (let n = (of_char ch :: nat) in 65 \<le> n \<and> n \<le> 90 \<or> 97 \<le> n \<and> n \<le> 122 \<or> 48 \<le> n \<and> n \<le> 57 \<or> n = 95)"

definition launchable :: "string \<Rightarrow> string \<Rightarrow> bool" where
  "launchable k v \<longleftrightarrow> k \<noteq> [] \<and> list_all name_char k \<and> digit_val (hd k) = None \<and> list_all (\<lambda>ch. 32 \<le> (of_char ch :: nat)) v"

definition update_sets :: "'s systemd \<Rightarrow> bool" where
  "update_sets D \<longleftrightarrow> (\<forall>m e f k v. getSystemdEnvironment D m = Some e \<longrightarrow> env_get f k = Some v \<longrightarrow> launchable k v \<longrightarrow>
     (\<exists>e'. getSystemdEnvironment D (sd_update D f m) = Some e' \<and> env_get e' k = Some v))"

lemma launchable_name: "launchable k v \<Longrightarrow> CHR ''='' \<notin> set k"
  by (auto simp: launchable_def list_all_iff name_char_def Let_def)

lemma env_systemd_sets: "update_sets env_systemd"
  unfolding update_sets_def
proof (intro allI impI)
  fix m e f k v
  assume "getSystemdEnvironment env_systemd m = Some e" "env_get f k = Some v" "launchable k v"
  then show "\<exists>e'. getSystemdEnvironment env_systemd (sd_update env_systemd f m) = Some e' \<and> env_get e' k = Some v"
    using launchable_name [of k v]
    by (auto simp: parsed_get env_set_all_good parsed_good env_set_all_get env_keys_get env_value_def launchable_def)
qed

text \<open>The contract of a manager that sets what it is given.\<close>

locale launching_manager = systemd_manager +
  assumes sets: "update_sets D"
begin

lemma synchronised:
  assumes "getSystemdEnvironment D (su_systemd s) = Some e" "env_get (su_env s) k = Some v" "launchable k v"
    and "\<not> isShellVariable k" "\<not> isConfinementVariable k"
  obtains e' where "getSystemdEnvironment D (su_systemd (snd (syncDBusEnvironment D s))) = Some e'" "env_get e' k = Some v"
proof -
  obtain e1 where e1: "getSystemdEnvironment D (su_systemd (dropSessionVarsFromSystemdEnvironment D s)) = Some e1"
    and env: "su_env (dropSessionVarsFromSystemdEnvironment D s) = su_env s"
    using drop_session_variables [OF assms(1)] by metis
  have "env_get (launch_environment (su_env s)) k = Some v" using assms(2,4,5) by (simp add: launch_environment_get)
  with e1 sets assms(3) env obtain e' where
    "getSystemdEnvironment D (sd_update D (launch_environment (su_env s)) (su_systemd (dropSessionVarsFromSystemdEnvironment D s))) = Some e'"
    "env_get e' k = Some v"
    unfolding update_sets_def by blast
  then show thesis by (intro that [of e']) (simp_all add: syncDBusEnvironment_def Let_def env)
qed

lemma handed_over:
  assumes "getSystemdEnvironment D (su_systemd s) = Some e" "env_get (su_env s) k = Some v" "launchable k v"
    and "\<not> isShellVariable k" "\<not> isConfinementVariable k" "k \<notin> startup_variables"
  obtains e' where "getSystemdEnvironment D (su_systemd (snd (snd (startup_main F x D s)))) = Some e'" "env_get e' k = Some v"
proof (rule synchronised [of "startup_prepared F x s" e k v])
  show "getSystemdEnvironment D (su_systemd (startup_prepared F x s)) = Some e" "env_get (su_env (startup_prepared F x s)) k = Some v"
    using assms by (simp_all add: startup_prepared_frame)
  fix e'
  assume "getSystemdEnvironment D (su_systemd (snd (syncDBusEnvironment D (startup_prepared F x s)))) = Some e'" "env_get e' k = Some v"
  then show thesis by (intro that [of e']) (simp_all add: startup_main_systemd)
qed (use assms in simp_all)

end

interpretation es_launch: launching_manager env_systemd
  by unfold_locales (rule env_systemd_sets)

end
