(* ===== verification/Screens.thy ===== *)
theory Screens
  imports Prelude
begin

text \<open>
  The windows of the login screen: the greeter's (\<open>src/frontend/greeter/main.cpp\<close>), one for each screen, the
  wallpaper application's (\<open>src/frontend/wallpaper/wallpaperapp.cpp\<close>, \<open>wallpaperwindow.cpp\<close>) behind them, and
  the bridge that tells the second over D-Bus which screen the first is active on (\<open>blurscreenbridge.cpp\<close>); and the
  greeter's event filter (\<open>greetereventfilter.cpp\<close>).

  A screen is a number; \<open>nm\<close> gives the names of the screens.  The two programs learn of screens on their own, so
  the steps of the system interleave them.
\<close>

section \<open>Making a window\<close>

datatype platform = Wayland | X11 | OtherPlatform

datatype layer = LayerTop | LayerBackground
datatype interactivity = KeyboardExclusive | KeyboardNone

datatype window_call =
    SetColor string
  | SetGeometry
  | SetLayerShell string layer interactivity
  | SetResizeMode
  | BypassWindowManager
  | FullScreen
  | SetSource string
  | SetupWallpaperPlugin
  | ShowWindow

text \<open>What both programs do between the colour and the contents; \<open>layer\<close> tells whether the window has a layer shell.\<close>

definition place_window :: "platform \<Rightarrow> bool \<Rightarrow> window_call \<Rightarrow> window_call list" where
  "place_window p layer call =
     SetGeometry # (if p = Wayland \<and> layer then [call] else []) @ [SetResizeMode]
     @ (if p = X11 then [BypassWindowManager] else if p \<noteq> Wayland then [FullScreen] else [])"

definition greeter_window_calls :: "platform \<Rightarrow> bool \<Rightarrow> bool \<Rightarrow> window_call list" where
  "greeter_window_calls p layer testMode =
     SetColor (if testMode then ''darkGray'' else ''transparent'')
     # place_window p layer (SetLayerShell ''plasma-login-greeter'' LayerTop KeyboardExclusive)
     @ [SetSource ''qrc:/qt/qml/org/kde/plasma/login/MeoMain.qml'', ShowWindow]"

definition wallpaper_window_calls :: "platform \<Rightarrow> bool \<Rightarrow> window_call list" where
  "wallpaper_window_calls p layer =
     SetColor ''black'' # place_window p layer (SetLayerShell ''plasma-login-wallpaper'' LayerBackground KeyboardNone)
     @ [SetupWallpaperPlugin, ShowWindow]"

record wallpaper_package =
  pk_valid :: bool
  pk_xmlPath :: string
  pk_componentError :: bool
  pk_createsItem :: bool

datatype plugin_step = ConfigFrom "string option" | SetNotify | LoadRoot | CreateItem | PlaceItem

definition setupWallpaperPlugin :: "wallpaper_package \<Rightarrow> plugin_step list" where
  "setupWallpaperPlugin p =
     (if \<not> pk_valid p then []
      else ConfigFrom (if pk_xmlPath p = [] then None else Some (pk_xmlPath p)) # SetNotify
        # (if pk_componentError p then [] else LoadRoot # CreateItem # (if pk_createsItem p then [PlaceItem] else [])))"

section \<open>The greeter and the bridge\<close>

type_synonym screen = nat

text \<open>
  The windows with their screens; \<open>gr_active\<close> is \<open>m_activeWindow\<close> of the bridge, a \<open>QPointer\<close>: it is null once
  the window is deleted.
\<close>

record greeter =
  gr_windows :: "(nat \<times> screen) list"
  gr_next :: nat
  gr_active :: "nat option"

definition createWindowForScreen :: "screen \<Rightarrow> greeter \<Rightarrow> greeter" where
  "createWindowForScreen s g = g\<lparr>gr_windows := gr_windows g @ [(gr_next g, s)], gr_next := gr_next g + 1\<rparr>"

definition greeter_screenRemoved :: "screen \<Rightarrow> greeter \<Rightarrow> greeter" where
  "greeter_screenRemoved s g =
     (let rest = filter (\<lambda>w. snd w \<noteq> s) (gr_windows g)
      in g\<lparr>gr_windows := rest,
           gr_active := (case gr_active g of None \<Rightarrow> None | Some w \<Rightarrow> if w \<in> fst ` set rest then Some w else None)\<rparr>)"

text \<open>The name that is sent, empty for no active window.\<close>

definition notifyBlurScreenChange :: "(screen \<Rightarrow> string) \<Rightarrow> greeter \<Rightarrow> string" where
  "notifyBlurScreenChange nm g =
     (case gr_active g of
        None \<Rightarrow> []
      | Some w \<Rightarrow> (case map_of (gr_windows g) w of None \<Rightarrow> [] | Some s \<Rightarrow> nm s))"

definition setActiveWindow :: "(screen \<Rightarrow> string) \<Rightarrow> nat option \<Rightarrow> greeter \<Rightarrow> greeter \<times> string list" where
  "setActiveWindow nm w g =
     (if gr_active g = w then (g, [])
      else let g1 = g\<lparr>gr_active := w\<rparr> in (g1, [notifyBlurScreenChange nm g1]))"

section \<open>The wallpaper application\<close>

record wallpaper_window =
  ww_screen :: screen
  ww_blur :: bool

text \<open>\<open>setBlur\<close>: the second result tells whether \<open>blurChanged\<close> is emitted.\<close>

definition setBlur :: "bool \<Rightarrow> wallpaper_window \<Rightarrow> wallpaper_window \<times> bool" where
  "setBlur enable w = (if ww_blur w = enable then (w, False) else (w\<lparr>ww_blur := enable\<rparr>, True))"

definition blurScreen :: "(screen \<Rightarrow> string) \<Rightarrow> string \<Rightarrow> wallpaper_window list \<Rightarrow> wallpaper_window list" where
  "blurScreen nm screenName ws = map (\<lambda>w. fst (setBlur (nm (ww_screen w) = screenName) w)) ws"

definition wallpaper_createWindow :: "screen \<Rightarrow> wallpaper_window list \<Rightarrow> wallpaper_window list" where
  "wallpaper_createWindow s ws = ws @ [\<lparr>ww_screen = s, ww_blur = False\<rparr>]"

definition wallpaper_screenRemoved :: "screen \<Rightarrow> wallpaper_window list \<Rightarrow> wallpaper_window list" where
  "wallpaper_screenRemoved s ws = filter (\<lambda>w. ww_screen w \<noteq> s) ws"

definition wallpaper_start :: "screen list \<Rightarrow> wallpaper_window list" where
  "wallpaper_start screens = fold wallpaper_createWindow screens []"

section \<open>Both together\<close>

text \<open>
  \<open>dk_bus\<close> holds the calls of \<open>blurScreen\<close> that are under way, in order; a call to a service that is not there is lost.
  When the service appears the bridge sends the name again.
\<close>

record desktop =
  dk_greeter :: greeter
  dk_wallpaper :: "wallpaper_window list option"
  dk_bus :: "string list"

definition dk_init :: desktop where
  "dk_init = \<lparr>dk_greeter = \<lparr>gr_windows = [], gr_next = 0, gr_active = None\<rparr>, dk_wallpaper = None, dk_bus = []\<rparr>"

definition dk_activate :: "(screen \<Rightarrow> string) \<Rightarrow> nat option \<Rightarrow> desktop \<Rightarrow> desktop" where
  "dk_activate nm w d =
     (let (g, msgs) = setActiveWindow nm w (dk_greeter d)
      in d\<lparr>dk_greeter := g, dk_bus := dk_bus d @ (if dk_wallpaper d = None then [] else msgs)\<rparr>)"

definition dk_register :: "(screen \<Rightarrow> string) \<Rightarrow> screen list \<Rightarrow> desktop \<Rightarrow> desktop" where
  "dk_register nm screens d =
     d\<lparr>dk_wallpaper := Some (wallpaper_start screens), dk_bus := [notifyBlurScreenChange nm (dk_greeter d)]\<rparr>"

inductive dk_step :: "(screen \<Rightarrow> string) \<Rightarrow> desktop \<Rightarrow> desktop \<Rightarrow> bool" for nm where
  greeter_added: "dk_step nm d (d\<lparr>dk_greeter := createWindowForScreen s (dk_greeter d)\<rparr>)"
| greeter_removed: "dk_step nm d (d\<lparr>dk_greeter := greeter_screenRemoved s (dk_greeter d)\<rparr>)"
| activate: "\<forall>i. w = Some i \<longrightarrow> i \<in> fst ` set (gr_windows (dk_greeter d)) \<Longrightarrow> dk_step nm d (dk_activate nm w d)"
| register: "dk_wallpaper d = None \<Longrightarrow> distinct screens \<Longrightarrow> dk_step nm d (dk_register nm screens d)"
| stopped: "dk_step nm d (d\<lparr>dk_wallpaper := None, dk_bus := []\<rparr>)"
| wallpaper_added: "dk_wallpaper d = Some ws \<Longrightarrow> s \<notin> ww_screen ` set ws \<Longrightarrow>
    dk_step nm d (d\<lparr>dk_wallpaper := Some (wallpaper_createWindow s ws)\<rparr>)"
| wallpaper_removed: "dk_wallpaper d = Some ws \<Longrightarrow> dk_step nm d (d\<lparr>dk_wallpaper := Some (wallpaper_screenRemoved s ws)\<rparr>)"
| deliver: "dk_wallpaper d = Some ws \<Longrightarrow> dk_bus d = m # ms \<Longrightarrow>
    dk_step nm d (d\<lparr>dk_wallpaper := Some (blurScreen nm m ws), dk_bus := ms\<rparr>)"

inductive dk_reachable :: "(screen \<Rightarrow> string) \<Rightarrow> desktop \<Rightarrow> bool" for nm where
  init: "dk_reachable nm dk_init"
| step: "dk_reachable nm d \<Longrightarrow> dk_step nm d d' \<Longrightarrow> dk_reachable nm d'"

inductive_cases dk_stepE: "dk_step nm d d'"

section \<open>The blurred screen is the active one\<close>

lemma blurScreen_sel [simp]: "map ww_screen (blurScreen nm m ws) = map ww_screen ws"
  by (induction ws) (simp_all add: blurScreen_def setBlur_def)

lemma blurScreen_blur: "v \<in> set (blurScreen nm m ws) \<Longrightarrow> ww_blur v \<longleftrightarrow> nm (ww_screen v) = m"
  by (auto simp: blurScreen_def setBlur_def)

lemma wallpaper_start_eq: "wallpaper_start screens = map (\<lambda>s. \<lparr>ww_screen = s, ww_blur = False\<rparr>) screens"
proof -
  have "fold wallpaper_createWindow screens ws = ws @ map (\<lambda>s. \<lparr>ww_screen = s, ww_blur = False\<rparr>) screens" for ws
    by (induction screens arbitrary: ws) (simp_all add: wallpaper_createWindow_def)
  then show ?thesis by (simp add: wallpaper_start_def)
qed

text \<open>
  The windows' numbers are used once and the active window is there; the screens of the wallpaper windows are distinct;
  and the last call under way, or when there is none the blur itself, agrees with the active window.
\<close>

definition greeter_ok :: "greeter \<Rightarrow> bool" where
  "greeter_ok g \<longleftrightarrow> distinct (map fst (gr_windows g)) \<and> (\<forall>w \<in> set (gr_windows g). fst w < gr_next g)
     \<and> (\<forall>i. gr_active g = Some i \<longrightarrow> i \<in> fst ` set (gr_windows g))"

definition blur_ok :: "(screen \<Rightarrow> string) \<Rightarrow> greeter \<Rightarrow> wallpaper_window list \<Rightarrow> string list \<Rightarrow> bool" where
  "blur_ok nm g ws bus \<longleftrightarrow> distinct (map ww_screen ws)
     \<and> (gr_active g \<noteq> None \<longrightarrow>
          (if bus = [] then \<forall>v \<in> set ws. ww_blur v \<longrightarrow> nm (ww_screen v) = notifyBlurScreenChange nm g
           else last bus = notifyBlurScreenChange nm g))"

definition dk_ok :: "(screen \<Rightarrow> string) \<Rightarrow> desktop \<Rightarrow> bool" where
  "dk_ok nm d \<longleftrightarrow> greeter_ok (dk_greeter d) \<and> (\<forall>ws. dk_wallpaper d = Some ws \<longrightarrow> blur_ok nm (dk_greeter d) ws (dk_bus d))"

lemma createWindowForScreen_sel [simp]:
  "gr_windows (createWindowForScreen s g) = gr_windows g @ [(gr_next g, s)]" "gr_next (createWindowForScreen s g) = gr_next g + 1"
  "gr_active (createWindowForScreen s g) = gr_active g"
  by (simp_all add: createWindowForScreen_def)

lemma greeter_screenRemoved_sel [simp]:
  "gr_windows (greeter_screenRemoved s g) = filter (\<lambda>w. snd w \<noteq> s) (gr_windows g)" "gr_next (greeter_screenRemoved s g) = gr_next g"
  by (simp_all add: greeter_screenRemoved_def Let_def)

lemma greeter_screenRemoved_active:
  "gr_active (greeter_screenRemoved s g) = Some i \<longleftrightarrow> gr_active g = Some i \<and> i \<in> fst ` set (filter (\<lambda>w. snd w \<noteq> s) (gr_windows g))"
  by (auto simp: greeter_screenRemoved_def Let_def split: option.splits if_splits)

lemma greeter_ok_added: "greeter_ok g \<Longrightarrow> greeter_ok (createWindowForScreen s g)"
  by (force simp: greeter_ok_def)

lemma greeter_ok_removed: "greeter_ok g \<Longrightarrow> greeter_ok (greeter_screenRemoved s g)"
  unfolding greeter_ok_def greeter_screenRemoved_active by (simp add: distinct_map_filter)

lemma notify_added:
  "greeter_ok g \<Longrightarrow> notifyBlurScreenChange nm (createWindowForScreen s g) = notifyBlurScreenChange nm g"
proof (cases "gr_active g")
  case None
  then show ?thesis by (simp add: notifyBlurScreenChange_def)
next
  case (Some i)
  assume "greeter_ok g"
  with Some have "i < gr_next g" by (auto simp: greeter_ok_def)
  then have "map_of (gr_windows g @ [(gr_next g, s)]) i = map_of (gr_windows g) i"
    by (simp add: map_add_def split: option.split)
  with Some show ?thesis by (simp add: notifyBlurScreenChange_def del: map_of_append)
qed

lemma map_of_filter_kept: "distinct (map fst xs) \<Longrightarrow> i \<in> fst ` set (filter P xs) \<Longrightarrow> map_of (filter P xs) i = map_of xs i"
  by (induction xs) (auto simp: image_iff split: if_splits)

lemma notify_removed:
  assumes "greeter_ok g" "gr_active (greeter_screenRemoved s g) \<noteq> None"
  shows "notifyBlurScreenChange nm (greeter_screenRemoved s g) = notifyBlurScreenChange nm g \<and> gr_active g \<noteq> None"
proof -
  obtain i where i: "gr_active (greeter_screenRemoved s g) = Some i" using assms(2) by auto
  then have "gr_active g = Some i" "map_of (filter (\<lambda>w. snd w \<noteq> s) (gr_windows g)) i = map_of (gr_windows g) i"
    using assms(1) map_of_filter_kept [of "gr_windows g" i] by (auto simp only: greeter_screenRemoved_active greeter_ok_def)
  with i show ?thesis by (simp add: notifyBlurScreenChange_def)
qed

lemma dk_ok_activate:
  assumes "dk_ok nm d" "\<forall>i. w = Some i \<longrightarrow> i \<in> fst ` set (gr_windows (dk_greeter d))"
  shows "dk_ok nm (dk_activate nm w d)"
proof (cases "gr_active (dk_greeter d) = w")
  case True
  with assms(1) show ?thesis by (simp add: dk_activate_def setActiveWindow_def)
next
  case False
  with assms show ?thesis
    by (simp add: dk_ok_def dk_activate_def setActiveWindow_def Let_def greeter_ok_def blur_ok_def)
qed

lemma blur_ok_deliver: "blur_ok nm g ws (m # ms) \<Longrightarrow> blur_ok nm g (blurScreen nm m ws) ms"
  using blurScreen_blur by (auto simp: blur_ok_def split: if_splits)

lemma dk_ok_step: "dk_step nm d d' \<Longrightarrow> dk_ok nm d \<Longrightarrow> dk_ok nm d'"
proof (induction rule: dk_step.induct)
  case (greeter_added d s)
  then show ?case by (simp add: dk_ok_def greeter_ok_added notify_added blur_ok_def)
next
  case (greeter_removed d s)
  then show ?case using notify_removed [of "dk_greeter d" s nm] by (simp add: dk_ok_def greeter_ok_removed blur_ok_def)
next
  case (activate w d)
  then show ?case by (rule dk_ok_activate [rotated])
next
  case (register d screens)
  then show ?case by (simp add: dk_ok_def dk_register_def wallpaper_start_eq comp_def blur_ok_def)
next
  case (stopped d)
  then show ?case by (simp add: dk_ok_def)
next
  case (wallpaper_added d ws s)
  then show ?case by (auto simp: dk_ok_def wallpaper_createWindow_def blur_ok_def)
next
  case (wallpaper_removed d ws s)
  then show ?case by (simp add: dk_ok_def wallpaper_screenRemoved_def distinct_map_filter blur_ok_def)
next
  case (deliver d ws m ms)
  then show ?case by (simp add: dk_ok_def blur_ok_deliver)
qed

lemma dk_reachable_ok: "dk_reachable nm d \<Longrightarrow> dk_ok nm d"
proof (induction rule: dk_reachable.induct)
  case init
  show ?case by (simp add: dk_ok_def dk_init_def greeter_ok_def)
next
  case (step d d')
  then show ?case using dk_ok_step by blast
qed

text \<open>Property C22: only the active screen is blurred.  Whatever the order in which the two programs learn of screens coming and
  going, start, stop and exchange calls: when no call is under way and the greeter has an active window, every blurred
  wallpaper is on a screen with the name of that window's screen; and no screen has two wallpaper windows.
\<close>

theorem only_active_screen_blurred:
  assumes "dk_reachable nm d" "dk_wallpaper d = Some ws" "dk_bus d = []" "gr_active (dk_greeter d) = Some i"
  shows "\<exists>s. (i, s) \<in> set (gr_windows (dk_greeter d)) \<and> (\<forall>v \<in> set ws. ww_blur v \<longrightarrow> nm (ww_screen v) = nm s)
    \<and> distinct (map ww_screen ws)"
proof -
  have ok: "i \<in> fst ` set (gr_windows (dk_greeter d))" "distinct (map fst (gr_windows (dk_greeter d)))"
    "\<forall>v \<in> set ws. ww_blur v \<longrightarrow> nm (ww_screen v) = notifyBlurScreenChange nm (dk_greeter d)" "distinct (map ww_screen ws)"
    using dk_reachable_ok [OF assms(1)] assms(2-4) by (simp_all add: dk_ok_def greeter_ok_def blur_ok_def)
  then obtain s where "(i, s) \<in> set (gr_windows (dk_greeter d))" by auto
  moreover from this ok(2) assms(4) have "notifyBlurScreenChange nm (dk_greeter d) = nm s"
    by (simp add: notifyBlurScreenChange_def map_of_eq_Some_iff)
  ultimately show ?thesis using ok(3,4) by auto
qed

text \<open>The next call under way is delivered, if there is one and the application runs.\<close>

definition dk_deliver :: "(screen \<Rightarrow> string) \<Rightarrow> desktop \<Rightarrow> desktop" where
  "dk_deliver nm d =
     (case (dk_wallpaper d, dk_bus d) of
        (Some ws, m # ms) \<Rightarrow> d\<lparr>dk_wallpaper := Some (blurScreen nm m ws), dk_bus := ms\<rparr>
      | _ \<Rightarrow> d)"

lemma dk_deliver_all:
  assumes "dk_wallpaper d = Some ws" "dk_bus d = ms @ [m]"
  shows "\<exists>ws'. dk_wallpaper ((dk_deliver nm ^^ (length ms + 1)) d) = Some ws' \<and> dk_bus ((dk_deliver nm ^^ (length ms + 1)) d) = []
    \<and> map ww_screen ws' = map ww_screen ws \<and> (\<forall>v \<in> set ws'. ww_blur v \<longleftrightarrow> nm (ww_screen v) = m)"
  using assms
proof (induction ms arbitrary: d ws)
  case Nil
  then show ?case by (auto simp: dk_deliver_def blurScreen_blur)
next
  case (Cons x ms)
  let ?d = "dk_deliver nm d"
  have "dk_wallpaper ?d = Some (blurScreen nm x ws)" "dk_bus ?d = ms @ [m]"
    using Cons.prems by (simp_all add: dk_deliver_def)
  from Cons.IH [OF this] show ?case by (simp add: funpow_swap1)
qed

text \<open>Property C23: the blur follows the active window.  When another window becomes active while the wallpaper application runs,
  delivering the calls under way, as many as there are and one more, leaves none and ends with exactly those wallpapers
  blurred that are on a screen with the name of the window's.
\<close>

theorem blur_follows_activation:
  assumes "dk_reachable nm d" "dk_wallpaper d = Some ws" "gr_active (dk_greeter d) \<noteq> Some i"
    and "(i, s) \<in> set (gr_windows (dk_greeter d))"
  shows "let d' = (dk_deliver nm ^^ (length (dk_bus d) + 1)) (dk_activate nm (Some i) d)
    in dk_bus d' = [] \<and> (\<exists>ws'. dk_wallpaper d' = Some ws' \<and> map ww_screen ws' = map ww_screen ws
         \<and> (\<forall>v \<in> set ws'. ww_blur v \<longleftrightarrow> nm (ww_screen v) = nm s))"
proof -
  have "map_of (gr_windows (dk_greeter d)) i = Some s"
    using dk_reachable_ok [OF assms(1)] assms(4) by (simp add: dk_ok_def greeter_ok_def)
  then have "dk_wallpaper (dk_activate nm (Some i) d) = Some ws" "dk_bus (dk_activate nm (Some i) d) = dk_bus d @ [nm s]"
    using assms(2,3) by (simp_all add: dk_activate_def setActiveWindow_def notifyBlurScreenChange_def Let_def)
  from dk_deliver_all [OF this] show ?thesis by (auto simp: Let_def)
qed

text \<open>A run in which the call arrives before the wallpaper application has seen the screen.\<close>

definition late_screen :: "string \<Rightarrow> desktop" where
  "late_screen n =
     \<lparr>dk_greeter = \<lparr>gr_windows = [(0, 1)], gr_next = 1, gr_active = Some 0\<rparr>,
      dk_wallpaper = Some [\<lparr>ww_screen = 1, ww_blur = False\<rparr>], dk_bus = []\<rparr>"

lemma dk_reachable_step: "dk_reachable nm d \<Longrightarrow> dk_step nm d d' \<Longrightarrow> d' = d'' \<Longrightarrow> dk_reachable nm d''"
  using dk_reachable.step by blast

lemma late_screen_reachable: "dk_reachable nm (late_screen (nm 1))"
proof -
  let ?g = "\<lparr>gr_windows = [(0, 1)], gr_next = 1, gr_active = None\<rparr>"
  have 1: "dk_reachable nm \<lparr>dk_greeter = ?g, dk_wallpaper = None, dk_bus = []\<rparr>"
    by (rule dk_reachable_step [OF dk_reachable.init dk_step.greeter_added [of nm _ 1]])
      (simp add: dk_init_def createWindowForScreen_def)
  have 2: "dk_reachable nm \<lparr>dk_greeter = ?g, dk_wallpaper = Some [], dk_bus = [[]]\<rparr>"
    by (rule dk_reachable_step [OF 1 dk_step.register [of _ "[]"]])
      (simp_all add: dk_register_def wallpaper_start_def notifyBlurScreenChange_def)
  have 3: "dk_reachable nm \<lparr>dk_greeter = ?g, dk_wallpaper = Some [], dk_bus = []\<rparr>"
    by (rule dk_reachable_step [OF 2 dk_step.deliver [of _ "[]" "[]" "[]"]]) (simp_all add: blurScreen_def)
  have 4: "dk_reachable nm \<lparr>dk_greeter = ?g\<lparr>gr_active := Some 0\<rparr>, dk_wallpaper = Some [], dk_bus = [nm 1]\<rparr>"
    by (rule dk_reachable_step [OF 3 dk_step.activate [of "Some 0"]])
      (simp_all add: dk_activate_def setActiveWindow_def notifyBlurScreenChange_def)
  have 5: "dk_reachable nm \<lparr>dk_greeter = ?g\<lparr>gr_active := Some 0\<rparr>, dk_wallpaper = Some [], dk_bus = []\<rparr>"
    by (rule dk_reachable_step [OF 4 dk_step.deliver [of _ "[]" "nm 1" "[]"]]) (simp_all add: blurScreen_def)
  show ?thesis
    by (rule dk_reachable_step [OF 5 dk_step.wallpaper_added [of _ "[]" 1]])
      (simp_all add: late_screen_def wallpaper_createWindow_def)
qed

lemma only_active_screen_blurred_witness:
  "\<exists>s. (0, s) \<in> set (gr_windows (dk_greeter (late_screen ''DP-1''))) \<and> s = 1"
  using only_active_screen_blurred [OF late_screen_reachable [of "\<lambda>s. ''DP-1''"], of "[\<lparr>ww_screen = 1, ww_blur = False\<rparr>]" 0]
  by (auto simp: late_screen_def)

lemma blur_follows_activation_witness:
  "let d' = (dk_deliver (\<lambda>s. ''DP-1'') ^^ 1) (dk_activate (\<lambda>s. ''DP-1'') (Some 0) ((late_screen ''DP-1'')\<lparr>dk_greeter := \<lparr>gr_windows = [(0, 1)], gr_next = 1, gr_active = None\<rparr>\<rparr>))
   in dk_bus d' = [] \<and> (\<exists>v. dk_wallpaper d' = Some [v] \<and> ww_blur v)"
proof -
  let ?nm = "\<lambda>s :: screen. ''DP-1''"
  have step: "dk_step ?nm (late_screen ''DP-1'') (dk_activate ?nm None (late_screen ''DP-1''))"
    by (rule dk_step.activate) simp
  have 1: "dk_reachable ?nm (dk_activate ?nm None (late_screen ''DP-1''))"
    by (rule dk_reachable.step [OF late_screen_reachable step])
  have 2: "dk_reachable ?nm ((late_screen ''DP-1'')\<lparr>dk_greeter := \<lparr>gr_windows = [(0, 1)], gr_next = 1, gr_active = None\<rparr>\<rparr>)"
    by (rule dk_reachable_step [OF 1 dk_step.deliver [of _ "[\<lparr>ww_screen = 1, ww_blur = False\<rparr>]" "[]" "[]"]])
      (simp_all add: late_screen_def dk_activate_def setActiveWindow_def notifyBlurScreenChange_def blurScreen_def setBlur_def)
  from blur_follows_activation [OF 2, of "[\<lparr>ww_screen = 1, ww_blur = False\<rparr>]" 0 1]
  show ?thesis by (auto simp: late_screen_def Let_def)
qed

text \<open>
  A screen that is new to the wallpaper application stays sharp.  A state can be reached in which nothing is
  under way, the greeter's active window is on a screen with a wallpaper window, and that window is not blurred: the call
  for it had arrived before the application saw the screen, and no other is sent.
\<close>

theorem new_screen_not_blurred:
  "\<exists>d ws i s. dk_reachable nm d \<and> dk_wallpaper d = Some ws \<and> dk_bus d = [] \<and> gr_active (dk_greeter d) = Some i
    \<and> (i, s) \<in> set (gr_windows (dk_greeter d)) \<and> (\<exists>v \<in> set ws. ww_screen v = s \<and> \<not> ww_blur v)"
proof (intro exI conjI)
  show "dk_reachable nm (late_screen (nm 1))" by (rule late_screen_reachable)
  show "dk_wallpaper (late_screen (nm 1)) = Some [\<lparr>ww_screen = 1, ww_blur = False\<rparr>]" by (simp add: late_screen_def)
  show "(0, 1) \<in> set (gr_windows (dk_greeter (late_screen (nm 1))))" by (simp add: late_screen_def)
qed (simp_all add: late_screen_def)

section \<open>The greeter's event filter\<close>

record event_filter =
  ef_window :: "nat option"
  ef_installed :: "nat list"

text \<open>\<open>setWindow\<close>: the second result tells whether \<open>windowChanged\<close> is emitted.\<close>

definition setWindow :: "nat option \<Rightarrow> event_filter \<Rightarrow> event_filter \<times> bool" where
  "setWindow w f =
     (if ef_window f = w then (f, False)
      else
        let removed = (case ef_window f of None \<Rightarrow> ef_installed f | Some old \<Rightarrow> filter (\<lambda>i. i \<noteq> old) (ef_installed f))
        in (\<lparr>ef_window = w, ef_installed = (case w of None \<Rightarrow> removed | Some i \<Rightarrow> removed @ [i])\<rparr>, True))"

datatype key_event = KeyPress bool | OtherEvent

datatype filter_effect = ScreensOff | EscapeKeyPressed | KeyPressed

text \<open>The first result is \<open>True\<close> when the filter stops the event; a key press tells whether the key is Escape.\<close>

definition eventFilter :: "bool \<Rightarrow> key_event \<Rightarrow> bool \<times> filter_effect list" where
  "eventFilter dpmsSupported e =
     (case e of
        KeyPress True \<Rightarrow> (True, (if dpmsSupported then [ScreensOff] else []) @ [EscapeKeyPressed])
      | KeyPress False \<Rightarrow> (False, [KeyPressed])
      | OtherEvent \<Rightarrow> (False, []))"

lemma setWindow_installed:
  "set (ef_installed f) = set_option (ef_window f) \<Longrightarrow>
    set (ef_installed (fst (setWindow w f))) = set_option w \<and> ef_window (fst (setWindow w f)) = w"
  by (auto simp: setWindow_def Let_def split: option.splits)

end
