(* ===== verification/Greeter_App.thy ===== *)
theory Greeter_App
  imports Screens Socket_Server
begin

text \<open>
  The greeter program as a whole: the proxy object that stands for the daemon
  (\<open>src/frontend/greeter/backend/GreeterProxy.cpp\<close>), its replacement in the test mode
  (\<open>src/frontend/greeter/mockbackend/\<close>), and \<open>main\<close> with the object that owns the windows
  (\<open>src/frontend/greeter/main.cpp\<close>).
\<close>

section \<open>The proxy\<close>

text \<open>
  The socket of the proxy is the name it has been told to connect to and the bytes written to it; the signals
  the proxy emits are kept in order.  \<open>readyRead\<close> comes with the bytes that have arrived.
\<close>

datatype proxy_signal = FromDaemon daemon_event | SocketDisconnected

datatype socket_signal = SkConnected | SkDisconnected | SkReadyRead "byte list" | SkError QString

record 'm GreeterProxy =
  px_server :: QString
  px_written :: "byte list"
  px_emitted :: "proxy_signal list"
  px_sessionModel :: "'m option"

definition proxy_new :: "env \<Rightarrow> 'm GreeterProxy" where
  "proxy_new environment =
     \<lparr>px_server = env_value environment ''SDDM_SOCKET'', px_written = [], px_emitted = [], px_sessionModel = None\<rparr>"

definition proxy_setSessionModel :: "'m option \<Rightarrow> 'm GreeterProxy \<Rightarrow> 'm GreeterProxy" where
  "proxy_setSessionModel model p = p\<lparr>px_sessionModel := model\<rparr>"

definition proxy_disconnected :: "'m GreeterProxy \<Rightarrow> 'm GreeterProxy" where
  "proxy_disconnected p = p\<lparr>px_emitted := px_emitted p @ [SocketDisconnected]\<rparr>"

definition proxy_error :: "QString \<Rightarrow> 'm GreeterProxy \<Rightarrow> 'm GreeterProxy" where
  "proxy_error message p = p"

text \<open>The slots, as the constructor connects them.\<close>

definition proxy_slot :: "qds \<Rightarrow> socket_signal \<Rightarrow> 'm GreeterProxy \<Rightarrow> 'm GreeterProxy" where
  "proxy_slot c sig p =
     (case sig of
        SkConnected \<Rightarrow> p\<lparr>px_written := gp_connected c (px_written p)\<rparr>
      | SkDisconnected \<Rightarrow> proxy_disconnected p
      | SkReadyRead bytes \<Rightarrow> p\<lparr>px_emitted := px_emitted p @ map FromDaemon (gp_readyRead c bytes)\<rparr>
      | SkError message \<Rightarrow> proxy_error message p)"

definition proxy_login :: "qds \<Rightarrow> QString \<Rightarrow> QString \<Rightarrow> session_type \<Rightarrow> QString \<Rightarrow> 'm GreeterProxy \<Rightarrow> 'm GreeterProxy" where
  "proxy_login c user password type file p = p\<lparr>px_written := gp_login c user password type file (px_written p)\<rparr>"

text \<open>What the QML scene calls and the socket delivers, in any order, is what the daemon reads and the scene hears.\<close>

datatype proxy_event = Signalled socket_signal | LoginCalled QString QString session_type QString

definition proxy_event_step :: "qds \<Rightarrow> proxy_event \<Rightarrow> 'm GreeterProxy \<Rightarrow> 'm GreeterProxy" where
  "proxy_event_step c e p =
     (case e of Signalled s \<Rightarrow> proxy_slot c s p | LoginCalled u pw t f \<Rightarrow> proxy_login c u pw t f p)"

fun proxy_call :: "proxy_event \<Rightarrow> greeter_call list" where
  "proxy_call (Signalled SkConnected) = [CallConnected]"
| "proxy_call (LoginCalled u pw t f) = [CallLogin u pw t f]"
| "proxy_call _ = []"

fun proxy_heard :: "qds \<Rightarrow> proxy_event \<Rightarrow> proxy_signal list" where
  "proxy_heard c (Signalled SkDisconnected) = [SocketDisconnected]"
| "proxy_heard c (Signalled (SkReadyRead bytes)) = map FromDaemon (gp_readyRead c bytes)"
| "proxy_heard c _ = []"

lemma proxy_step_written:
  "px_written (proxy_event_step c e p) = px_written p @ concat (map (send_greeter c) (proxy_call e))"
  by (cases "(c, e)" rule: proxy_heard.cases)
    (simp_all add: proxy_event_step_def proxy_slot_def proxy_login_def proxy_disconnected_def proxy_error_def socket_defs)

lemma proxy_step_emitted:
  "px_emitted (proxy_event_step c e p) = px_emitted p @ proxy_heard c e"
  by (cases "(c, e)" rule: proxy_heard.cases)
    (simp_all add: proxy_event_step_def proxy_slot_def proxy_login_def proxy_disconnected_def proxy_error_def)

lemma proxy_events_written:
  "px_written (fold (proxy_event_step c) es p) = px_written p @ concat (map (send_greeter c) (concat (map proxy_call es)))"
  by (induction es arbitrary: p) (simp_all add: proxy_step_written)

lemma proxy_events_emitted:
  "px_emitted (fold (proxy_event_step c) es p) = px_emitted p @ concat (map (proxy_heard c) es)"
  by (induction es arbitrary: p) (simp_all add: proxy_step_emitted)

text \<open>The daemon reads the calls made of a proxy since it was made, in their order, and nothing else.\<close>

lemma proxy_calls_read:
  assumes "qds_ok c"
  shows "ss_readyRead c fs (px_written (fold (proxy_event_step c) es (proxy_new environment)))
    = map (greeter_event_of fs) (concat (map proxy_call es))"
  using qt_stream.ss_readyRead_all [OF qt_stream.intro [OF assms]]
  by (simp add: proxy_events_written proxy_new_def)

section \<open>The program\<close>

text \<open>\<open>LoginGreeter\<close>: a window for every screen there is, and later for every screen that is added.\<close>

definition login_greeter_new :: "screen list \<Rightarrow> greeter" where
  "login_greeter_new screens = fold createWindowForScreen screens \<lparr>gr_windows = [], gr_next = 0, gr_active = None\<rparr>"

datatype 'm authenticator = MockAuthenticator | ProxyAuthenticator "'m GreeterProxy"

datatype 'm singleton = Authenticator "'m authenticator" | SessionModelObject | UserModelObject | SessionManagementObject
  | SettingsObject | StateConfigObject | BlurScreenBridgeObject

record 'm greeter_app =
  ga_testMode :: bool
  ga_singletons :: "(string \<times> 'm singleton) list"
  ga_types :: "string list"
  ga_windows :: greeter

text \<open>
  \<open>main\<close> up to its event loop.  \<open>parser\<close> stands for \<open>QCommandLineParser::process\<close>, which ends the program for
  \<open>--help\<close> and for unknown options with the code it gives, and else tells whether \<open>--test\<close> is set.
\<close>

definition greeter_main :: "(string list \<Rightarrow> int + bool) \<Rightarrow> string list \<Rightarrow> env \<Rightarrow> screen list \<Rightarrow> int + 'm greeter_app" where
  "greeter_main parser args environment screens =
     (case parser args of
        Inl code \<Rightarrow> Inl code
      | Inr testMode \<Rightarrow> Inr
          \<lparr>ga_testMode = testMode,
           ga_singletons =
             [(''Authenticator'', Authenticator (if testMode then MockAuthenticator else ProxyAuthenticator (proxy_new environment))),
              (''SessionModel'', SessionModelObject), (''UserModel'', UserModelObject),
              (''SessionManagement'', SessionManagementObject), (''Settings'', SettingsObject),
              (''StateConfig'', StateConfigObject), (''BlurScreenBridge'', BlurScreenBridgeObject)],
           ga_types = [''GreeterEventFilter''],
           ga_windows = login_greeter_new screens\<rparr>)"

definition greeter_proxy_of :: "'m greeter_app \<Rightarrow> 'm GreeterProxy option" where
  "greeter_proxy_of app =
     (case map_of (ga_singletons app) ''Authenticator'' of
        Some (Authenticator (ProxyAuthenticator p)) \<Rightarrow> Some p
      | _ \<Rightarrow> None)"

lemma greeter_main_proxy:
  assumes "greeter_main parser args environment screens = Inr app"
  shows "greeter_proxy_of app = (if ga_testMode app then None else Some (proxy_new environment))"
  using assms by (auto simp: greeter_main_def greeter_proxy_of_def split: sum.splits)

lemma fold_windows:
  "map snd (gr_windows (fold createWindowForScreen screens g)) = map snd (gr_windows g) @ screens"
  "gr_active (fold createWindowForScreen screens g) = gr_active g"
  by (induction screens arbitrary: g) simp_all

lemma login_greeter_windows:
  "map snd (gr_windows (login_greeter_new screens)) = screens" "gr_active (login_greeter_new screens) = None"
  by (simp_all add: login_greeter_new_def fold_windows)

lemma login_greeter_ok: "greeter_ok (login_greeter_new screens)"
proof -
  have "greeter_ok (fold createWindowForScreen screens g)" if "greeter_ok g" for g
    using that by (induction screens arbitrary: g) (simp_all add: greeter_ok_added)
  then show ?thesis by (simp add: login_greeter_new_def greeter_ok_def)
qed

end
