(* ===== verification/Handover.thy ===== *)
theory Handover
  imports Display_Life Helper_Args Startup Greeter_App
begin

text \<open>
  What the daemon hands to a session: the composition of the display (\<open>src/daemon/\<close>), the two ends of the helper's
  socket (\<open>src/auth/Auth.cpp\<close>, \<open>src/helper/HelperApp.cpp\<close>), the PAM session
  (\<open>src/helper/backend/PamBackend.cpp\<close>) and the session's process (\<open>src/helper/UserSession.cpp\<close>); and, for the
  greeter's own session, of its startup (\<open>src/frontend/startkde/\<close>) and the greeter (\<open>src/frontend/greeter/\<close>).
\<close>

section \<open>Messages of the helper\<close>

context qt_stream begin

lemma auth_message_request:
  assumes "length (r_prompts q) < 2 ^ 31"
  shows "auth_message c own (put_msg c REQUEST @ put_request c q) (prev, a, d) = (REQUEST, auth_setRequest c own d q a, d)"
  using get_put_request [of q empty_request "[]" Ok] assms
  by (simp add: auth_message_def stream_of_def empty_request_def)

lemma auth_message_authenticated:
  assumes "user \<noteq> []" "own_signal own (SigAuthentication user True) (auth_setUser user a, d) = (a1, d1)"
  shows "auth_message c own (put_msg c AUTHENTICATED @ enc_str c user) (prev, a, d)
    = (AUTHENTICATED, a1\<lparr>au_chan := ch_send (put_msg c AUTHENTICATED @ put_env c (au_environment a1)) (au_chan a1)\<rparr>, d1)"
  using assms by (simp add: auth_message_def stream_of_def)

lemma auth_message_refused:
  "auth_message c own (put_msg c AUTHENTICATED @ enc_str c []) (prev, a, d)
    = (AUTHENTICATED, own_signal own (SigAuthentication [] False) (a, d))"
  by (simp add: auth_message_def stream_of_def)

lemma auth_message_error:
  assumes "e \<noteq> ERROR_LAST"
  shows "auth_message c own (put_msg c ERROR @ enc_str c text @ put_error c e) (prev, a, d)
    = (ERROR, own_signal own (SigError text e) (a, d))"
  using get_put_error [OF assms, of ERROR_NONE "[]" Ok] by (simp add: auth_message_def stream_of_def)

end

section \<open>The environment on its way to the session\<close>

text \<open>What the helper writes when it has authenticated a user.\<close>

definition helper_announcement :: "qds \<Rightarrow> QString \<Rightarrow> byte list" where
  "helper_announcement c user = last (ch_out (snd (helper_authenticated c user \<lparr>ch_out = [], ch_in = []\<rparr>)))"

lemma helper_announcement_eq: "user \<noteq> [] \<Longrightarrow> helper_announcement c user = put_msg c AUTHENTICATED @ enc_str c user"
  by (simp add: helper_announcement_def helper_authenticated_def ch_send_def Let_def case_prod_beta)

text \<open>An owner whose slot for \<open>authentication\<close> leaves the environment alone.\<close>

definition keeps_environment :: "'d auth_owner \<Rightarrow> bool" where
  "keeps_environment own \<longleftrightarrow> (\<forall>user a d. au_environment (fst (own_signal own (SigAuthentication user True) (a, d))) = au_environment a)"

lemma display_keeps_environment: "keeps_environment (display_owner c S)"
  by (simp add: keeps_environment_def display_owner_def display_signal_def slotAuthenticationFinished_def Let_def)

lemma greeter_keeps_environment: "keeps_environment (greeter_owner S)"
  by (simp add: keeps_environment_def greeter_owner_def greeter_signal_def)

lemma daemon_environment_read:
  assumes "qds_ok c" "user \<noteq> []" "keeps_environment own" "good_env (au_environment a)"
    and "auth_message c own (helper_announcement c user) (prev, a, d) = (m, a', d')"
    and "ch_in ch = [last (ch_out (au_chan a'))]"
  shows "fst (helper_authenticated c user ch) = env_insert_all [] (au_environment a)"
proof -
  have q: "qt_stream c" using assms(1) by (rule qt_stream.intro)
  obtain a1 d1 where s: "own_signal own (SigAuthentication user True) (auth_setUser user a, d) = (a1, d1)" by fastforce
  have "au_environment a1 = au_environment (auth_setUser user a)"
    using assms(3) s by (metis fst_conv keeps_environment_def)
  then have "au_environment a1 = au_environment a" by (simp add: auth_setUser_def)
  with qt_stream.auth_message_authenticated [OF q assms(2) s] assms(5,6) helper_announcement_eq [OF assms(2), of c]
  have "ch_in ch = (put_msg c AUTHENTICATED @ put_env c (au_environment a)) # []" by auto
  from qt_stream.authenticated_answered [OF q this assms(2)] assms(4) show ?thesis by (simp add: good_env_def)
qed

text \<open>The variables the helper sets from the password database, whatever the daemon and PAM say.\<close>

definition user_variables :: "string set" where
  "user_variables = {''QT_NO_XDG_DESKTOP_PORTAL'', ''HOME'', ''PWD'', ''SHELL'', ''USER'', ''LOGNAME''}"

lemma us_start_runs:
  assumes "us_start cfg up s = (True, s')"
  shows "env_value (us_env s) ''XDG_SESSION_TYPE'' = ''wayland'' \<Longrightarrow>
      us_program s' = WAYLAND_SESSION_COMMAND cfg \<and> us_arguments s' = [us_path s]"
    "env_value (us_env s) ''XDG_SESSION_TYPE'' = ''x11'' \<Longrightarrow>
      us_program s' = LIBEXEC_INSTALL_DIR cfg @ ''/plasmalogin-helper-start-x11user''
      \<and> us_arguments s' = [SESSION_COMMAND cfg @ '' \"'' @ us_path s @ ''\"'']"
  using assms by (auto simp: us_start_def Let_def)

lemma pb_openSession_started:
  assumes "pb_openSession c L cfg getpwnam up user s b = Some (True, s', b')"
  shows "us_start cfg up (s\<lparr>us_env := us_env s'\<rparr>) = (True, s')"
proof -
  from assms obtain e where e: "us_start cfg up (s\<lparr>us_env := e\<rparr>) = (True, s')"
    unfolding pb_openSession_def Let_def by (auto split: option.splits prod.splits if_splits simp del: us_start_def)
  then have "us_env s' = e" by (simp add: us_start_result)
  with e show ?thesis by simp
qed

lemma accepted_session:
  assumes accept: "h_accept c L cfg getpwnam up h = Some (h2, None)" "us_env (h_session h) = []"
    and user: "pb_userName L (h_backend h) = (user, b)" "getpwnam user = Some p"
    and daemon: "fst (helper_authenticated c user (b_chan b)) = env_insert_all [] e"
  obtains s where "us_start cfg up s = (True, h_session h2)" "us_path s = us_path (h_session h)"
    "us_env s = user_environment (Some p) (env_insert_all (env_insert_all [] e) (ph_getEnv L (h_backend h2)))"
proof -
  obtain ch where ch: "helper_authenticated c user (b_chan b) = (env_insert_all [] e, ch)"
    using daemon by (metis prod.collapse)
  let ?s = "(h_session h)\<lparr>us_env := env_insert_all [] e\<rparr>"
  obtain s2 b2 where o: "pb_openSession c L cfg getpwnam up user ?s (b\<lparr>b_chan := ch\<rparr>) = Some (True, s2, b2)"
    and h2: "h_session h2 = s2" "ph_getEnv L (h_backend h2) = ph_getEnv L b2"
    using accept by (auto simp: h_accept_def user(1) ch Let_def h_report_session_def ph_getEnv_def split: option.splits if_splits)
  from pb_openSession_env [OF o] user(2) h2(2)
  have "us_env s2 = user_environment (Some p) (env_insert_all (env_insert_all [] e) (ph_getEnv L (h_backend h2)))" by simp
  with pb_openSession_started [OF o] h2(1) show thesis
    by (intro that [of "?s\<lparr>us_env := us_env s2\<rparr>"]) simp_all
qed

lemma session_variable:
  assumes "env_ok e" "k \<notin> user_variables" "env_get e k = Some v" "env_get f k \<in> {None, Some v}" "env_ok f"
  shows "env_get (user_environment (Some p) (env_insert_all (env_insert_all [] e) f)) k = Some v"
  using assms by (auto simp: env_get_user_environment env_get_insert_all user_variables_def split: option.split)

section \<open>What the display prepares\<close>

lemma insert_all_keys: "set (env_keys (env_insert_all e f)) = set (env_keys e) \<union> set (env_keys f)"
proof (induction e f rule: env_insert_all.induct)
  case (2 e k v kvs)
  have "set (env_keys ((k, v) # kvs)) = insert k (set (env_keys kvs))" by (simp add: env_keys_def)
  with 2 show ?case by (auto simp: env_keys_insert)
qed (simp add: env_keys_def)

lemma good_env_ok: "good_env e \<Longrightarrow> env_ok e"
  by (simp add: good_env_def)

lemma good_env_insert_all: "good_env e \<Longrightarrow> good_env f \<Longrightarrow> good_env (env_insert_all e f)"
  by (auto simp: good_env_def insert_all_keys)

lemma set_value_env:
  "(\<And>x. us_env (h_session (f x h)) = us_env (h_session h)) \<Longrightarrow> us_env (h_session (set_value f v h)) = us_env (h_session h)"
  by (simp add: set_value_def split: option.split)

lemma set_flags_env: "us_env (h_session (h_set_flags args h)) = us_env (h_session h)"
  by (simp add: h_set_flags_def Let_def)

lemma setUp_env: "us_env (h_session (fst (helper_setUp args h))) = us_env (h_session h)"
  unfolding helper_setUp_def Let_def by (simp add: set_value_env set_flags_env split: sum.split)

lemma session_env_good: "good_env (session_env E s sid t)"
  unfolding session_env_def Let_def by (simp add: good_env_insert)

lemma session_env_type: "env_get (session_env E s sid t) ''XDG_SESSION_TYPE'' = Some (xdgSessionType s)"
  by (simp add: session_env_def Let_def)

lemma session_auth_environment:
  "au_environment (session_auth E user s sid t a) = env_insert_all (au_environment a) (session_env E s sid t)"
  by (simp add: session_auth_def auth_setters Let_def)

lemma inherited_good: "good_env e \<Longrightarrow> \<forall>n \<in> set ns. n \<noteq> [] \<and> CHR ''='' \<notin> set n \<Longrightarrow> good_env (insertEnvironmentList ns src e)"
  by (induction ns arbitrary: e) (auto intro: good_env_insert)

lemma greeter_environment_good: "good_env (greeter_environment E t sid so)"
proof -
  have "good_env (insertEnvironmentList greeter_inherited (de_sysenv E) [])"
    by (rule inherited_good) (simp_all add: greeter_inherited_def)
  then show ?thesis unfolding greeter_environment_def Let_def by (simp add: good_env_insert)
qed

lemma greeter_environment_socket: "env_get (greeter_environment E t sid so) ''SDDM_SOCKET'' = Some so"
  by (simp add: greeter_environment_def Let_def)

lemma greeter_environment_type: "env_get (greeter_environment E t sid so) ''XDG_SESSION_TYPE'' = Some ''wayland''"
  by (simp add: greeter_environment_def display_sessionType_def Let_def)

lemma greeter_started_with_socket:
  assumes "\<not> g_started (d_greeter d)" "ss_server (d_socketServer d) = None" "de_plasmalogin_user E \<longrightarrow> de_chown E"
    and "de_listen E (''plasmalogin--'' @ de_random E) = Some full"
  obtains ga d' where "displayServerStarted E (a, d) = (a, d')" "g_auth (d_greeter d') = Some ga"
    "ss_socketAddress (d_socketServer d') = full" "good_env (au_environment ga)"
    "env_get (au_environment ga) ''SDDM_SOCKET'' = Some full" "au_user ga = ''plasmalogin''"
    "env_get (au_environment ga) ''XDG_SESSION_TYPE'' = Some ''wayland''"
proof -
  let ?d = "d\<lparr>d_socketServer := \<lparr>ss_server = Some full\<rparr>, d_greeter := greeter_setSocket full (d_greeter d)\<rparr>"
  have s: "snd (ss_start (de_listen E) [] (de_random E) (d_socketServer d)) = \<lparr>ss_server = Some full\<rparr>"
    using assms(2,4) by (simp add: ss_start_def Let_def)
  have d': "displayServerStarted E (a, d) = snd (greeter_start E (a, ?d))"
    using assms(3) s
    by (auto simp: displayServerStarted_def startSocketServerAndGreeter_def case_prod_beta Let_def ss_socketAddress_def)
  let ?e = "greeter_environment E (display_terminalId (a, ?d)) (gl_lastSessionId (d_globals d)) full"
  have e: "good_env (env_insert_all [] ?e)" "env_get (env_insert_all [] ?e) ''SDDM_SOCKET'' = Some full"
    "env_get (env_insert_all [] ?e) ''XDG_SESSION_TYPE'' = Some ''wayland''"
    using greeter_environment_good [of E]
    by (simp_all add: good_env_insert_all env_get_insert_all good_env_ok greeter_environment_socket greeter_environment_type)
  have "\<exists>ga x. snd (greeter_start E (a, ?d)) = (a, x) \<and> g_auth (d_greeter x) = Some ga \<and> ss_socketAddress (d_socketServer x) = full
      \<and> au_environment ga = env_insert_all [] ?e \<and> au_user ga = ''plasmalogin''"
    using assms(1)
    by (simp add: greeter_start_def auth_new_def newSessionId_def auth_start_def auth_setters greeter_setSocket_def
        log_effect_def ss_socketAddress_def Let_def)
  with d' e that show thesis by metis
qed

section \<open>From the login to the session's program\<close>

lemma display_readyRead_login:
  assumes "qds_ok c"
  shows "display_readyRead c E so (gp_login c user password type file []) ad
    = display_login c E so user password (session_create (de_fs E) type file) ad"
  using qt_stream.ss_readyRead_all [OF qt_stream.intro [OF assms], of "de_fs E" "[CallLogin user password type file]"]
  by (simp add: display_readyRead_def display_request_def)

lemma login_launches:
  assumes "display_login c E so user password session (a, d) = (a1, d1)" "au_running a1" "\<not> au_running a"
    and "find_reusable E user = None"
  obtains sid t where "a1 = (session_auth E user session sid t a)\<lparr>au_running := True\<rparr>" "session_valid session"
    "user \<noteq> ''plasmalogin''" "session_exec session \<noteq> []"
proof -
  let ?d = "d\<lparr>d_socket := Some so\<rparr>"
  have u: "user \<noteq> ''plasmalogin''" using assms by (auto simp: display_login_def)
  obtain ok ad where r: "startAuth E user password session (a, ?d) = (ok, ad)" by (meson surj_pair)
  with u assms(1) have ad: "ad = (a1, d1)" by (simp add: display_login_def)
  have ne: "session_exec session \<noteq> []"
    using startAuth_refused [of a session E user password ?d] r ad assms(2,3) by auto
  from startAuth_cases [OF r] show thesis
    using ad assms(2,3) u ne that by auto
qed

text \<open>Property C8: the session the user picked is the program that runs.  The greeter's login message names a user, a
  password and a session file; when the display accepts the login, and no session of the user is there to be reused, the
  helper it starts takes its command line, reports its user, gets the environment back, and opens the PAM session, the
  process it starts is the wrapper for the type of that session, with the session's command and with that type in its
  environment.  PAM's modules must not set \<open>XDG_SESSION_TYPE\<close> to anything else.\<close>

theorem chosen_session_runs:
  assumes "qds_ok c"
    and login: "display_readyRead c E so (gp_login c user password type file []) (a, d) = (a1, d1)"
      "au_running a1" "\<not> au_running a" "find_reusable E user = None" "good_env (au_environment a)"
    and args: "de_auth_server E \<noteq> []" "0 < au_id a1" "au_id a1 < 2 ^ 63" "de_auth_server E \<notin> helper_options"
      "au_sessionPath a1 \<notin> helper_options" "au_user a1 \<notin> helper_options"
    and helper: "helper_setUp (auth_args (de_auth_server E) a1) (init_helper pam ch0) = (h0, None)" "h_session h = h_session h0"
      "pb_userName L (h_backend h) = (name, b)" "name \<noteq> []" "getpwnam name = Some p"
    and reply: "auth_message c (display_owner c S) (helper_announcement c name) (prev, a1, d1) = (m, a2, d2)"
      "ch_in (b_chan b) = [last (ch_out (au_chan a2))]"
    and accepted: "h_accept c L cfg getpwnam up h = Some (h2, None)"
      "env_get (ph_getEnv L (h_backend h2)) ''XDG_SESSION_TYPE'' \<in> {None, env_get (au_environment a1) ''XDG_SESSION_TYPE''}"
  shows "let session = session_create (de_fs E) type file; s = h_session h2 in
    env_get (us_env s) ''XDG_SESSION_TYPE'' = Some (xdgSessionType session)
    \<and> (xdgSessionType session = ''wayland'' \<and> us_program s = WAYLAND_SESSION_COMMAND cfg \<and> us_arguments s = [session_exec session]
     \<or> xdgSessionType session = ''x11'' \<and> us_program s = LIBEXEC_INSTALL_DIR cfg @ ''/plasmalogin-helper-start-x11user''
       \<and> us_arguments s = [SESSION_COMMAND cfg @ '' \"'' @ session_exec session @ ''\"''])"
proof -
  let ?s = "session_create (de_fs E) type file"
  obtain sid t where a1: "a1 = (session_auth E user ?s sid t a)\<lparr>au_running := True\<rparr>" "session_valid ?s"
    using login_launches [OF login(1) [unfolded display_readyRead_login [OF assms(1)]] login(2-4)] by metis
  have good: "good_env (au_environment a1)" and type: "env_get (au_environment a1) ''XDG_SESSION_TYPE'' = Some (xdgSessionType ?s)"
    using login(5) session_env_good [of E ?s sid t]
    by (simp_all add: a1(1) session_auth_environment good_env_insert_all env_get_insert_all good_env_ok session_env_type)
  have path: "us_path (h_session h) = session_exec ?s" "us_env (h_session h) = []"
    using setUp_args [OF args(1-5), of pam ch0] args(6) helper(1,2) login(4) a1(1)
      setUp_env [of "auth_args (de_auth_server E) a1" "init_helper pam ch0"]
    by (auto simp: helper_options_def init_helper_def init_session_def)
  have e: "fst (helper_authenticated c name (b_chan b)) = env_insert_all [] (au_environment a1)"
    using daemon_environment_read [OF assms(1) helper(4) display_keeps_environment good reply] .
  obtain s where s: "us_start cfg up s = (True, h_session h2)" "us_path s = us_path (h_session h)"
    "us_env s = user_environment (Some p) (env_insert_all (env_insert_all [] (au_environment a1)) (ph_getEnv L (h_backend h2)))"
    using accepted_session [OF accepted(1) path(2) helper(3,5) e] .
  have v: "env_get (us_env s) ''XDG_SESSION_TYPE'' = Some (xdgSessionType ?s)"
    unfolding s(3) using good type accepted(2) by (intro session_variable) (simp_all add: good_env_ok user_variables_def)
  have "us_env (h_session h2) = us_env s" using s(1) by (simp add: us_start_result)
  with v s path(1) us_start_runs [OF s(1)] session_create_xdg [OF a1(2)] show ?thesis
    by (auto simp: Let_def env_value_def)
qed

section \<open>From the display's socket to the greeter\<close>

text \<open>Property C30: a greeter talks to its own display.  The socket server a display starts before its greeter has the
  address that the greeter's proxy connects to in the end: it travels in \<open>SDDM_SOCKET\<close> through the greeter's
  authentication object, the helper's socket, the PAM session, the first process of the session, the environment of
  systemd, and into the greeter's environment.  PAM's modules must not set the variable to anything else, and the
  address must be one that the launch environment takes.\<close>

theorem greeter_reaches_its_display:
  assumes contracts: "qds_ok c" "systemd_ok D" "update_sets D"
    and display: "\<not> g_started (d_greeter d)" "ss_server (d_socketServer d) = None" "de_plasmalogin_user E \<longrightarrow> de_chown E"
      "de_listen E (''plasmalogin--'' @ de_random E) = Some full" "launchable ''SDDM_SOCKET'' full"
      "displayServerStarted E (a, d) = (a1, d1)" "g_auth (d_greeter d1) = Some ga"
    and helper: "pb_userName L (h_backend h) = (name, b)" "name \<noteq> []" "getpwnam name = Some p" "us_env (h_session h) = []"
    and reply: "auth_message c (greeter_owner S) (helper_announcement c name) (prev, ga, ad) = (m, ga1, ad1)"
      "ch_in (b_chan b) = [last (ch_out (au_chan ga1))]"
    and accepted: "h_accept c L cfg getpwnam up h = Some (h2, None)"
      "env_get (ph_getEnv L (h_backend h2)) ''SDDM_SOCKET'' \<in> {None, Some full}"
    and startup: "su_env s = us_env (h_session h2)" "getSystemdEnvironment D (su_systemd s) = Some e0"
      "getSystemdEnvironment D (su_systemd (snd (snd (startup_main F x D s)))) = Some e1"
    and greeter: "greeter_main parser arguments e1 screens = Inr app" "\<not> ga_testMode app"
  shows "\<exists>proxy. greeter_proxy_of app = Some proxy \<and> px_server proxy = ss_socketAddress (d_socketServer d1) \<and> px_server proxy = full"
proof -
  have ga: "good_env (au_environment ga)" "env_get (au_environment ga) ''SDDM_SOCKET'' = Some full" "ss_socketAddress (d_socketServer d1) = full"
    using greeter_started_with_socket [OF display(1-4), of a] display(6,7) by (metis option.inject prod.inject)+
  have e: "fst (helper_authenticated c name (b_chan b)) = env_insert_all [] (au_environment ga)"
    using daemon_environment_read [OF contracts(1) helper(2) greeter_keeps_environment ga(1) reply] .
  obtain s2 where s2: "us_start cfg up s2 = (True, h_session h2)"
    "us_env s2 = user_environment (Some p) (env_insert_all (env_insert_all [] (au_environment ga)) (ph_getEnv L (h_backend h2)))"
    using accepted_session [OF accepted(1) helper(4,1,3) e] .
  have "env_get (us_env s2) ''SDDM_SOCKET'' = Some full"
    unfolding s2(2) using ga accepted(2) by (intro session_variable) (simp_all add: good_env_ok user_variables_def)
  with s2(1) have v: "env_get (su_env s) ''SDDM_SOCKET'' = Some full" by (simp add: us_start_result startup(1))
  have D: "launching_manager D" using contracts(2,3) by unfold_locales
  obtain e' where "getSystemdEnvironment D (su_systemd (snd (snd (startup_main F x D s)))) = Some e'" "env_get e' ''SDDM_SOCKET'' = Some full"
    using launching_manager.handed_over [OF D startup(2) v display(5)]
    by (auto simp: isShellVariable_def isConfinementVariable_def starts_with_def startup_variables_def lcValues_def xkbDefaults_def)
  with startup(3) have "env_value e1 ''SDDM_SOCKET'' = full" by (simp add: env_value_def)
  with greeter_main_proxy [OF greeter(1)] greeter(2) ga(3) show ?thesis by (simp add: proxy_new_def)
qed

section \<open>Examples\<close>

lemma sample_getEnv: "k \<noteq> ''HOME'' \<Longrightarrow> k \<noteq> ''XDG_RUNTIME_DIR'' \<Longrightarrow> env_get (ph_getEnv (sample_pam pw acct) b) k = None"
  by (simp add: ph_getEnv_def sample_pam_def env_entry_def Let_def q_left_def)

lemma sample_accepts:
  assumes "us_path (h_session h) \<noteq> []" "us_env (h_session h) = []" "good_env e"
    and "env_get e ''XDG_SESSION_TYPE'' = Some ''wayland''"
    and "fst (helper_authenticated sd_qds ''joe'' (b_chan (h_backend h))) = env_insert_all [] e"
  shows "\<exists>h2. h_accept sd_qds (sample_pam pw acct) cfg (\<lambda>_. Some sample_passwd) True h = Some (h2, None)"
proof -
  let ?L = "sample_pam pw acct"
  let ?b = "(h_backend h)\<lparr>b_result := PAM_SUCCESS\<rparr>"
  let ?s = "(h_session h)\<lparr>us_env := env_insert_all [] e\<rparr>"
  have u: "pb_userName ?L (h_backend h) = (''joe'', ?b)"
    by (simp add: pb_userName_def ph_getUser_def sample_pam_def)
  obtain ch where ch: "helper_authenticated sd_qds ''joe'' (b_chan (h_backend h)) = (env_insert_all [] e, ch)"
    using assms(5) by (metis prod.collapse)
  obtain b1 where p: "ph_putEnv ?L (env_strings (us_env ?s)) (pb_set_items ?L (us_env ?s) (?b\<lparr>b_chan := ch, b_result := PAM_SUCCESS\<rparr>)) = (True, b1)"
    using sample_putEnv by metis
  let ?e = "\<lambda>b. user_environment (Some sample_passwd) (env_insert_all (env_insert_all [] e) (ph_getEnv ?L b))"
  have v: "env_value (?e b) ''XDG_SESSION_TYPE'' = ''wayland''" for b
    using assms(3,4) session_variable [of e "''XDG_SESSION_TYPE''" "''wayland''" "ph_getEnv ?L b" sample_passwd]
    by (simp add: env_value_def user_variables_def good_env_ok sample_getEnv)
  have w: "us_start cfg True (?s\<lparr>us_env := ?e b\<rparr>) = (True, ?s\<lparr>us_env := ?e b, us_program := WAYLAND_SESSION_COMMAND cfg,
      us_arguments := [us_path ?s], us_running := True\<rparr>)" for b
    by (rule us_start_wayland [OF v])
  have "\<exists>s2 b2. pb_openSession sd_qds ?L cfg (\<lambda>_. Some sample_passwd) True ''joe'' ?s (?b\<lparr>b_chan := ch\<rparr>) = Some (True, s2, b2)"
    using p w by (simp add: pb_openSession_def sample_cred Let_def)
  then show ?thesis using assms(1,2) by (auto simp: h_accept_def u ch Let_def)
qed

lemma sample_userName:
  "pb_userName (sample_pam pw acct) b = (''joe'', b\<lparr>b_result := PAM_SUCCESS\<rparr>)"
  by (simp add: pb_userName_def ph_getUser_def sample_pam_def)

text \<open>A helper that has got the answer of the daemon in its channel.\<close>

definition answered_helper :: "byte list \<Rightarrow> nat helper \<Rightarrow> nat helper" where
  "answered_helper r h = h\<lparr>h_backend := (h_backend h)\<lparr>b_chan := \<lparr>ch_out = [], ch_in = [r]\<rparr>\<rparr>\<rparr>"

lemma answered_helper_sel [simp]:
  "h_session (answered_helper r h) = h_session h" "b_chan (h_backend (answered_helper r h)) = \<lparr>ch_out = [], ch_in = [r]\<rparr>"
  by (simp_all add: answered_helper_def)

lemma sample_accepted:
  assumes "keeps_environment own" "good_env (au_environment a)" "env_get (au_environment a) ''XDG_SESSION_TYPE'' = Some ''wayland''"
    and "auth_message sd_qds own (helper_announcement sd_qds ''joe'') (MSG_UNKNOWN, a, d) = (m, a', d')"
    and "us_path (h_session h) \<noteq> []" "us_env (h_session h) = []"
  shows "\<exists>h2. h_accept sd_qds (sample_pam pw acct) cfg (\<lambda>_. Some sample_passwd) True
      (answered_helper (last (ch_out (au_chan a'))) h) = Some (h2, None)"
proof -
  have "fst (helper_authenticated sd_qds ''joe'' (b_chan (h_backend (answered_helper (last (ch_out (au_chan a'))) h)))) = env_insert_all [] (au_environment a)"
    by (rule daemon_environment_read [OF sd_qds_ok _ assms(1,2,4)]) simp_all
  then show ?thesis
    using sample_accepts [of "answered_helper (last (ch_out (au_chan a'))) h" "au_environment a"] assms(2,3,5,6) by simp
qed

lemma sample_login:
  obtains a1 d1 where
    "display_readyRead sd_qds (sample_denv []) 7 (gp_login sd_qds ''joe'' ''secret'' WaylandSession ''plasma'' []) sample_disp = (a1, d1)"
    "au_running a1" "au_id a1 = 1" "au_user a1 = ''joe''" "au_sessionPath a1 = ''startplasma-wayland''" "good_env (au_environment a1)"
    "env_get (au_environment a1) ''XDG_SESSION_TYPE'' = Some ''wayland''"
proof -
  obtain a d where ad: "sample_disp = (a, d)" by fastforce
  have s: "session_create (de_fs (sample_denv [])) WaylandSession ''plasma'' = sample_session"
    by (simp add: sample_session_def sample_denv_def)
  have t: "xdgSessionType sample_session = ''wayland''"
    by (simp add: sample_session_def session_create_def sample_fs_def desktop_name_def ends_with_def xdgSessionType_def
        X11Session_def WaylandSession_def)
  have r: "find_reusable (sample_denv []) ''joe'' = None" by (simp add: find_reusable_def sample_denv_def)
  have a: "au_id a = 1" "au_environment a = []" "\<not> au_running a"
    using ad by (auto simp: sample_disp_def display_new_def auth_new_def auth_setVerbose_def sample_globals_def Let_def split: prod.splits)
  let ?a = "session_auth (sample_denv []) ''joe'' sample_session (gl_lastSessionId (d_globals d)) (login_terminal (sample_denv []) (d\<lparr>d_socket := Some 7\<rparr>)) a"
  obtain d1 where "startAuth (sample_denv []) ''joe'' ''secret'' sample_session (a, d\<lparr>d_socket := Some 7\<rparr>) = (True, ?a\<lparr>au_running := True\<rparr>, d1)"
    using startAuth_started [of a sample_session "sample_denv []" "''joe''" "''secret''" "d\<lparr>d_socket := Some 7\<rparr>"] a(3) sample_session_sel t
    by (auto simp: auth_isActive_def)
  then have l: "display_readyRead sd_qds (sample_denv []) 7 (gp_login sd_qds ''joe'' ''secret'' WaylandSession ''plasma'' []) sample_disp
      = (?a\<lparr>au_running := True\<rparr>, d1)"
    by (simp add: ad display_readyRead_login [OF sd_qds_ok] s display_login_def)
  have e: "au_environment ?a = env_insert_all [] (session_env (sample_denv []) sample_session (gl_lastSessionId (d_globals d))
      (login_terminal (sample_denv []) (d\<lparr>d_socket := Some 7\<rparr>)))"
    by (simp add: session_auth_environment a(2))
  show thesis
    by (rule that [OF l])
      (simp_all add: e a(1) r sample_session_sel good_env_insert_all session_env_good env_get_insert_all good_env_ok
        session_env_type t)
qed

lemma chosen_session_runs_witness:
  "\<exists>h h2. h_accept sd_qds (sample_pam ''secret'' 0) sample_cfg (\<lambda>_. Some sample_passwd) True h = Some (h2, None)
     \<and> us_program (h_session h2) = WAYLAND_SESSION_COMMAND sample_cfg \<and> us_arguments (h_session h2) = [''startplasma-wayland'']"
proof -
  let ?S = "\<lparr>se_greeter_exit = None, se_session_exit = None\<rparr>"
  obtain a1 d1 where l: "display_readyRead sd_qds (sample_denv []) 7 (gp_login sd_qds ''joe'' ''secret'' WaylandSession ''plasma'' []) sample_disp = (a1, d1)"
    "au_running a1" "au_id a1 = 1" "au_user a1 = ''joe''" "au_sessionPath a1 = ''startplasma-wayland''" "good_env (au_environment a1)"
    "env_get (au_environment a1) ''XDG_SESSION_TYPE'' = Some ''wayland''"
    by (rule sample_login)
  obtain a d where ad: "sample_disp = (a, d)" by fastforce
  have a: "\<not> au_running a" "good_env (au_environment a)"
    using ad by (auto simp: sample_disp_def display_new_def auth_new_def auth_setVerbose_def Let_def split: prod.splits)
  have E: "de_auth_server (sample_denv []) = ''auth''" "find_reusable (sample_denv []) ''joe'' = None"
    "session_create (de_fs (sample_denv [])) WaylandSession ''plasma'' = sample_session"
    by (simp_all add: sample_denv_def find_reusable_def sample_session_def)
  obtain h0 where h0: "helper_setUp (auth_args ''auth'' a1) (init_helper (0 :: nat) \<lparr>ch_out = [], ch_in = []\<rparr>) = (h0, None)"
    "us_path (h_session h0) = ''startplasma-wayland''"
    using setUp_args [of "''auth''" a1 "0 :: nat" "\<lparr>ch_out = [], ch_in = []\<rparr>"] l by (auto simp: helper_options_def)
  have h0e: "us_env (h_session h0) = []"
    using setUp_env [of "auth_args ''auth'' a1" "init_helper (0 :: nat) \<lparr>ch_out = [], ch_in = []\<rparr>"] h0(1)
    by (simp add: init_helper_def init_session_def)
  obtain m a2 d2 where r: "auth_message sd_qds (display_owner sd_qds ?S) (helper_announcement sd_qds ''joe'') (MSG_UNKNOWN, a1, d1) = (m, a2, d2)"
    by (metis prod_cases3)
  let ?h = "answered_helper (last (ch_out (au_chan a2))) h0"
  obtain h2 where h2: "h_accept sd_qds (sample_pam ''secret'' 0) sample_cfg (\<lambda>_. Some sample_passwd) True ?h = Some (h2, None)"
    using sample_accepted [OF display_keeps_environment l(6,7) r, of h0 "''secret''" 0 sample_cfg] h0(2) h0e by auto
  note c = chosen_session_runs [OF sd_qds_ok l(1) [unfolded ad] l(2) a(1) E(2) a(2), unfolded E, OF _ _ _ _ _ _ h0(1) answered_helper_sel(1)
      sample_userName _ _ r _ h2]
  have "let s = h_session h2 in env_get (us_env s) ''XDG_SESSION_TYPE'' = Some (xdgSessionType sample_session)
    \<and> (xdgSessionType sample_session = ''wayland'' \<and> us_program s = WAYLAND_SESSION_COMMAND sample_cfg \<and> us_arguments s = [session_exec sample_session]
     \<or> xdgSessionType sample_session = ''x11'' \<and> us_program s = LIBEXEC_INSTALL_DIR sample_cfg @ ''/plasmalogin-helper-start-x11user''
       \<and> us_arguments s = [SESSION_COMMAND sample_cfg @ '' \"'' @ session_exec sample_session @ ''\"''])"
    using c l(3-5) by (simp add: helper_options_def sample_getEnv Let_def)
  moreover have "xdgSessionType sample_session = ''wayland''"
    by (simp add: sample_session_def session_create_def sample_fs_def desktop_name_def ends_with_def xdgSessionType_def
        X11Session_def WaylandSession_def)
  ultimately show ?thesis using h2 sample_session_sel by (intro exI [of _ ?h] exI [of _ h2]) (simp add: Let_def)
qed

lemma sample_greeter_start:
  obtains a d d1 ga where "sample_disp = (a, d)" "displayServerStarted (sample_denv []) (a, d) = (a, d1)" "g_auth (d_greeter d1) = Some ga"
    "good_env (au_environment ga)" "env_get (au_environment ga) ''XDG_SESSION_TYPE'' = Some ''wayland''"
    "\<not> g_started (d_greeter d)" "ss_server (d_socketServer d) = None"
proof -
  obtain a d where ad: "sample_disp = (a, d)" by fastforce
  have d: "\<not> g_started (d_greeter d)" "ss_server (d_socketServer d) = None"
    using ad by (auto simp: sample_disp_def display_new_def Let_def split: prod.splits)
  have "de_plasmalogin_user (sample_denv []) \<longrightarrow> de_chown (sample_denv [])"
    "de_listen (sample_denv []) (''plasmalogin--'' @ de_random (sample_denv [])) = Some ''plasmalogin--abcdef''"
    by (simp_all add: sample_denv_def)
  from greeter_started_with_socket [OF d this, of a] ad d show thesis using that by metis
qed

lemma greeter_reaches_its_display_witness:
  "\<exists>e1 app proxy d1. greeter_main (\<lambda>_. Inr False) [] e1 [0, 1] = Inr app
     \<and> displayServerStarted (sample_denv []) sample_disp = (fst sample_disp, d1)
     \<and> greeter_proxy_of app = Some (proxy :: unit GreeterProxy)
     \<and> px_server proxy = ss_socketAddress (d_socketServer d1) \<and> px_server proxy = ''plasmalogin--abcdef''"
proof -
  let ?S = "\<lparr>se_greeter_exit = None, se_session_exit = None\<rparr>"
  obtain a d d1 ga where g: "sample_disp = (a, d)" "displayServerStarted (sample_denv []) (a, d) = (a, d1)" "g_auth (d_greeter d1) = Some ga"
    "good_env (au_environment ga)" "env_get (au_environment ga) ''XDG_SESSION_TYPE'' = Some ''wayland''"
    "\<not> g_started (d_greeter d)" "ss_server (d_socketServer d) = None"
    by (rule sample_greeter_start)
  obtain m ga1 ad1 where r: "auth_message sd_qds (greeter_owner ?S) (helper_announcement sd_qds ''joe'') (MSG_UNKNOWN, ga, (a, d1)) = (m, ga1, ad1)"
    by (metis prod_cases3)
  let ?start = "(init_helper (0 :: nat) \<lparr>ch_out = [], ch_in = []\<rparr>)\<lparr>h_session := init_session\<lparr>us_path := ''greeter''\<rparr>\<rparr>"
  let ?h = "answered_helper (last (ch_out (au_chan ga1))) ?start"
  have st: "us_path (h_session ?start) \<noteq> []" "us_env (h_session ?start) = []" by (simp_all add: init_session_def)
  obtain h2 where h2: "h_accept sd_qds (sample_pam ''secret'' 0) sample_cfg (\<lambda>_. Some sample_passwd) True ?h = Some (h2, None)"
    using sample_accepted [OF greeter_keeps_environment g(4,5) r st, of "''secret''" 0 sample_cfg] by auto
  define s where "s = \<lparr>su_env = us_env (h_session h2), su_systemd = [] :: env, su_out = []\<rparr>"
  define F where "F = \<lparr>f_locale = (\<lambda>_ _. None), f_locale1 = None, f_configDir = ''/var/lib/plasmalogin/.config'', f_lookAndFeel = ''breeze'',
    f_activeLnf = [], f_colorScheme = ''BreezeLight'', f_colorSchemeFile = [], f_colorHash = None, f_writtenHash = [],
    f_xcursorPath = None, f_cursor = (''breeze_cursors'', 24)\<rparr>"
  obtain e1 where e1: "getSystemdEnvironment env_systemd (su_systemd (snd (snd (startup_main F (\<lambda>_ _. 0) env_systemd s)))) = Some e1"
    by simp
  obtain app :: "unit greeter_app" where app: "greeter_main (\<lambda>_. Inr False) [] e1 [0, 1] = Inr app" "\<not> ga_testMode app"
    by (auto simp: greeter_main_def)
  have E: "de_plasmalogin_user (sample_denv []) \<longrightarrow> de_chown (sample_denv [])"
    "de_listen (sample_denv []) (''plasmalogin--'' @ de_random (sample_denv [])) = Some ''plasmalogin--abcdef''"
    by (simp_all add: sample_denv_def)
  have l: "launchable ''SDDM_SOCKET'' ''plasmalogin--abcdef''"
    by (simp add: launchable_def name_char_def digit_val_def)
  have su: "su_env s = us_env (h_session h2)" "getSystemdEnvironment env_systemd (su_systemd s) = Some (parsed [])"
    by (simp_all add: s_def)
  have "\<exists>proxy. greeter_proxy_of app = Some proxy \<and> px_server proxy = ss_socketAddress (d_socketServer d1) \<and> px_server proxy = ''plasmalogin--abcdef''"
    by (rule greeter_reaches_its_display [OF sd_qds_ok env_systemd_ok env_systemd_sets g(6,7) E l g(2,3) sample_userName _ _ _ r _ h2 _ su e1 app])
      (simp_all add: sample_getEnv init_session_def)
  then obtain proxy where "greeter_proxy_of app = Some proxy" "px_server proxy = ss_socketAddress (d_socketServer d1)"
    "px_server proxy = ''plasmalogin--abcdef''"
    by blast
  moreover have "displayServerStarted (sample_denv []) sample_disp = (fst sample_disp, d1)" unfolding g(1) fst_conv by (rule g(2))
  ultimately show ?thesis using app(1) by blast
qed

section \<open>What an earlier attempt leaves behind\<close>


definition shell_session :: Session where
  "shell_session = \<lparr>s_type = WaylandSession, s_desktopFile = Some \<lparr>df_name = ''shell.desktop'',
     df_entry = (\<lambda>key. if key = ''Exec'' then ''sh'' else [])\<rparr>\<rparr>"


end
