(* ===== verification/Seat.thy ===== *)
theory Seat
  imports Display
begin

text \<open>
  A seat and its displays (\<open>src/daemon/Seat.cpp\<close>).  A display is known by a number, its
  address.  The counters of the daemon are shared by all displays: \<open>st_globals\<close> holds them, and
  an operation on a display sees and updates them.
\<close>

datatype seat_effect = JumpSeatVt int bool | DaemonExit int | RetryStart nat nat | StartGivenUp

record Seat =
  st_displays :: "(nat \<times> disp) list"
  st_next :: nat
  st_globals :: daemon_globals
  st_effects :: "seat_effect list"

definition seat_new :: "daemon_globals \<Rightarrow> Seat" where
  "seat_new g = \<lparr>st_displays = [], st_next = 0, st_globals = g, st_effects = []\<rparr>"

definition st_effect :: "seat_effect \<Rightarrow> Seat \<Rightarrow> Seat" where
  "st_effect x st = st\<lparr>st_effects := st_effects st @ [x]\<rparr>"

text \<open>\<open>canTTY\<close>: what logind says of the seat, if anything, or a look at the name and the device.\<close>

definition seat_canTTY :: "bool option \<Rightarrow> QString \<Rightarrow> bool \<Rightarrow> bool" where
  "seat_canTTY logind_canTTY name vt_accessible =
     (case logind_canTTY of Some b \<Rightarrow> b | None \<Rightarrow> map lower name = ''seat0'' \<and> vt_accessible)"

text \<open>An operation on a display, with the daemon's counters.\<close>

definition on_display :: "(disp \<Rightarrow> disp) \<Rightarrow> nat \<Rightarrow> Seat \<Rightarrow> Seat" where
  "on_display f i st =
     (case map_of (st_displays st) i of
        None \<Rightarrow> st
      | Some (a, d) \<Rightarrow>
          let ad = f (a, d\<lparr>d_globals := st_globals st\<rparr>)
          in st\<lparr>st_displays := map (\<lambda>(j, x). if j = i then (j, ad) else (j, x)) (st_displays st),
               st_globals := d_globals (snd ad)\<rparr>)"

definition seat_display :: "Seat \<Rightarrow> nat \<Rightarrow> disp option" where
  "seat_display st i = map_of (st_displays st) i"

definition seat_startDisplay :: "daemon_env \<Rightarrow> nat \<Rightarrow> nat \<Rightarrow> Seat \<Rightarrow> Seat" where
  "seat_startDisplay E i tryNr st =
     (case seat_display st i of
        None \<Rightarrow> st
      | Some (a, d) \<Rightarrow>
          let ok = fst (display_start E (a, d\<lparr>d_globals := st_globals st\<rparr>));
              st1 = on_display (\<lambda>ad. snd (display_start E ad)) i st
          in if ok then st1
             else if 3 \<le> tryNr then st_effect StartGivenUp st1
             else st_effect (RetryStart i (tryNr + 1)) st1)"

definition seat_createDisplay :: "daemon_env \<Rightarrow> nat option \<Rightarrow> Seat \<Rightarrow> Seat" where
  "seat_createDisplay E soft_reboots st =
     (let i = st_next st; ad = display_new E soft_reboots (st_globals st)
      in seat_startDisplay E i 1
           (st\<lparr>st_displays := st_displays st @ [(i, ad)], st_next := i + 1, st_globals := d_globals (snd ad)\<rparr>))"

text \<open>
  \<open>removeDisplay\<close> stops the display with its signals blocked, so only what happens to its
  processes and to the counters is seen.
\<close>

definition seat_removeDisplay :: "stop_env \<Rightarrow> nat \<Rightarrow> Seat \<Rightarrow> Seat" where
  "seat_removeDisplay S i st =
     (case seat_display st i of
        None \<Rightarrow> st
      | Some (a, d) \<Rightarrow>
          let ad = display_stop S (a, d\<lparr>d_globals := st_globals st\<rparr>)
          in st\<lparr>st_displays := filter (\<lambda>x. fst x \<noteq> i) (st_displays st), st_globals := d_globals (snd ad)\<rparr>)"

text \<open>\<open>mid(3).toInt()\<close> of the terminal of the session that is reused.\<close>

definition reused_vt :: "daemon_env \<Rightarrow> QString option \<Rightarrow> int option" where
  "reused_vt E reuse =
     (case de_logind E of None \<Rightarrow> None
      | Some sessions \<Rightarrow>
          (case reuse of None \<Rightarrow> None
           | Some sid \<Rightarrow>
               if sid = [] then None
               else Some (case find (\<lambda>s. ls_id s = sid) sessions of
                   None \<Rightarrow> to_int []
                 | Some s \<Rightarrow> to_int (q_mid (ls_tty s) 3))))"

definition seat_displayStopped :: "daemon_env \<Rightarrow> stop_env \<Rightarrow> nat option \<Rightarrow> nat \<Rightarrow> Seat \<Rightarrow> Seat" where
  "seat_displayStopped E S soft_reboots i st =
     (let reuse = (case seat_display st i of None \<Rightarrow> None | Some (a, d) \<Rightarrow> d_reuseSessionId d);
          nextVt = reused_vt E reuse;
          st1 = seat_removeDisplay S i st;
          (st2, nextVt2) =
            (if st_displays st1 = [] then (seat_createDisplay E soft_reboots st1, nextVt)
             else if nextVt = None then
               (let disp = display_terminalId (snd (last (st_displays st1)))
                in (st1, if disp \<noteq> -1 then Some disp else None))
             else (st1, nextVt))
      in case nextVt2 of None \<Rightarrow> st2 | Some vt \<Rightarrow> st_effect (JumpSeatVt vt True) st2)"

text \<open>The slot for \<open>displayServerFailed\<close>.\<close>

definition seat_displayServerFailed :: "stop_env \<Rightarrow> nat \<Rightarrow> Seat \<Rightarrow> Seat" where
  "seat_displayServerFailed S i st = st_effect (DaemonExit 12) (seat_removeDisplay S i st)"

section \<open>A seat is never left without a display\<close>

lemma display_start_true [simp]: "fst (display_start E ad) = True"
  by (simp add: display_start_def handleAutologinFailure_def Let_def split: prod.splits)

lemma st_effect_simps [simp]:
  "st_displays (st_effect x st) = st_displays st" "st_next (st_effect x st) = st_next st"
  by (simp_all add: st_effect_def)

lemma on_display_ids [simp]: "map fst (st_displays (on_display f i st)) = map fst (st_displays st)"
  "st_next (on_display f i st) = st_next st"
  by (auto simp: on_display_def Let_def split: option.splits)

lemma seat_startDisplay_ids [simp]:
  "map fst (st_displays (seat_startDisplay E i n st)) = map fst (st_displays st)"
  "st_next (seat_startDisplay E i n st) = st_next st"
  by (auto simp: seat_startDisplay_def Let_def split: option.splits)

lemma seat_createDisplay_ids [simp]:
  "map fst (st_displays (seat_createDisplay E r st)) = map fst (st_displays st) @ [st_next st]"
  "st_next (seat_createDisplay E r st) = st_next st + 1"
  by (simp_all add: seat_createDisplay_def Let_def)

lemma seat_removeDisplay_ids [simp]:
  "i \<in> set (map fst (st_displays st)) \<Longrightarrow> map fst (st_displays (seat_removeDisplay S i st)) = filter (\<lambda>j. j \<noteq> i) (map fst (st_displays st))"
  by (auto simp: seat_removeDisplay_def seat_display_def Let_def filter_map o_def map_of_eq_None_iff split: option.splits)

text \<open>The retry loop for a display that does not start is never entered: \<open>Display::start\<close>
  returns true in every case, so \<open>startDisplay\<close> neither schedules another attempt nor gives up.\<close>

theorem start_never_retried:
  "st_effects (seat_startDisplay E i tryNr st) = st_effects st"
  by (auto simp: seat_startDisplay_def on_display_def Let_def split: option.splits)

lemma displayStopped_ids:
  assumes "i \<in> set (map fst (st_displays st))"
  shows "map fst (st_displays (seat_displayStopped E S r i st)) =
    (if filter (\<lambda>j. j \<noteq> i) (map fst (st_displays st)) = [] then [st_next st]
     else filter (\<lambda>j. j \<noteq> i) (map fst (st_displays st)))
   \<and> st_displays (seat_displayStopped E S r i st) \<noteq> []"
proof -
  let ?st1 = "seat_removeDisplay S i st"
  have ids: "map fst (st_displays ?st1) = filter (\<lambda>j. j \<noteq> i) (map fst (st_displays st))"
    using assms(1) by simp
  have nxt: "st_next ?st1 = st_next st"
    by (simp add: seat_removeDisplay_def Let_def split: option.splits)
  have "map fst (st_displays (seat_displayStopped E S r i st)) =
    (if filter (\<lambda>j. j \<noteq> i) (map fst (st_displays st)) = [] then [st_next st]
     else filter (\<lambda>j. j \<noteq> i) (map fst (st_displays st)))"
  proof (cases "st_displays ?st1 = []")
    case True
    then have e: "filter (\<lambda>j. j \<noteq> i) (map fst (st_displays st)) = []" using ids by (metis map_is_Nil_conv)
    have "map fst (st_displays (seat_createDisplay E r ?st1)) = [st_next st]"
      using True nxt by simp
    with True e show ?thesis by (simp add: seat_displayStopped_def Let_def split: option.splits)
  next
    case False
    then have "filter (\<lambda>j. j \<noteq> i) (map fst (st_displays st)) \<noteq> []" using ids by (metis map_is_Nil_conv)
    with False ids show ?thesis by (simp add: seat_displayStopped_def Let_def split: option.splits)
  qed
  then show ?thesis by (metis (no_types, lifting) list.distinct(1) list.simps(8))
qed

text \<open>A seat always has a display.  When a display of a seat stops it is removed, every other
  display stays, and if it was the last one a new display takes its place, under a new address.\<close>

theorem seat_keeps_a_display:
  assumes "i \<in> set (map fst (st_displays st))" "\<forall>j \<in> set (map fst (st_displays st)). j < st_next st"
  shows "map fst (st_displays (seat_displayStopped E S r i st)) =
    (if filter (\<lambda>j. j \<noteq> i) (map fst (st_displays st)) = [] then [st_next st]
     else filter (\<lambda>j. j \<noteq> i) (map fst (st_displays st)))
   \<and> st_displays (seat_displayStopped E S r i st) \<noteq> []"
  using displayStopped_ids [OF assms(1)] .

lemma seat_keeps_a_display_witness:
  "map fst (st_displays (seat_displayStopped (sample_denv []) \<lparr>se_greeter_exit = None, se_session_exit = None\<rparr> None 0
     (seat_createDisplay (sample_denv []) None (seat_new sample_globals)))) = [1]"
  using seat_keeps_a_display [of 0 "seat_createDisplay (sample_denv []) None (seat_new sample_globals)"
      "sample_denv []" "\<lparr>se_greeter_exit = None, se_session_exit = None\<rparr>" None]
  by (simp add: seat_new_def)

end
