(* ===== verification/Session_End.thy ===== *)
theory Session_End
  imports Handover Seat
begin

text \<open>
  What follows the end of a session, across the daemon's parts: the helper of the session exits (\<open>Auth::Private::childExited\<close>), its
  display stops (\<open>Display::slotHelperFinished\<close>), the seat replaces the display (\<open>Seat::displayStopped\<close>), and the
  new display's greeter is started when the event loop comes to it (\<open>Display::displayServerStarted\<close>).
\<close>

section \<open>Stopping leaves the first-login lock alone\<close>

lemma lock_simps [simp]:
  "gl_firstLoginLock (d_globals (stop_auth x a d)) = gl_firstLoginLock (d_globals d)"
  "gl_firstLoginLock (d_globals (greeter_gone d)) = gl_firstLoginLock (d_globals d)"
  "gl_firstLoginLock (d_globals (tty_failed d)) = gl_firstLoginLock (d_globals d)"
  "gl_firstLoginLock (d_globals (snd (stop_tail ad))) = gl_firstLoginLock (d_globals (snd ad))"
  by (simp_all add: stop_auth_def greeter_gone_def tty_failed_def stop_tail_def Let_def)

lemma greeter_stop_lock:
  assumes "\<And>x. gl_firstLoginLock (d_globals (snd (stop x))) = gl_firstLoginLock (d_globals (snd x))"
  shows "gl_firstLoginLock (d_globals (snd (greeter_stop_with stop S ad))) = gl_firstLoginLock (d_globals (snd ad))"
  using assms by (simp add: greeter_stop_with_def greeter_exited_def case_prod_beta Let_def split: option.splits)

lemma session_stop_lock:
  assumes "\<And>x. gl_firstLoginLock (d_globals (snd (stop x))) = gl_firstLoginLock (d_globals (snd x))"
  shows "gl_firstLoginLock (d_globals (snd (session_stop_with stop S ad))) = gl_firstLoginLock (d_globals (snd ad))"
  using assms by (simp add: session_stop_with_def case_prod_beta Let_def split: option.splits)

lemma stop_n_lock: "gl_firstLoginLock (d_globals (snd (display_stop_n n S ad))) = gl_firstLoginLock (d_globals (snd ad))"
proof (induction n arbitrary: ad)
  case (Suc n)
  then show ?case by (simp add: display_stop_n.simps session_stop_lock greeter_stop_lock)
qed (simp add: display_stop_n.simps)

lemma childExited_stops:
  assumes "d_started d" "normal \<longrightarrow> code \<noteq> HELPER_AUTH_ERROR"
  obtains a1 d1 where "auth_childExited code normal text (display_owner c S) (a, d) = (a1, d1)" "\<not> d_started d1"
    "last (d_log d1) = EmitStopped" "gl_firstLoginLock (d_globals d1) = gl_firstLoginLock (d_globals d)"
proof -
  define x where "x = (if normal then (a\<lparr>au_running := False\<rparr>, d)
      else display_signal c S (SigError text ERROR_INTERNAL) (a\<lparr>au_running := False\<rparr>, d))"
  have x: "d_started (snd x)" "gl_firstLoginLock (d_globals (snd x)) = gl_firstLoginLock (d_globals d)"
    using assms(1) by (auto simp: x_def display_signal_def slotAuthError_def on_client_def Let_def split: option.splits)
  have "auth_childExited code normal text (display_owner c S) (a, d) = display_stop S x"
    using assms(2) by (auto simp: auth_childExited_def display_owner_def display_signal_def slotHelperFinished_def x_def
        HELPER_AUTH_ERROR_def HELPER_OTHER_ERROR_def Let_def)
  moreover obtain a1 d1 where s: "display_stop S x = (a1, d1)" by fastforce
  moreover obtain y where "display_stop S x = stop_tail y"
    using display_stop_step [of S x] x(1) by auto
  then have "\<not> d_started d1" "last (d_log d1) = EmitStopped" by (simp_all add: s stop_tail_def)
  moreover have "gl_firstLoginLock (d_globals d1) = gl_firstLoginLock (d_globals d)"
    using stop_n_lock [of 3 S x] x(2) s by (simp add: display_stop_def)
  ultimately show thesis using that by simp
qed

section \<open>The greeter comes back\<close>

definition no_autologin :: "daemon_env \<Rightarrow> daemon_globals \<Rightarrow> bool" where
  "no_autologin E g \<longleftrightarrow> cfg_autologinUser (de_config E) = [] \<or> \<not> cfg_autologinRelogin (de_config E) \<and> gl_firstLoginLock g"

lemma new_display_waits:
  assumes "no_autologin E g"
  obtains a d where "snd (display_start E (display_new E r g)) = (a, d)" "d_log d = [QueueServerStarted]" "d_started d"
    "\<not> g_started (d_greeter d)" "ss_server (d_socketServer d) = None"
proof -
  obtain a d where n: "display_new E r g = (a, d)" by fastforce
  have d: "d_autologinSession d = invalid_session" "\<not> d_started d" "d_log d = []" "\<not> g_started (d_greeter d)" "ss_server (d_socketServer d) = None"
    using n assms by (auto simp: display_new_def no_autologin_def tryLockFirstLogin_def Let_def split: prod.splits if_splits)
  have "\<not> session_valid invalid_session" by (simp add: invalid_session_def session_valid_def)
  with n d that show thesis by (auto simp: display_start_def Let_def log_effect_def)
qed

lemma greeter_runs:
  assumes "displayServerStarted E (a, d) = (a, d')" "\<not> g_started (d_greeter d)" "de_plasmalogin_user E \<longrightarrow> de_chown E"
    and "g_auth (d_greeter d') = Some ga"
  shows "au_running ga"
  using assms by (auto simp: displayServerStarted_def startSocketServerAndGreeter_def greeter_start_def greeter_setSocket_def
      auth_start_def case_prod_beta Let_def split: if_splits)

text \<open>The seat with its only display, after the display's session has ended.\<close>

lemma replaced_display:
  assumes "st_displays st = [(i, a, d)]" "d_started d" "normal \<longrightarrow> code \<noteq> HELPER_AUTH_ERROR"
    and "no_autologin E (st_globals st)"
  obtains a1 d1 a2 d2 where
    "seat_display (on_display (auth_childExited code normal text (display_owner c S)) i st) i = Some (a1, d1)"
    "last (d_log d1) = EmitStopped"
    "st_displays (seat_displayStopped E S r i (on_display (auth_childExited code normal text (display_owner c S)) i st)) = [(st_next st, a2, d2)]"
    "st_globals (seat_displayStopped E S r i (on_display (auth_childExited code normal text (display_owner c S)) i st)) = d_globals d2"
    "d_log d2 = [QueueServerStarted]" "\<not> g_started (d_greeter d2)" "ss_server (d_socketServer d2) = None"
proof -
  let ?f = "auth_childExited code normal text (display_owner c S)"
  let ?st1 = "on_display ?f i st"
  obtain a1 d1 where e: "?f (a, d\<lparr>d_globals := st_globals st\<rparr>) = (a1, d1)" "\<not> d_started d1" "last (d_log d1) = EmitStopped"
    "gl_firstLoginLock (d_globals d1) = gl_firstLoginLock (d_globals (d\<lparr>d_globals := st_globals st\<rparr>))"
    by (rule childExited_stops [of "d\<lparr>d_globals := st_globals st\<rparr>" normal code "text" c S a]) (use assms(2,3) in auto)
  have st1: "?st1 = st\<lparr>st_displays := [(i, a1, d1)], st_globals := d_globals d1\<rparr>"
    by (simp add: on_display_def assms(1) e(1))
  have "display_stop S (a1, d1) = (a1, d1)" using e(2) by (simp add: display_stop_step)
  then have r: "seat_removeDisplay S i ?st1 = st\<lparr>st_displays := [], st_globals := d_globals d1\<rparr>"
    by (simp add: seat_removeDisplay_def seat_display_def st1)
  have "no_autologin E (d_globals d1)" using assms(4) e(4) by (simp add: no_autologin_def)
  then obtain a2 d2 where n: "snd (display_start E (display_new E r (d_globals d1))) = (a2, d2)" "d_log d2 = [QueueServerStarted]"
    "\<not> g_started (d_greeter d2)" "ss_server (d_socketServer d2) = None"
    using new_display_waits [of E "d_globals d1" r] by metis
  have new: "st_displays (seat_createDisplay E r (st\<lparr>st_displays := [], st_globals := d_globals d1\<rparr>)) = [(st_next st, a2, d2)]"
    "st_globals (seat_createDisplay E r (st\<lparr>st_displays := [], st_globals := d_globals d1\<rparr>)) = d_globals d2"
    using n(1) by (auto simp: seat_createDisplay_def seat_startDisplay_def seat_display_def on_display_def Let_def split: prod.splits)
  have "st_displays (seat_displayStopped E S r i ?st1) = [(st_next st, a2, d2)] \<and> st_globals (seat_displayStopped E S r i ?st1) = d_globals d2"
    by (simp add: seat_displayStopped_def r new st_effect_def Let_def split: option.splits)
  with that [of a1 d1 a2 d2] e(3) n show thesis by (simp add: seat_display_def st1)
qed

text \<open>Property C15: after a session the greeter comes back.  When the helper of a seat's only display ends other than by a refused
  login, and no automatic login is due, the display stops and says so; the seat puts a new one in its place, which queues the start
  of its greeter; and once the event loop gets to it, a greeter process runs for the user \<open>plasmalogin\<close>, with the address of the
  socket the new display listens on.\<close>

theorem greeter_comes_back:
  assumes "st_displays st = [(i, a, d)]" "d_started d" "normal \<longrightarrow> code \<noteq> HELPER_AUTH_ERROR"
    and "no_autologin E (st_globals st)" "de_plasmalogin_user E \<longrightarrow> de_chown E"
    and "de_listen E (''plasmalogin--'' @ de_random E) = Some full"
  shows "let st1 = on_display (auth_childExited code normal text (display_owner c S)) i st;
        st2 = seat_displayStopped E S r i st1;
        st3 = on_display (displayServerStarted E) (st_next st) st2
    in (\<exists>a1 d1. seat_display st1 i = Some (a1, d1) \<and> last (d_log d1) = EmitStopped)
      \<and> (\<exists>a2 d2. seat_display st2 (st_next st) = Some (a2, d2) \<and> QueueServerStarted \<in> set (d_log d2))
      \<and> (\<exists>a3 d3 g. st_displays st3 = [(st_next st, a3, d3)] \<and> g_auth (d_greeter d3) = Some g \<and> au_running g
          \<and> au_user g = ''plasmalogin'' \<and> env_get (au_environment g) ''SDDM_SOCKET'' = Some full
          \<and> ss_socketAddress (d_socketServer d3) = full)"
proof -
  obtain a1 d1 a2 d2 where s:
    "seat_display (on_display (auth_childExited code normal text (display_owner c S)) i st) i = Some (a1, d1)" "last (d_log d1) = EmitStopped"
    "st_displays (seat_displayStopped E S r i (on_display (auth_childExited code normal text (display_owner c S)) i st)) = [(st_next st, a2, d2)]"
    "st_globals (seat_displayStopped E S r i (on_display (auth_childExited code normal text (display_owner c S)) i st)) = d_globals d2"
    "d_log d2 = [QueueServerStarted]" "\<not> g_started (d_greeter d2)" "ss_server (d_socketServer d2) = None"
    by (rule replaced_display [OF assms(1-4), of "text" c S r])
  obtain g d3 where g: "displayServerStarted E (a2, d2) = (a2, d3)" "g_auth (d_greeter d3) = Some g"
    "ss_socketAddress (d_socketServer d3) = full" "env_get (au_environment g) ''SDDM_SOCKET'' = Some full" "au_user g = ''plasmalogin''"
    by (rule greeter_started_with_socket [OF s(6,7) assms(5,6), of a2])
  from greeter_runs [OF g(1) s(6) assms(5) g(2)] s g show ?thesis
    by (simp add: Let_def on_display_def [of "displayServerStarted E"] seat_display_def)
qed

lemma greeter_comes_back_witness:
  "let st = seat_createDisplay (sample_denv []) None (seat_new sample_globals);
       S = \<lparr>se_greeter_exit = None, se_session_exit = None\<rparr>;
       st1 = on_display (auth_childExited 0 True [] (display_owner sd_qds S)) 0 st;
       st3 = on_display (displayServerStarted (sample_denv [])) 1 (seat_displayStopped (sample_denv []) S None 0 st1)
   in \<exists>a3 d3 g. st_displays st3 = [(1, a3, d3)] \<and> g_auth (d_greeter d3) = Some g \<and> au_running g
     \<and> ss_socketAddress (d_socketServer d3) = ''plasmalogin--abcdef''"
proof -
  let ?E = "sample_denv []" let ?st = "seat_createDisplay (sample_denv []) None (seat_new sample_globals)"
  have n: "no_autologin ?E g" for g by (simp add: no_autologin_def sample_denv_def)
  obtain a d where ad: "snd (display_start ?E (display_new ?E None sample_globals)) = (a, d)" "d_started d"
    using new_display_waits [OF n [of sample_globals], of None] by metis
  have st: "st_displays ?st = [(0, a, d)]" "st_next ?st = 1"
    using ad(1) by (auto simp: seat_createDisplay_def seat_startDisplay_def seat_display_def on_display_def seat_new_def Let_def
        split: prod.splits)
  have E: "de_plasmalogin_user ?E \<longrightarrow> de_chown ?E" "de_listen ?E (''plasmalogin--'' @ de_random ?E) = Some ''plasmalogin--abcdef''"
    by (simp_all add: sample_denv_def)
  have "True \<longrightarrow> (0 :: int) \<noteq> HELPER_AUTH_ERROR" by (simp add: HELPER_AUTH_ERROR_def)
  from greeter_comes_back [OF st(1) ad(2) this n E, of "[]" sd_qds "\<lparr>se_greeter_exit = None, se_session_exit = None\<rparr>" None]
  show ?thesis unfolding st(2) Let_def by blast
qed

end
