(* ===== verification/DBus_Objects.thy ===== *)
theory DBus_Objects
  imports Display_Manager
begin

text \<open>
  The display manager's objects on the bus (the constructors of \<open>src/daemon/DisplayManager.cpp\<close>): what is registered
  under which path.  A path holds one object; registering another one fails, and the result is not looked at.  An object that
  is deleted later stays registered until the event loop deletes it.

  \<open>None\<close> is the display manager itself, \<open>Some a\<close> the object with the address \<open>a\<close>.
\<close>

definition DISPLAYMANAGER_SERVICE :: QString where
  "DISPLAYMANAGER_SERVICE = ''org.freedesktop.DisplayManager''"

definition DISPLAYMANAGER_PATH :: QString where
  "DISPLAYMANAGER_PATH = ''/org/freedesktop/DisplayManager''"

record system_bus =
  bus_names :: "QString list"
  bus_objects :: "(QString \<times> nat option) list"
  bus_pending :: "nat option list"

record dm_service =
  ds_dm :: display_manager
  ds_bus :: system_bus

text \<open>\<open>granted\<close> tells whether the bus gives the name away.\<close>

definition registerService :: "bool \<Rightarrow> QString \<Rightarrow> system_bus \<Rightarrow> system_bus" where
  "registerService granted name bus =
     (if granted \<and> name \<notin> set (bus_names bus) then bus\<lparr>bus_names := name # bus_names bus\<rparr> else bus)"

definition registerObject :: "QString \<Rightarrow> nat option \<Rightarrow> system_bus \<Rightarrow> system_bus" where
  "registerObject path obj bus =
     (if path \<in> fst ` set (bus_objects bus) then bus else bus\<lparr>bus_objects := (path, obj) # bus_objects bus\<rparr>)"

definition ds_new :: "bool \<Rightarrow> dm_service" where
  "ds_new granted =
     \<lparr>ds_dm = \<lparr>dm_next = 0, dm_seats = [], dm_sessions = []\<rparr>,
      ds_bus = registerObject DISPLAYMANAGER_PATH None
        (registerService granted DISPLAYMANAGER_SERVICE \<lparr>bus_names = [], bus_objects = [], bus_pending = []\<rparr>)\<rparr>"

text \<open>The constructors of \<open>DisplayManagerSeat\<close> and \<open>DisplayManagerSession\<close> register the object.\<close>

definition register_new :: "bool \<Rightarrow> QString \<Rightarrow> nat \<Rightarrow> system_bus \<Rightarrow> system_bus" where
  "register_new granted path addr bus = registerObject path (Some addr) (registerService granted DISPLAYMANAGER_SERVICE bus)"

definition ds_AddSeat :: "bool \<Rightarrow> QString \<Rightarrow> dm_service \<Rightarrow> dm_service" where
  "ds_AddSeat granted name ds =
     ds\<lparr>ds_dm := fst (dm_AddSeat name (ds_dm ds)),
        ds_bus := register_new granted (seatPath name) (dm_next (ds_dm ds)) (ds_bus ds)\<rparr>"

definition ds_AddSession :: "bool \<Rightarrow> QString \<Rightarrow> QString \<Rightarrow> QString \<Rightarrow> dm_service \<Rightarrow> dm_service" where
  "ds_AddSession granted name seat user ds =
     ds\<lparr>ds_dm := fst (dm_AddSession name seat user (ds_dm ds)),
        ds_bus := register_new granted (sessionPath name) (dm_next (ds_dm ds)) (ds_bus ds)\<rparr>"

text \<open>\<open>deleteLater\<close> of what has been taken out of a list.\<close>

definition delete_later :: "nat list \<Rightarrow> system_bus \<Rightarrow> system_bus" where
  "delete_later addrs bus = bus\<lparr>bus_pending := bus_pending bus @ map Some addrs\<rparr>"

definition ds_RemoveSeat :: "QString \<Rightarrow> dm_service \<Rightarrow> dm_service" where
  "ds_RemoveSeat name ds =
     ds\<lparr>ds_dm := fst (dm_RemoveSeat name (ds_dm ds)),
        ds_bus := delete_later
          (map dse_addr (snd (remove_named (\<lambda>s. dse_name s = name) (\<lambda>s t. dse_addr s = dse_addr t) (dm_seats (ds_dm ds))))) (ds_bus ds)\<rparr>"

definition ds_RemoveSession :: "QString \<Rightarrow> dm_service \<Rightarrow> dm_service" where
  "ds_RemoveSession name ds =
     ds\<lparr>ds_dm := fst (dm_RemoveSession name (ds_dm ds)),
        ds_bus := delete_later
          (map dss_addr (snd (remove_named (\<lambda>s. dss_name s = name) (\<lambda>s t. dss_addr s = dss_addr t) (dm_sessions (ds_dm ds))))) (ds_bus ds)\<rparr>"

text \<open>The event loop deletes them, and a deleted object is no longer registered.\<close>

definition ds_deleted :: "dm_service \<Rightarrow> dm_service" where
  "ds_deleted ds =
     (let bus = ds_bus ds
      in ds\<lparr>ds_bus := bus\<lparr>bus_objects := filter (\<lambda>x. snd x \<notin> set (bus_pending bus)) (bus_objects bus), bus_pending := []\<rparr>\<rparr>)"

section \<open>What is listed is what is there\<close>

text \<open>
  Seats come and go as the seat manager announces them: no seat twice, with logind's names.  \<open>AddSession\<close> is called by no
  part of the program.
\<close>

definition seat_name :: "QString \<Rightarrow> bool" where
  "seat_name n \<longleftrightarrow> take 4 n = ''seat''"

inductive bus_reachable :: "dm_service \<Rightarrow> bool" where
  start: "bus_reachable (ds_new granted)"
| add: "bus_reachable ds \<Longrightarrow> bus_pending (ds_bus ds) = [] \<Longrightarrow> seat_name n \<Longrightarrow> n \<notin> dse_name ` set (dm_seats (ds_dm ds)) \<Longrightarrow>
     bus_reachable (ds_AddSeat granted n ds)"
| remove: "bus_reachable ds \<Longrightarrow> bus_reachable (ds_RemoveSeat n ds)"
| deleted: "bus_reachable ds \<Longrightarrow> bus_reachable (ds_deleted ds)"

definition listed :: "display_manager \<Rightarrow> (QString \<times> nat option) set" where
  "listed dm = insert (DISPLAYMANAGER_PATH, None) ((\<lambda>s. (dse_path s, Some (dse_addr s))) ` set (dm_seats dm))"

definition seats_wf :: "display_manager \<Rightarrow> bool" where
  "seats_wf dm \<longleftrightarrow> distinct (map dse_name (dm_seats dm)) \<and> distinct (map dse_addr (dm_seats dm))
     \<and> (\<forall>s \<in> set (dm_seats dm). seat_name (dse_name s) \<and> dse_path s = seatPath (dse_name s) \<and> dse_addr s < dm_next dm)"

definition bus_ok :: "dm_service \<Rightarrow> bool" where
  "bus_ok ds \<longleftrightarrow> seats_wf (ds_dm ds) \<and> distinct (map fst (bus_objects (ds_bus ds)))
     \<and> listed (ds_dm ds) \<subseteq> set (bus_objects (ds_bus ds))
     \<and> (\<forall>x \<in> set (bus_objects (ds_bus ds)). snd x \<in> set (bus_pending (ds_bus ds)) \<or> x \<in> listed (ds_dm ds))
     \<and> set (bus_pending (ds_bus ds)) \<inter> snd ` listed (ds_dm ds) = {}
     \<and> (\<forall>a. Some a \<in> set (bus_pending (ds_bus ds)) \<longrightarrow> a < dm_next (ds_dm ds))"

lemma seatPath_inj: "seat_name m \<Longrightarrow> seat_name n \<Longrightarrow> seatPath m = seatPath n \<Longrightarrow> m = n"
  by (simp add: seat_name_def seatPath_def q_mid_def) (metis append_take_drop_id)

lemma seatPath_not_manager [simp]: "seatPath n \<noteq> DISPLAYMANAGER_PATH" "DISPLAYMANAGER_PATH \<noteq> seatPath n"
  by (simp_all add: seatPath_def DISPLAYMANAGER_PATH_def DISPLAYMANAGER_SEAT_PATH_def)

lemma removed_seats:
  assumes "seats_wf dm"
  shows "dm_seats (fst (dm_RemoveSeat n dm)) = filter (\<lambda>s. dse_name s \<noteq> n) (dm_seats dm)"
    "dm_next (fst (dm_RemoveSeat n dm)) = dm_next dm"
    "set (snd (remove_named (\<lambda>s. dse_name s = n) (\<lambda>s t. dse_addr s = dse_addr t) (dm_seats dm))) = {s \<in> set (dm_seats dm). dse_name s = n}"
proof -
  have d: "distinct (map dse_addr (dm_seats dm))" "distinct (map dse_name (dm_seats dm))" using assms by (simp_all add: seats_wf_def)
  show "dm_seats (fst (dm_RemoveSeat n dm)) = filter (\<lambda>s. dse_name s \<noteq> n) (dm_seats dm)"
    "dm_next (fst (dm_RemoveSeat n dm)) = dm_next dm"
    by (simp_all add: RemoveSeat_filter [OF d])
  show "set (snd (remove_named (\<lambda>s. dse_name s = n) (\<lambda>s t. dse_addr s = dse_addr t) (dm_seats dm))) = {s \<in> set (dm_seats dm). dse_name s = n}"
  proof (cases "\<exists>s \<in> set (dm_seats dm). dse_name s = n")
    case False
    then show ?thesis by (auto simp: remove_named_absent)
  next
    case True
    then obtain ys x zs where s: "dm_seats dm = ys @ x # zs" "dse_name x = n" by (metis split_list)
    with d have "\<forall>y \<in> set (ys @ zs). dse_name y \<noteq> n" "\<forall>y \<in> set (ys @ zs). dse_addr x \<noteq> dse_addr y"
      by (auto simp: image_iff)
    with s remove_named_unique [of ys zs "\<lambda>s. dse_name s = n" x "\<lambda>s t. dse_addr s = dse_addr t"] show ?thesis by auto
  qed
qed

lemma registerService_objects [simp]:
  "bus_objects (registerService g n bus) = bus_objects bus" "bus_pending (registerService g n bus) = bus_pending bus"
  by (simp_all add: registerService_def)

lemma bus_ok_new: "bus_ok (ds_new granted)"
  by (simp add: bus_ok_def ds_new_def registerObject_def registerService_def listed_def seats_wf_def)

lemma bus_ok_add:
  assumes "bus_ok ds" "bus_pending (ds_bus ds) = []" "seat_name n" "n \<notin> dse_name ` set (dm_seats (ds_dm ds))"
  shows "bus_ok (ds_AddSeat granted n ds)"
proof -
  let ?dm = "ds_dm ds" let ?seat = "new_seat (dm_next ?dm) n"
  have objs: "set (bus_objects (ds_bus ds)) = listed ?dm" using assms(1,2) by (auto simp: bus_ok_def)
  have wf: "seats_wf ?dm" using assms(1) by (simp add: bus_ok_def)
  then have "seatPath n \<notin> fst ` listed ?dm"
    using assms(3,4) by (auto simp: listed_def seats_wf_def dest: seatPath_inj)
  then have reg: "bus_objects (register_new granted (seatPath n) (dm_next ?dm) (ds_bus ds)) = (seatPath n, Some (dm_next ?dm)) # bus_objects (ds_bus ds)"
    "bus_pending (register_new granted (seatPath n) (dm_next ?dm) (ds_bus ds)) = []"
    using assms(2) by (simp_all add: register_new_def registerObject_def objs)
  have dm: "dm_seats (fst (dm_AddSeat n ?dm)) = dm_seats ?dm @ [?seat]" "dm_next (fst (dm_AddSeat n ?dm)) = Suc (dm_next ?dm)"
    by (simp_all add: dm_AddSeat_def Let_def)
  have l: "listed (fst (dm_AddSeat n ?dm)) = insert (seatPath n, Some (dm_next ?dm)) (listed ?dm)"
    by (auto simp: listed_def dm new_seat_def seatPath_def)
  have "seats_wf (fst (dm_AddSeat n ?dm))"
    using wf assms(3,4) by (fastforce simp: seats_wf_def dm new_seat_def seatPath_def less_Suc_eq)
  then show ?thesis
    using assms(1) \<open>seatPath n \<notin> fst ` listed ?dm\<close> objs by (auto simp: bus_ok_def ds_AddSeat_def reg l)
qed

lemma bus_ok_remove:
  assumes "bus_ok ds"
  shows "bus_ok (ds_RemoveSeat n ds)"
proof -
  let ?dm = "ds_dm ds"
  have wf: "seats_wf ?dm" using assms by (simp add: bus_ok_def)
  note r = removed_seats [OF wf, of n]
  let ?gone = "(\<lambda>s. Some (dse_addr s)) ` {s \<in> set (dm_seats ?dm). dse_name s = n}"
  have wf': "seats_wf (fst (dm_RemoveSeat n ?dm))"
    using wf by (simp add: seats_wf_def r distinct_map_filter)
  have d: "s = t" if "s \<in> set (dm_seats ?dm)" "t \<in> set (dm_seats ?dm)" "dse_addr s = dse_addr t" for s t
    using wf that by (auto simp: seats_wf_def distinct_map dest: inj_onD)
  have l: "listed (fst (dm_RemoveSeat n ?dm)) \<subseteq> listed ?dm" by (auto simp: listed_def r(1))
  have a: "?gone \<inter> snd ` listed (fst (dm_RemoveSeat n ?dm)) = {}"
    by (auto simp: listed_def r(1) dest: d)
  have k: "x \<in> listed ?dm \<Longrightarrow> snd x \<in> ?gone \<or> x \<in> listed (fst (dm_RemoveSeat n ?dm))" for x
    by (auto simp: listed_def r(1))
  have g: "Some a \<in> ?gone \<Longrightarrow> a < dm_next ?dm" for a using wf by (auto simp: seats_wf_def)
  have b: "bus_objects (ds_bus (ds_RemoveSeat n ds)) = bus_objects (ds_bus ds)"
    "set (bus_pending (ds_bus (ds_RemoveSeat n ds))) = set (bus_pending (ds_bus ds)) \<union> ?gone"
    by (auto simp: ds_RemoveSeat_def delete_later_def r(3) image_image)
  have m: "ds_dm (ds_RemoveSeat n ds) = fst (dm_RemoveSeat n ?dm)" by (simp add: ds_RemoveSeat_def)
  have old: "distinct (map fst (bus_objects (ds_bus ds)))" "listed ?dm \<subseteq> set (bus_objects (ds_bus ds))"
    "\<And>x. x \<in> set (bus_objects (ds_bus ds)) \<Longrightarrow> snd x \<in> set (bus_pending (ds_bus ds)) \<or> x \<in> listed ?dm"
    "set (bus_pending (ds_bus ds)) \<inter> snd ` listed ?dm = {}" "\<And>a. Some a \<in> set (bus_pending (ds_bus ds)) \<Longrightarrow> a < dm_next ?dm"
    using assms by (auto simp: bus_ok_def)
  show ?thesis
    unfolding bus_ok_def b m r(2)
  proof (intro conjI ballI allI impI)
    show "listed (fst (dm_RemoveSeat n ?dm)) \<subseteq> set (bus_objects (ds_bus ds))" using l old(2) by blast
    show "(set (bus_pending (ds_bus ds)) \<union> ?gone) \<inter> snd ` listed (fst (dm_RemoveSeat n ?dm)) = {}"
      using l a old(4) by blast
  qed (use wf' old k g in blast)+
qed

lemma bus_ok_deleted: "bus_ok ds \<Longrightarrow> bus_ok (ds_deleted ds)"
  by (auto simp: bus_ok_def ds_deleted_def Let_def distinct_map_filter)

lemma bus_invariant: "bus_reachable ds \<Longrightarrow> bus_ok ds"
  by (induction rule: bus_reachable.induct) (auto intro: bus_ok_new bus_ok_add bus_ok_remove bus_ok_deleted)



text \<open>A seat that comes back before the event loop has deleted its old object is listed but not there: its object cannot be
  registered while the path is taken, which nothing looks at, and the old object then takes the path away.\<close>

theorem returning_seat_lost:
  "let ds = ds_deleted (ds_AddSeat True ''seat0'' (ds_RemoveSeat ''seat0'' (ds_AddSeat True ''seat0'' (ds_new True))))
   in dm_Seats (ds_dm ds) = [seatPath ''seat0''] \<and> map_of (bus_objects (ds_bus ds)) (seatPath ''seat0'') = None"
  by code_simp

end
