(* ===== verification/Logind_Types.thy ===== *)
theory Logind_Types
  imports Prelude
begin

text \<open>
  The values exchanged with logind (\<open>src/daemon/LogindDBusTypes.h\<close>,
  \<open>src/daemon/LogindDBusTypes.cpp\<close>): the structures, the operators that marshal and demarshal them,
  and the test whether logind is there.

  A \<open>QDBusArgument\<close> belongs to Qt, so its operations are a parameter: what each \<open><<\<close> and
  each \<open>beginStructure\<close>, \<open>endStructure\<close> appends to the message, and what each \<open>>>\<close> takes
  from its front.  The contract \<open>dba_ok\<close> says that a reader gets back what the writer of the same
  type has put there.  The items of a message are a type parameter.
\<close>

record 'm dba =
  put_s :: "QString \<Rightarrow> 'm list"
  get_s :: "'m list \<Rightarrow> QString \<times> 'm list"
  put_u :: "quint32 \<Rightarrow> 'm list"
  get_u :: "'m list \<Rightarrow> quint32 \<times> 'm list"
  put_i :: "qint32 \<Rightarrow> 'm list"
  get_i :: "'m list \<Rightarrow> qint32 \<times> 'm list"
  put_o :: "QString \<Rightarrow> 'm list"
  get_o :: "'m list \<Rightarrow> QString \<times> 'm list"
  put_begin :: "'m list"
  get_begin :: "'m list \<Rightarrow> 'm list"
  put_end :: "'m list"
  get_end :: "'m list \<Rightarrow> 'm list"

definition dba_ok :: "'m dba \<Rightarrow> bool" where
  "dba_ok A \<longleftrightarrow>
     (\<forall>x r. get_s A (put_s A x @ r) = (x, r)) \<and> (\<forall>x r. get_u A (put_u A x @ r) = (x, r)) \<and>
     (\<forall>x r. get_i A (put_i A x @ r) = (x, r)) \<and> (\<forall>x r. get_o A (put_o A x @ r) = (x, r)) \<and>
     (\<forall>r. get_begin A (put_begin A @ r) = r) \<and> (\<forall>r. get_end A (put_end A @ r) = r)"

section \<open>The structures\<close>

text \<open>A \<open>QDBusObjectPath\<close> is its path.\<close>

record SessionInfo =
  si_sessionId :: QString
  si_userId :: quint32
  si_userName :: QString
  si_seatId :: QString
  si_sessionPath :: QString

definition put_SessionInfo :: "'m dba \<Rightarrow> SessionInfo \<Rightarrow> 'm list" where
  "put_SessionInfo A s = put_begin A @ put_s A (si_sessionId s) @ put_u A (si_userId s) @ put_s A (si_userName s)
     @ put_s A (si_seatId s) @ put_o A (si_sessionPath s) @ put_end A"

definition get_SessionInfo :: "'m dba \<Rightarrow> 'm list \<Rightarrow> SessionInfo \<times> 'm list" where
  "get_SessionInfo A m0 =
     (let m1 = get_begin A m0; (sid, m2) = get_s A m1; (uid, m3) = get_u A m2; (uname, m4) = get_s A m3;
          (seat, m5) = get_s A m4; (path, m6) = get_o A m5
      in (\<lparr>si_sessionId = sid, si_userId = uid, si_userName = uname, si_seatId = seat, si_sessionPath = path\<rparr>,
          get_end A m6))"

record UserInfo =
  ui_userId :: quint32
  ui_name :: QString
  ui_path :: QString

definition put_UserInfo :: "'m dba \<Rightarrow> UserInfo \<Rightarrow> 'm list" where
  "put_UserInfo A u = put_begin A @ put_u A (ui_userId u) @ put_s A (ui_name u) @ put_o A (ui_path u) @ put_end A"

definition get_UserInfo :: "'m dba \<Rightarrow> 'm list \<Rightarrow> UserInfo \<times> 'm list" where
  "get_UserInfo A m0 =
     (let m1 = get_begin A m0; (uid, m2) = get_u A m1; (name, m3) = get_s A m2; (path, m4) = get_o A m3
      in (\<lparr>ui_userId = uid, ui_name = name, ui_path = path\<rparr>, get_end A m4))"

text \<open>The type \<open>NamedSessionPath\<close> is the same one.\<close>

record NamedSeatPath =
  ns_name :: QString
  ns_path :: QString

definition put_NamedSeatPath :: "'m dba \<Rightarrow> NamedSeatPath \<Rightarrow> 'm list" where
  "put_NamedSeatPath A n = put_begin A @ put_s A (ns_name n) @ put_o A (ns_path n) @ put_end A"

definition get_NamedSeatPath :: "'m dba \<Rightarrow> 'm list \<Rightarrow> NamedSeatPath \<times> 'm list" where
  "get_NamedSeatPath A m0 =
     (let m1 = get_begin A m0; (name, m2) = get_s A m1; (path, m3) = get_o A m2
      in (\<lparr>ns_name = name, ns_path = path\<rparr>, get_end A m3))"

record NamedUserPath =
  nu_userId :: quint32
  nu_path :: QString

definition put_NamedUserPath :: "'m dba \<Rightarrow> NamedUserPath \<Rightarrow> 'm list" where
  "put_NamedUserPath A n = put_begin A @ put_u A (nu_userId n) @ put_o A (nu_path n) @ put_end A"

definition get_NamedUserPath :: "'m dba \<Rightarrow> 'm list \<Rightarrow> NamedUserPath \<times> 'm list" where
  "get_NamedUserPath A m0 =
     (let m1 = get_begin A m0; (uid, m2) = get_u A m1; (path, m3) = get_o A m2
      in (\<lparr>nu_userId = uid, nu_path = path\<rparr>, get_end A m3))"

text \<open>The user id of an inhibitor is an \<open>int\<close>, the process id a \<open>uint\<close>.\<close>

record Inhibitor =
  in_what :: QString
  in_who :: QString
  in_why :: QString
  in_mode :: QString
  in_userId :: qint32
  in_processId :: quint32

definition put_Inhibitor :: "'m dba \<Rightarrow> Inhibitor \<Rightarrow> 'm list" where
  "put_Inhibitor A i = put_begin A @ put_s A (in_what i) @ put_s A (in_who i) @ put_s A (in_why i)
     @ put_s A (in_mode i) @ put_i A (in_userId i) @ put_u A (in_processId i) @ put_end A"

definition get_Inhibitor :: "'m dba \<Rightarrow> 'm list \<Rightarrow> Inhibitor \<times> 'm list" where
  "get_Inhibitor A m0 =
     (let m1 = get_begin A m0; (what, m2) = get_s A m1; (who, m3) = get_s A m2; (why, m4) = get_s A m3;
          (mode, m5) = get_s A m4; (uid, m6) = get_i A m5; (pid, m7) = get_u A m6
      in (\<lparr>in_what = what, in_who = who, in_why = why, in_mode = mode, in_userId = uid, in_processId = pid\<rparr>,
          get_end A m7))"

section \<open>Round trips\<close>

text \<open>Every argument that keeps the contract reads back each structure and leaves what follows it.\<close>

locale dbus_argument =
  fixes A :: "'m dba"
  assumes ok: "dba_ok A"
begin

lemma get_put [simp]:
  "get_s A (put_s A x @ r) = (x, r)" "get_u A (put_u A u @ r) = (u, r)" "get_i A (put_i A i @ r) = (i, r)"
  "get_o A (put_o A x @ r) = (x, r)" "get_begin A (put_begin A @ r) = r" "get_end A (put_end A @ r) = r"
  using ok by (simp_all add: dba_ok_def)

lemma SessionInfo_back: "get_SessionInfo A (put_SessionInfo A s @ r) = (s, r)"
  by (simp add: get_SessionInfo_def put_SessionInfo_def)

lemma UserInfo_back: "get_UserInfo A (put_UserInfo A u @ r) = (u, r)"
  by (simp add: get_UserInfo_def put_UserInfo_def)

lemma NamedSeatPath_back: "get_NamedSeatPath A (put_NamedSeatPath A n @ r) = (n, r)"
  by (simp add: get_NamedSeatPath_def put_NamedSeatPath_def)

lemma NamedUserPath_back: "get_NamedUserPath A (put_NamedUserPath A n @ r) = (n, r)"
  by (simp add: get_NamedUserPath_def put_NamedUserPath_def)

lemma Inhibitor_back: "get_Inhibitor A (put_Inhibitor A i @ r) = (i, r)"
  by (simp add: get_Inhibitor_def put_Inhibitor_def)

end

text \<open>
  A concrete argument: a message is the list of its basic values with marks for the structures, and the
  characters that D-Bus writes for their types are its signature.
\<close>

datatype dbus_item = BeginStructure | EndStructure | ItemS QString | ItemU quint32 | ItemI qint32 | ItemO QString

fun item_char :: "dbus_item \<Rightarrow> char" where
  "item_char BeginStructure = CHR ''(''"
| "item_char EndStructure = CHR '')''"
| "item_char (ItemS x) = CHR ''s''"
| "item_char (ItemU x) = CHR ''u''"
| "item_char (ItemI x) = CHR ''i''"
| "item_char (ItemO x) = CHR ''o''"

definition signature :: "dbus_item list \<Rightarrow> string" where
  "signature m = map item_char m"

definition item_dba :: "dbus_item dba" where
  "item_dba =
     \<lparr>put_s = (\<lambda>x. [ItemS x]), get_s = (\<lambda>m. case m of ItemS x # r \<Rightarrow> (x, r) | _ \<Rightarrow> ([], m)),
      put_u = (\<lambda>x. [ItemU x]), get_u = (\<lambda>m. case m of ItemU x # r \<Rightarrow> (x, r) | _ \<Rightarrow> (0, m)),
      put_i = (\<lambda>x. [ItemI x]), get_i = (\<lambda>m. case m of ItemI x # r \<Rightarrow> (x, r) | _ \<Rightarrow> (0, m)),
      put_o = (\<lambda>x. [ItemO x]), get_o = (\<lambda>m. case m of ItemO x # r \<Rightarrow> (x, r) | _ \<Rightarrow> ([], m)),
      put_begin = [BeginStructure], get_begin = (\<lambda>m. case m of BeginStructure # r \<Rightarrow> r | _ \<Rightarrow> m),
      put_end = [EndStructure], get_end = (\<lambda>m. case m of EndStructure # r \<Rightarrow> r | _ \<Rightarrow> m)\<rparr>"

lemma item_dba_ok: "dba_ok item_dba"
  by (simp add: dba_ok_def item_dba_def)

interpretation item: dbus_argument item_dba
  by unfold_locales (rule item_dba_ok)

text \<open>Property C33: the lists logind sends are read as they were written.  Over every D-Bus argument that keeps its
  contract, each of the five structures is read back from what its writer marshals, and the reader stops
  exactly at its end, so that arrays of them are read in step.\<close>

theorem logind_structures_roundtrip:
  assumes "dba_ok A"
  shows "get_SessionInfo A (put_SessionInfo A s @ r) = (s, r) \<and> get_UserInfo A (put_UserInfo A u @ r) = (u, r)
    \<and> get_NamedSeatPath A (put_NamedSeatPath A n @ r) = (n, r) \<and> get_NamedUserPath A (put_NamedUserPath A p @ r) = (p, r)
    \<and> get_Inhibitor A (put_Inhibitor A i @ r) = (i, r)"
  using dbus_argument.SessionInfo_back [OF dbus_argument.intro [OF assms]]
    dbus_argument.UserInfo_back [OF dbus_argument.intro [OF assms]]
    dbus_argument.NamedSeatPath_back [OF dbus_argument.intro [OF assms]]
    dbus_argument.NamedUserPath_back [OF dbus_argument.intro [OF assms]]
    dbus_argument.Inhibitor_back [OF dbus_argument.intro [OF assms]] by blast

lemma logind_structures_roundtrip_witness:
  "get_NamedSeatPath item_dba (put_NamedSeatPath item_dba \<lparr>ns_name = ''seat0'', ns_path = ''/seat/seat0''\<rparr> @ [ItemU 7])
    = (\<lparr>ns_name = ''seat0'', ns_path = ''/seat/seat0''\<rparr>, [ItemU 7])"
  using logind_structures_roundtrip [OF item_dba_ok] by blast

text \<open>The structures have the signatures logind's interface gives them (\<open>(susso)\<close> for a
  session, \<open>(uso)\<close> for a user, \<open>(so)\<close> for a seat, \<open>(uo)\<close> for a user's path), with one
  exception: an inhibitor is marshalled as \<open>(ssssiu)\<close>, where logind sends two unsigned numbers.\<close>

theorem logind_signatures:
  "signature (put_SessionInfo item_dba s) = ''(susso)'' \<and> signature (put_UserInfo item_dba u) = ''(uso)''
   \<and> signature (put_NamedSeatPath item_dba n) = ''(so)'' \<and> signature (put_NamedUserPath item_dba p) = ''(uo)''
   \<and> signature (put_Inhibitor item_dba i) = ''(ssssiu)''"
  by (simp add: signature_def put_SessionInfo_def put_UserInfo_def put_NamedSeatPath_def put_NamedUserPath_def
      put_Inhibitor_def item_dba_def)

text \<open>Reading a message off its signature, character by character.\<close>

lemma item_char_eq [simp]:
  "item_char x = CHR ''('' \<longleftrightarrow> x = BeginStructure" "item_char x = CHR '')'' \<longleftrightarrow> x = EndStructure"
  "item_char x = CHR ''s'' \<longleftrightarrow> (\<exists>q. x = ItemS q)" "item_char x = CHR ''u'' \<longleftrightarrow> (\<exists>u. x = ItemU u)"
  "item_char x = CHR ''i'' \<longleftrightarrow> (\<exists>i. x = ItemI i)" "item_char x = CHR ''o'' \<longleftrightarrow> (\<exists>q. x = ItemO q)"
  by (cases x; simp)+

lemma signature_simps [simp]:
  "signature m = [] \<longleftrightarrow> m = []" "signature m = ch # cs \<longleftrightarrow> (\<exists>x m'. m = x # m' \<and> item_char x = ch \<and> signature m' = cs)"
  by (auto simp: signature_def)

lemma SessionInfo_of_signature: "signature m = ''(susso)'' \<longleftrightarrow> (\<exists>s. m = put_SessionInfo item_dba s)"
proof
  assume "signature m = ''(susso)''"
  then obtain a u b e p where "m = [BeginStructure, ItemS a, ItemU u, ItemS b, ItemS e, ItemO p, EndStructure]" by auto
  then show "\<exists>s. m = put_SessionInfo item_dba s"
    by (intro exI [of _ "\<lparr>si_sessionId = a, si_userId = u, si_userName = b, si_seatId = e, si_sessionPath = p\<rparr>"])
      (simp add: put_SessionInfo_def item_dba_def)
qed (auto simp: put_SessionInfo_def item_dba_def)

lemma UserInfo_of_signature: "signature m = ''(uso)'' \<longleftrightarrow> (\<exists>s. m = put_UserInfo item_dba s)"
proof
  assume "signature m = ''(uso)''"
  then obtain u a p where "m = [BeginStructure, ItemU u, ItemS a, ItemO p, EndStructure]" by auto
  then show "\<exists>s. m = put_UserInfo item_dba s"
    by (intro exI [of _ "\<lparr>ui_userId = u, ui_name = a, ui_path = p\<rparr>"]) (simp add: put_UserInfo_def item_dba_def)
qed (auto simp: put_UserInfo_def item_dba_def)

lemma NamedSeatPath_of_signature: "signature m = ''(so)'' \<longleftrightarrow> (\<exists>s. m = put_NamedSeatPath item_dba s)"
proof
  assume "signature m = ''(so)''"
  then obtain a p where "m = [BeginStructure, ItemS a, ItemO p, EndStructure]" by auto
  then show "\<exists>s. m = put_NamedSeatPath item_dba s"
    by (intro exI [of _ "\<lparr>ns_name = a, ns_path = p\<rparr>"]) (simp add: put_NamedSeatPath_def item_dba_def)
qed (auto simp: put_NamedSeatPath_def item_dba_def)

lemma NamedUserPath_of_signature: "signature m = ''(uo)'' \<longleftrightarrow> (\<exists>s. m = put_NamedUserPath item_dba s)"
proof
  assume "signature m = ''(uo)''"
  then obtain u p where "m = [BeginStructure, ItemU u, ItemO p, EndStructure]" by auto
  then show "\<exists>s. m = put_NamedUserPath item_dba s"
    by (intro exI [of _ "\<lparr>nu_userId = u, nu_path = p\<rparr>"]) (simp add: put_NamedUserPath_def item_dba_def)
qed (auto simp: put_NamedUserPath_def item_dba_def)

lemma inhibitor_not_sent: "signature m = ''(ssssuu)'' \<Longrightarrow> m \<noteq> put_Inhibitor item_dba i"
  by (auto simp: put_Inhibitor_def item_dba_def)


section \<open>Availability\<close>

definition seatIfaceName :: QString where
  "seatIfaceName = ''org.freedesktop.login1.Seat''"

text \<open>
  The global object is made at the first call and asks the bus once (\<open>registered\<close> is the bus's answer at that time);
  every later call gives the first answer.  Registering the types with Qt has no other effect.
\<close>

definition logind_isAvailable :: "(QString \<Rightarrow> bool) \<Rightarrow> bool option \<Rightarrow> bool \<times> bool option" where
  "logind_isAvailable registered s_instance =
     (case s_instance of
        Some available \<Rightarrow> (available, s_instance)
      | None \<Rightarrow> let available = registered ''org.freedesktop.login1'' in (available, Some available))"

lemma logind_isAvailable_cached:
  "logind_isAvailable later (snd (logind_isAvailable registered s)) = logind_isAvailable registered s"
  by (simp add: logind_isAvailable_def Let_def split: option.splits)

end
