(* ===== verification/Seat_Manager.thy ===== *)
theory Seat_Manager
  imports Seat Logind_Types
begin

text \<open>
  The seats of the system (\<open>src/daemon/SeatManager.cpp\<close>) and their D-Bus objects, connected as
  \<open>DaemonApp\<close> does it (\<open>src/daemon/DaemonApp.cpp\<close>): \<open>seatCreated\<close> adds a seat to the
  display manager, \<open>seatRemoved\<close> removes it.

  Objects are known by numbers.  \<open>sm_objects\<close> are the \<open>Seat\<close> objects that exist, also those
  no table refers to any more; \<open>sm_logind\<close> the \<open>LogindSeat\<close> objects, with the state of their
  \<open>m_canGraphical\<close>.  What a seat does on its own is the business of the theory Seat.
\<close>

record LogindSeat =
  lo_name :: QString
  lo_canGraphical :: bool

record SeatManager =
  sm_next :: nat
  sm_seats :: "QString \<rightharpoonup> nat"
  sm_systemSeats :: "QString \<rightharpoonup> nat"
  sm_objects :: "(nat \<times> QString) list"
  sm_logind :: "nat \<rightharpoonup> LogindSeat"
  sm_dm :: display_manager

datatype switch_effect = NoSuchSeat | ActivateGreeter QString | CreateDisplayOn nat

definition sm_init :: SeatManager where
  "sm_init = \<lparr>sm_next = 0, sm_seats = Map.empty, sm_systemSeats = Map.empty, sm_objects = [], sm_logind = Map.empty,
     sm_dm = \<lparr>dm_next = 0, dm_seats = [], dm_sessions = []\<rparr>\<rparr>"

definition sm_createSeat :: "QString \<Rightarrow> SeatManager \<Rightarrow> SeatManager" where
  "sm_createSeat name sm =
     sm\<lparr>sm_next := sm_next sm + 1, sm_objects := sm_objects sm @ [(sm_next sm, name)],
        sm_seats := (sm_seats sm)(name \<mapsto> sm_next sm), sm_dm := fst (dm_AddSeat name (sm_dm sm))\<rparr>"

definition sm_removeSeat :: "QString \<Rightarrow> SeatManager \<Rightarrow> SeatManager" where
  "sm_removeSeat name sm =
     (case sm_seats sm name of
        None \<Rightarrow> sm
      | Some i \<Rightarrow> sm\<lparr>sm_seats := (sm_seats sm)(name := None), sm_objects := filter (\<lambda>x. fst x \<noteq> i) (sm_objects sm),
           sm_dm := fst (dm_RemoveSeat name (sm_dm sm))\<rparr>)"

definition sm_switchToGreeter :: "logind_session list option \<Rightarrow> QString \<Rightarrow> SeatManager \<Rightarrow> switch_effect" where
  "sm_switchToGreeter sessions name sm =
     (case sm_seats sm name of
        None \<Rightarrow> NoSuchSeat
      | Some i \<Rightarrow>
          (case find (\<lambda>s. ls_userName s = ''plasmalogin'' \<and> ls_service s = ''plasmalogin-greeter'' \<and> ls_seat s = name)
              (case sessions of None \<Rightarrow> [] | Some l \<Rightarrow> l) of
             Some s \<Rightarrow> ActivateGreeter (ls_id s)
           | None \<Rightarrow> CreateDisplayOn i))"

text \<open>The slot for \<open>canGraphicalChanged\<close> of the object \<open>l\<close>.\<close>

definition sm_canGraphicalChanged :: "LogindSeat \<Rightarrow> SeatManager \<Rightarrow> SeatManager" where
  "sm_canGraphicalChanged l sm =
     (if lo_canGraphical l then sm_createSeat (lo_name l) sm else sm_removeSeat (lo_name l) sm)"

text \<open>The reply to the query for \<open>CanGraphical\<close>; \<open>None\<close> is a reply that is not valid.\<close>

definition sm_canGraphicalReply :: "nat \<Rightarrow> bool option \<Rightarrow> SeatManager \<Rightarrow> SeatManager" where
  "sm_canGraphicalReply i reply sm =
     (case sm_logind sm i of
        None \<Rightarrow> sm
      | Some l \<Rightarrow>
          (case reply of
             None \<Rightarrow> sm
           | Some v \<Rightarrow>
               if v \<noteq> lo_canGraphical l then
                 (let l1 = l\<lparr>lo_canGraphical := v\<rparr>
                  in sm_canGraphicalChanged l1 (sm\<lparr>sm_logind := (sm_logind sm)(i \<mapsto> l1)\<rparr>))
               else sm))"

text \<open>\<open>changed\<close> is the new value of \<open>CanGraphical\<close>, when it is among the changed properties.\<close>

definition sm_propertiesChanged :: "nat \<Rightarrow> QString \<Rightarrow> bool option \<Rightarrow> SeatManager \<Rightarrow> SeatManager" where
  "sm_propertiesChanged i interface changed sm =
     (case sm_logind sm i of
        None \<Rightarrow> sm
      | Some l \<Rightarrow>
          if interface \<noteq> seatIfaceName then sm
          else
            (case changed of
               None \<Rightarrow> sm
             | Some v \<Rightarrow>
                 let l1 = l\<lparr>lo_canGraphical := v\<rparr>
                 in sm_canGraphicalChanged l1 (sm\<lparr>sm_logind := (sm_logind sm)(i \<mapsto> l1)\<rparr>)))"

definition sm_logindSeatAdded :: "QString \<Rightarrow> SeatManager \<Rightarrow> SeatManager" where
  "sm_logindSeatAdded name sm =
     sm\<lparr>sm_next := sm_next sm + 1, sm_logind := (sm_logind sm)(sm_next sm \<mapsto> \<lparr>lo_name = name, lo_canGraphical = False\<rparr>),
        sm_systemSeats := (sm_systemSeats sm)(name \<mapsto> sm_next sm)\<rparr>"

text \<open>\<open>take\<close> of an unknown name gives a null pointer, whose deletion does nothing.\<close>

definition sm_logindSeatRemoved :: "QString \<Rightarrow> SeatManager \<Rightarrow> SeatManager" where
  "sm_logindSeatRemoved name sm =
     (let sm1 = (case sm_systemSeats sm name of
            None \<Rightarrow> sm
          | Some i \<Rightarrow> sm\<lparr>sm_systemSeats := (sm_systemSeats sm)(name := None), sm_logind := (sm_logind sm)(i := None)\<rparr>)
      in sm_removeSeat name sm1)"

definition sm_logindSecureAttentionKey :: "logind_session list option \<Rightarrow> QString \<Rightarrow> SeatManager \<Rightarrow> switch_effect" where
  "sm_logindSecureAttentionKey sessions name sm = sm_switchToGreeter sessions name sm"

text \<open>\<open>seats\<close> is logind's answer, or \<open>None\<close> when logind is not there.\<close>

definition sm_initialize :: "QString list option \<Rightarrow> SeatManager \<Rightarrow> SeatManager" where
  "sm_initialize seats sm =
     (case seats of None \<Rightarrow> sm_createSeat ''seat0'' sm | Some l \<Rightarrow> fold sm_logindSeatAdded l sm)"

section \<open>Events and consistency\<close>

text \<open>
  What logind sends, when it sends it as documented: a seat is added when it is not known, and
  \<open>PropertiesChanged\<close> reports a value that has changed.
\<close>

inductive sm_step :: "SeatManager \<Rightarrow> SeatManager \<Rightarrow> bool" where
  added: "sm_systemSeats sm name = None \<Longrightarrow> sm_step sm (sm_logindSeatAdded name sm)"
| removed: "sm_step sm (sm_logindSeatRemoved name sm)"
| reply: "sm_step sm (sm_canGraphicalReply i r sm)"
| properties: "sm_logind sm i = Some l \<Longrightarrow> \<forall>v. changed = Some v \<longrightarrow> v \<noteq> lo_canGraphical l \<Longrightarrow>
    sm_step sm (sm_propertiesChanged i interface changed sm)"

inductive sm_reachable :: "SeatManager \<Rightarrow> bool" where
  init: "sm_reachable sm_init"
| step: "sm_reachable sm \<Longrightarrow> sm_step sm sm' \<Longrightarrow> sm_reachable sm'"

inductive_cases sm_stepE: "sm_step sm sm'"

text \<open>
  Every name has at most one \<open>LogindSeat\<close>, the one the table holds; the names with a seat are
  those that can show graphics; and the seats on D-Bus are those of the table, each once.
\<close>

definition graphical_names :: "(nat \<rightharpoonup> LogindSeat) \<Rightarrow> QString set" where
  "graphical_names lg = {n. \<exists>i l. lg i = Some l \<and> lo_canGraphical l \<and> lo_name l = n}"

definition logind_ok :: "(nat \<rightharpoonup> LogindSeat) \<Rightarrow> (QString \<rightharpoonup> nat) \<Rightarrow> nat \<Rightarrow> bool" where
  "logind_ok lg ss n \<longleftrightarrow>
     (\<forall>i l. lg i = Some l \<longrightarrow> ss (lo_name l) = Some i \<and> i < n) \<and>
     (\<forall>k i. ss k = Some i \<longrightarrow> (\<exists>l. lg i = Some l \<and> lo_name l = k))"

definition seats_ok :: "QString set \<Rightarrow> (QString \<rightharpoonup> nat) \<Rightarrow> display_manager \<Rightarrow> bool" where
  "seats_ok G seats dm \<longleftrightarrow>
     dom seats = G \<and> dse_name ` set (dm_seats dm) = G \<and> distinct (map dse_name (dm_seats dm)) \<and>
     distinct (map dse_addr (dm_seats dm)) \<and> (\<forall>s \<in> set (dm_seats dm). dse_addr s < dm_next dm)"

definition sm_ok :: "SeatManager \<Rightarrow> bool" where
  "sm_ok sm \<longleftrightarrow> logind_ok (sm_logind sm) (sm_systemSeats sm) (sm_next sm)
     \<and> seats_ok (graphical_names (sm_logind sm)) (sm_seats sm) (sm_dm sm)"

lemma seats_ok_create:
  "seats_ok G (sm_seats sm) (sm_dm sm) \<Longrightarrow> name \<notin> G \<Longrightarrow>
     seats_ok (insert name G) (sm_seats (sm_createSeat name sm)) (sm_dm (sm_createSeat name sm))"
  by (auto simp: seats_ok_def sm_createSeat_def dm_AddSeat_def new_seat_def Let_def less_Suc_eq)

lemma seats_ok_remove:
  assumes "seats_ok G (sm_seats sm) (sm_dm sm)"
  shows "seats_ok (G - {name}) (sm_seats (sm_removeSeat name sm)) (sm_dm (sm_removeSeat name sm))"
proof (cases "sm_seats sm name")
  case None
  then have "name \<notin> G" using assms by (auto simp: seats_ok_def)
  with None assms show ?thesis by (simp add: sm_removeSeat_def)
next
  case (Some i)
  have d: "distinct (map dse_addr (dm_seats (sm_dm sm)))" "distinct (map dse_name (dm_seats (sm_dm sm)))"
    using assms by (simp_all add: seats_ok_def)
  have r: "dm_seats (sm_dm (sm_removeSeat name sm)) = filter (\<lambda>s. dse_name s \<noteq> name) (dm_seats (sm_dm sm))"
    "dm_next (sm_dm (sm_removeSeat name sm)) = dm_next (sm_dm sm)"
    "sm_seats (sm_removeSeat name sm) = (sm_seats sm)(name := None)"
    using Some RemoveSeat_filter [OF d, of name] by (simp_all add: sm_removeSeat_def)
  show ?thesis
    using assms unfolding seats_ok_def r by (auto intro: distinct_map_filter)
qed

lemma sm_frames [simp]:
  "sm_logind (sm_createSeat n sm) = sm_logind sm" "sm_systemSeats (sm_createSeat n sm) = sm_systemSeats sm"
  "sm_next (sm_createSeat n sm) = sm_next sm + 1"
  "sm_logind (sm_removeSeat n sm) = sm_logind sm" "sm_systemSeats (sm_removeSeat n sm) = sm_systemSeats sm"
  "sm_next (sm_removeSeat n sm) = sm_next sm"
  by (simp_all add: sm_createSeat_def sm_removeSeat_def split: option.splits)

lemma logind_ok_mono: "logind_ok lg ss n \<Longrightarrow> n \<le> m \<Longrightarrow> logind_ok lg ss m"
  unfolding logind_ok_def by (meson less_le_trans)

lemma logind_okD:
  assumes "logind_ok lg ss n"
  shows "lg i = Some l \<Longrightarrow> ss (lo_name l) = Some i" "lg i = Some l \<Longrightarrow> i < n"
    "ss k = Some i \<Longrightarrow> \<exists>l. lg i = Some l \<and> lo_name l = k"
  using assms unfolding logind_ok_def by blast+

lemma logind_ok_unique: "logind_ok lg ss n \<Longrightarrow> lg i = Some l \<Longrightarrow> lg j = Some k \<Longrightarrow> lo_name k = lo_name l \<Longrightarrow> j = i"
  unfolding logind_ok_def by (metis option.inject)

lemma logind_ok_set:
  "logind_ok lg ss n \<Longrightarrow> lg i = Some l \<Longrightarrow> logind_ok (lg(i \<mapsto> l\<lparr>lo_canGraphical := v\<rparr>)) ss n"
  by (auto simp: logind_ok_def) (metis option.inject)

definition graphical_except :: "nat \<Rightarrow> (nat \<rightharpoonup> LogindSeat) \<Rightarrow> QString set" where
  "graphical_except i lg = {n. \<exists>j l. j \<noteq> i \<and> lg j = Some l \<and> lo_canGraphical l \<and> lo_name l = n}"

lemma graphical_split:
  "graphical_names lg = graphical_except i lg \<union> (case lg i of None \<Rightarrow> {} | Some l \<Rightarrow> if lo_canGraphical l then {lo_name l} else {})"
proof -
  have "graphical_names lg = graphical_except i lg \<union> {n. \<exists>l. lg i = Some l \<and> lo_canGraphical l \<and> lo_name l = n}"
    unfolding graphical_names_def graphical_except_def by (intro set_eqI) (simp, metis)
  then show ?thesis by (cases "lg i") auto
qed

lemma graphical_except_upd [simp]: "graphical_except i (lg(i := x)) = graphical_except i lg"
  by (simp add: graphical_except_def cong: conj_cong)

lemma graphical_except_fresh:
  "logind_ok lg ss n \<Longrightarrow> lg i = Some l \<Longrightarrow> lo_name l \<notin> graphical_except i lg"
  unfolding graphical_except_def by (blast dest: logind_ok_unique)

lemma logind_ok_del:
  "logind_ok lg ss n \<Longrightarrow> ss k = Some i \<Longrightarrow> logind_ok (lg(i := None)) (ss(k := None)) n"
proof -
  assume ok: "logind_ok lg ss n" and k: "ss k = Some i"
  obtain l0 where l0: "lg i = Some l0" "lo_name l0 = k" using logind_okD(3) [OF ok k] by blast
  show ?thesis
    unfolding logind_ok_def
  proof (intro conjI allI impI)
    fix j l assume "(lg(i := None)) j = Some l"
    then have j: "j \<noteq> i" "lg j = Some l" by (auto split: if_splits)
    with logind_okD(1) [OF ok j(2)] k show "(ss(k := None)) (lo_name l) = Some j" by auto
    show "j < n" by (rule logind_okD(2) [OF ok j(2)])
  next
    fix k' j assume "(ss(k := None)) k' = Some j"
    then have k': "k' \<noteq> k" "ss k' = Some j" by (auto split: if_splits)
    from logind_okD(3) [OF ok k'(2)] k'(1) l0 show "\<exists>l. (lg(i := None)) j = Some l \<and> lo_name l = k'" by auto
  qed
qed

lemma graphical_set:
  assumes "logind_ok lg ss n" "lg i = Some l"
  shows "graphical_names (lg(i \<mapsto> l\<lparr>lo_canGraphical := v\<rparr>)) =
    (if v then insert (lo_name l) (graphical_names lg) else graphical_names lg - {lo_name l})"
proof -
  from graphical_except_fresh [OF assms] show ?thesis using assms(2) by (auto simp: graphical_split [of _ i])
qed

lemma changed_ok:
  assumes "sm_ok sm" "sm_logind sm i = Some l" "v \<noteq> lo_canGraphical l"
  shows "sm_ok (sm_canGraphicalChanged (l\<lparr>lo_canGraphical := v\<rparr>) (sm\<lparr>sm_logind := (sm_logind sm)(i \<mapsto> l\<lparr>lo_canGraphical := v\<rparr>)\<rparr>))"
proof -
  let ?sm = "sm\<lparr>sm_logind := (sm_logind sm)(i \<mapsto> l\<lparr>lo_canGraphical := v\<rparr>)\<rparr>"
  have lg: "logind_ok (sm_logind sm) (sm_systemSeats sm) (sm_next sm)" using assms(1) by (simp add: sm_ok_def)
  have lg': "logind_ok (sm_logind ?sm) (sm_systemSeats ?sm) (sm_next ?sm)" using logind_ok_set [OF lg assms(2)] by simp
  have s: "seats_ok (graphical_names (sm_logind sm)) (sm_seats ?sm) (sm_dm ?sm)" using assms(1) by (simp add: sm_ok_def)
  have "lo_name l \<notin> graphical_names (sm_logind sm)" if "\<not> lo_canGraphical l"
    using logind_ok_unique [OF lg assms(2)] assms(2) that by (fastforce simp: graphical_names_def)
  with seats_ok_create [OF s, of "lo_name l"] seats_ok_remove [OF s, of "lo_name l"] assms(3)
    graphical_set [OF lg assms(2), of v] lg' logind_ok_mono [OF lg', of "Suc (sm_next sm)"]
  show ?thesis by (cases v) (simp_all add: sm_ok_def sm_canGraphicalChanged_def)
qed

lemma sm_step_ok: "sm_step sm sm' \<Longrightarrow> sm_ok sm \<Longrightarrow> sm_ok sm'"
proof (induction rule: sm_step.induct)
  case (added sm name)
  have "logind_ok ((sm_logind sm)(sm_next sm \<mapsto> \<lparr>lo_name = name, lo_canGraphical = False\<rparr>))
      ((sm_systemSeats sm)(name \<mapsto> sm_next sm)) (sm_next sm + 1)"
    using added by (auto simp: sm_ok_def logind_ok_def less_Suc_eq) (metis less_irrefl)
  moreover have "graphical_names ((sm_logind sm)(sm_next sm \<mapsto> \<lparr>lo_name = name, lo_canGraphical = False\<rparr>)) = graphical_names (sm_logind sm)"
    using added by (auto simp: graphical_split [of _ "sm_next sm"] sm_ok_def logind_ok_def split: option.splits)
  ultimately show ?case using added by (simp add: sm_ok_def sm_logindSeatAdded_def)
next
  case (removed sm name)
  have s: "seats_ok (graphical_names (sm_logind sm)) (sm_seats x) (sm_dm x)" if "sm_seats x = sm_seats sm" "sm_dm x = sm_dm sm" for x :: SeatManager
    using removed that by (simp add: sm_ok_def)
  show ?case
  proof (cases "sm_systemSeats sm name")
    case None
    then have "graphical_names (sm_logind sm) - {name} = graphical_names (sm_logind sm)"
      using removed by (auto simp: graphical_names_def sm_ok_def logind_ok_def)
    with None removed seats_ok_remove [OF s [of sm], of name] show ?thesis
      by (simp add: sm_ok_def sm_logindSeatRemoved_def)
  next
    case (Some i)
    let ?sm = "sm\<lparr>sm_systemSeats := (sm_systemSeats sm)(name := None), sm_logind := (sm_logind sm)(i := None)\<rparr>"
    have lg: "logind_ok (sm_logind sm) (sm_systemSeats sm) (sm_next sm)" using removed by (simp add: sm_ok_def)
    then obtain l where l: "sm_logind sm i = Some l" "lo_name l = name"
      using logind_okD(3) [OF lg Some] by blast
    have "logind_ok (sm_logind ?sm) (sm_systemSeats ?sm) (sm_next ?sm)"
      using logind_ok_del [OF lg Some] by simp
    moreover have "graphical_names (sm_logind ?sm) = graphical_names (sm_logind sm) - {name}"
      using graphical_except_fresh [OF lg l(1)] l by (auto simp: graphical_split [of _ i])
    ultimately show ?thesis
      using Some seats_ok_remove [OF s [of ?sm], of name] by (simp add: sm_ok_def sm_logindSeatRemoved_def)
  qed
next
  case (reply sm i r)
  then show ?case by (auto simp: sm_canGraphicalReply_def Let_def changed_ok split: option.splits)
next
  case (properties sm i l changed interface)
  then show ?case by (cases changed) (auto simp: sm_propertiesChanged_def Let_def changed_ok)
qed

lemma sm_ok_init: "sm_ok sm_init"
  by (simp add: sm_ok_def sm_init_def logind_ok_def seats_ok_def graphical_names_def)



text \<open>A \<open>PropertiesChanged\<close> that reports the value the seat already has is acted on again: the
  seat is created a second time, the first object stays alive without being in the table, and D-Bus has the
  seat twice.\<close>

theorem repeated_change_leaks_a_seat:
  assumes "sm_logind sm i = Some l" "lo_canGraphical l" "sm_seats sm (lo_name l) = Some j"
  shows "let sm' = sm_propertiesChanged i seatIfaceName (Some True) sm in
    sm_seats sm' (lo_name l) = Some (sm_next sm) \<and> sm_objects sm' = sm_objects sm @ [(sm_next sm, lo_name l)]
    \<and> length (dm_seats (sm_dm sm')) = length (dm_seats (sm_dm sm)) + 1"
  using assms
  by (simp add: sm_propertiesChanged_def sm_canGraphicalChanged_def sm_createSeat_def dm_AddSeat_def Let_def)

lemma repeated_change_leaks_a_seat_witness:
  "let sm = sm_canGraphicalReply 0 (Some True) (sm_logindSeatAdded ''seat0'' sm_init);
       sm' = sm_propertiesChanged 0 seatIfaceName (Some True) sm
   in length (sm_objects sm') = 2"
  using repeated_change_leaks_a_seat [of "sm_canGraphicalReply 0 (Some True) (sm_logindSeatAdded ''seat0'' sm_init)" 0
      "\<lparr>lo_name = ''seat0'', lo_canGraphical = True\<rparr>" 1]
  by (simp add: sm_canGraphicalReply_def sm_logindSeatAdded_def sm_init_def sm_canGraphicalChanged_def sm_createSeat_def Let_def)

section \<open>The seat on D-Bus\<close>

text \<open>\<open>SwitchToGuest\<close>, \<open>SwitchToUser\<close> and \<open>Lock\<close> of a seat do nothing.\<close>

definition dms_SwitchToGreeter :: "logind_session list option \<Rightarrow> dm_seat \<Rightarrow> SeatManager \<Rightarrow> switch_effect" where
  "dms_SwitchToGreeter sessions s sm = sm_switchToGreeter sessions (dse_name s) sm"

definition dms_Sessions :: "dm_seat \<Rightarrow> SeatManager \<Rightarrow> QString list" where
  "dms_Sessions s sm = dm_Sessions (Some s) (sm_dm sm)"

end
