(* ===== verification/Daemon_App.thy ===== *)
theory Daemon_App
  imports Seat_Manager
begin

text \<open>
  The daemon as a whole (\<open>src/daemon/DaemonApp.cpp\<close>): the seat manager, the \<open>Seat\<close> objects
  it creates and deletes, the counters all displays share, and the ways the daemon is told to end.

  The theory Seat_Manager knows a \<open>Seat\<close> by its number only; here \<open>da_seats\<close> holds the state of
  each, and \<open>daemon_sync\<close> runs the constructor of the seats the seat manager has created and the
  destructor of those it has deleted.
\<close>

record daemon_app =
  da_sm :: SeatManager
  da_seats :: "(nat \<times> Seat) list"
  da_globals :: daemon_globals
  da_logind :: bool
  da_exit :: "int option"

text \<open>The exit code a seat or one of its displays has asked for, if any.\<close>

definition seat_exit :: "Seat \<Rightarrow> int option" where
  "seat_exit st =
     (case List.map_filter (\<lambda>x. case x of DaemonExit c \<Rightarrow> Some c | _ \<Rightarrow> None) (st_effects st)
         @ List.map_filter (\<lambda>x. case x of AppExit c \<Rightarrow> Some c | _ \<Rightarrow> None)
             (concat (map (\<lambda>(i, a, d). d_log d) (st_displays st))) of
        [] \<Rightarrow> None | c # _ \<Rightarrow> Some c)"

text \<open>An operation on the seat \<open>i\<close>, with the counters of the daemon.\<close>

definition on_seat :: "(Seat \<Rightarrow> Seat) \<Rightarrow> nat \<Rightarrow> daemon_app \<Rightarrow> daemon_app" where
  "on_seat f i app =
     (case map_of (da_seats app) i of
        None \<Rightarrow> app
      | Some st \<Rightarrow>
          let st1 = f (st\<lparr>st_globals := da_globals app\<rparr>)
          in app\<lparr>da_seats := map (\<lambda>(j, s). if j = i then (j, st1) else (j, s)) (da_seats app),
                 da_globals := st_globals st1,
                 da_exit := (case da_exit app of None \<Rightarrow> seat_exit st1 | Some c \<Rightarrow> Some c)\<rparr>)"

text \<open>\<open>Seat::Seat\<close>: the seat has a display from the start.  \<open>E\<close> is what the seat's displays see.\<close>

definition daemon_newSeat :: "(QString \<Rightarrow> daemon_env) \<Rightarrow> nat option \<Rightarrow> nat \<times> QString \<Rightarrow> daemon_app \<Rightarrow> daemon_app" where
  "daemon_newSeat E soft_reboots obj app =
     on_seat (seat_createDisplay ((E (snd obj))\<lparr>de_seat := snd obj\<rparr>) soft_reboots) (fst obj)
       (app\<lparr>da_seats := da_seats app @ [(fst obj, seat_new (da_globals app))]\<rparr>)"

text \<open>A seat that is deleted takes its displays with it.\<close>

definition seat_destroy :: "stop_env \<Rightarrow> Seat \<Rightarrow> Seat" where
  "seat_destroy S st = fold (on_display (display_destroy S)) (map fst (st_displays st)) st"

definition daemon_sync :: "(QString \<Rightarrow> daemon_env) \<Rightarrow> stop_env \<Rightarrow> nat option \<Rightarrow> daemon_app \<Rightarrow> daemon_app" where
  "daemon_sync E S soft_reboots app =
     (let objs = sm_objects (da_sm app);
          alive = (\<lambda>x. fst x \<in> fst ` set objs);
          app1 = fold (on_seat (seat_destroy S)) (map fst (filter (\<lambda>x. \<not> alive x) (da_seats app))) app;
          app2 = app1\<lparr>da_seats := filter alive (da_seats app1)\<rparr>;
          fresh = filter (\<lambda>x. fst x \<notin> fst ` set (da_seats app)) objs
      in fold (daemon_newSeat E soft_reboots) fresh app2)"

definition daemon_event :: "(QString \<Rightarrow> daemon_env) \<Rightarrow> stop_env \<Rightarrow> nat option \<Rightarrow> (SeatManager \<Rightarrow> SeatManager) \<Rightarrow> daemon_app \<Rightarrow> daemon_app" where
  "daemon_event E S soft_reboots f app = daemon_sync E S soft_reboots (app\<lparr>da_sm := f (da_sm app)\<rparr>)"

text \<open>
  \<open>DaemonApp::DaemonApp\<close>: the seats are looked for once the signals are connected.  \<open>seats\<close> is
  logind's answer to \<open>ListSeats\<close>, or \<open>None\<close> when logind is not there.
\<close>

definition daemon_new :: "(QString \<Rightarrow> daemon_env) \<Rightarrow> nat option \<Rightarrow> QString list option \<Rightarrow> daemon_app" where
  "daemon_new E soft_reboots seats =
     daemon_event E \<lparr>se_greeter_exit = None, se_session_exit = None\<rparr> soft_reboots (sm_initialize seats)
       \<lparr>da_sm = sm_init, da_seats = [],
        da_globals = \<lparr>gl_lastSessionId = 0, gl_lastAuthId = 1, gl_ttyFailures = 0, gl_firstLoginLock = False\<rparr>,
        da_logind = (seats \<noteq> None), da_exit = None\<rparr>"

text \<open>\<open>SIGINT\<close> is 2, \<open>SIGTERM\<close> is 15; \<open>quit\<close> ends the event loop with 0.\<close>

definition daemon_signal :: "int \<Rightarrow> daemon_app \<Rightarrow> daemon_app" where
  "daemon_signal s app =
     (if s = 2 \<or> s = 15 then app\<lparr>da_exit := (case da_exit app of None \<Rightarrow> Some 0 | Some c \<Rightarrow> Some c)\<rparr> else app)"

text \<open>\<open>switchToGreeter\<close>, from the secure attention key or from D-Bus.\<close>

definition daemon_switchToGreeter :: "(QString \<Rightarrow> daemon_env) \<Rightarrow> nat option \<Rightarrow> logind_session list option \<Rightarrow> QString \<Rightarrow> daemon_app \<Rightarrow> daemon_app" where
  "daemon_switchToGreeter E soft_reboots sessions name app =
     (case sm_switchToGreeter sessions name (da_sm app) of
        CreateDisplayOn i \<Rightarrow> on_seat (seat_createDisplay ((E name)\<lparr>de_seat := name\<rparr>) soft_reboots) i app
      | _ \<Rightarrow> app)"

section \<open>What happens while the daemon runs\<close>

text \<open>
  Events of logind go to the seat manager, as in the theory Seat_Manager; without logind there are
  none.  A display does whatever it does (\<open>f\<close> is any operation on it); its two signals to the seat
  are events of their own.
\<close>

inductive daemon_step :: "daemon_app \<Rightarrow> daemon_app \<Rightarrow> bool" where
  logind: "da_logind app \<Longrightarrow> sm_step (da_sm app) (f (da_sm app)) \<Longrightarrow> daemon_step app (daemon_event E S r f app)"
| display: "daemon_step app (on_seat (on_display f j) i app)"
| stopped: "daemon_step app (on_seat (seat_displayStopped E S r j) i app)"
| failed: "daemon_step app (on_seat (seat_displayServerFailed S j) i app)"
| switch: "daemon_step app (daemon_switchToGreeter E' r sessions name app)"
| signal: "daemon_step app (daemon_signal s app)"

inductive daemon_reachable :: "daemon_app \<Rightarrow> bool" where
  start: "\<forall>l. seats = Some l \<longrightarrow> distinct l \<Longrightarrow> daemon_reachable (daemon_new E r seats)"
| step: "daemon_reachable app \<Longrightarrow> daemon_step app app' \<Longrightarrow> daemon_reachable app'"

inductive_cases daemon_stepE: "daemon_step app app'"

section \<open>Operations a seat can be put through\<close>

text \<open>What every operation on a seat keeps: the seat has a display, or the daemon is told to end.\<close>

locale seat_operation =
  fixes oper :: "Seat \<Rightarrow> Seat"
  assumes keeps: "st_displays st \<noteq> [] \<Longrightarrow> st_displays (oper st) \<noteq> [] \<or> seat_exit (oper st) \<noteq> None"

definition all_shown :: "daemon_app \<Rightarrow> bool" where
  "all_shown app \<longleftrightarrow> da_exit app \<noteq> None \<or> (\<forall>x \<in> set (da_seats app). st_displays (snd x) \<noteq> [])"

lemma on_seat_frames [simp]:
  "da_sm (on_seat f i app) = da_sm app" "da_logind (on_seat f i app) = da_logind app"
  "fst ` set (da_seats (on_seat f i app)) = fst ` set (da_seats app)"
  by (force simp: on_seat_def Let_def image_iff split: option.splits if_splits)+

context seat_operation
begin

lemma on_seat_shown: "all_shown app \<Longrightarrow> all_shown (on_seat oper i app)"
proof (cases "map_of (da_seats app) i")
  case None
  then show "all_shown app \<Longrightarrow> ?thesis" by (simp add: on_seat_def)
next
  case (Some st)
  assume a: "all_shown app"
  show ?thesis
  proof (cases "da_exit app")
    case None
    with a Some have "st_displays (st\<lparr>st_globals := da_globals app\<rparr>) \<noteq> []"
      by (fastforce simp: all_shown_def dest: map_of_SomeD)
    from keeps [OF this] None a Some show ?thesis by (fastforce simp: all_shown_def on_seat_def Let_def split: if_splits)
  next
    case (Some c)
    then show ?thesis by (auto simp: all_shown_def on_seat_def Let_def split: option.splits)
  qed
qed

lemma on_seats_shown: "all_shown app \<Longrightarrow> all_shown (fold (on_seat oper) is app)"
  by (induction "is" arbitrary: app) (simp_all add: on_seat_shown)

end

lemma shown_ids: "map fst (st_displays st') = map fst (st_displays st) \<Longrightarrow> st_displays st \<noteq> [] \<Longrightarrow> st_displays st' \<noteq> []"
  by auto

lemma seat_destroy_ids [simp]: "map fst (st_displays (seat_destroy S st)) = map fst (st_displays st)"
proof -
  have "map fst (st_displays (fold (on_display f) js st)) = map fst (st_displays st)" for f js and st :: Seat
    by (induction js arbitrary: st) simp_all
  then show ?thesis by (simp add: seat_destroy_def)
qed

interpretation created: seat_operation "seat_createDisplay E r" for E r
  by unfold_locales (metis append_is_Nil_conv list.distinct(1) list.simps(8) seat_createDisplay_ids(1))

interpretation shown: seat_operation "on_display f j" for f j
  by unfold_locales (metis shown_ids on_display_ids(1))

interpretation destroyed: seat_operation "seat_destroy S" for S
  by unfold_locales (metis shown_ids seat_destroy_ids)

interpretation stopped: seat_operation "seat_displayStopped E S r j" for E S r j
proof unfold_locales
  fix st :: Seat assume n: "st_displays st \<noteq> []"
  show "st_displays (seat_displayStopped E S r j st) \<noteq> [] \<or> seat_exit (seat_displayStopped E S r j st) \<noteq> None"
  proof (cases "j \<in> set (map fst (st_displays st))")
    case True
    then show ?thesis using displayStopped_ids by blast
  next
    case False
    then have "seat_removeDisplay S j st = st"
      by (metis (no_types, lifting) map_of_eq_None_iff option.simps(4) seat_display_def seat_removeDisplay_def list.set_map)
    with n show ?thesis by (simp add: seat_displayStopped_def Let_def split: option.splits)
  qed
qed

lemma seat_exit_effect: "DaemonExit c \<in> set (st_effects st) \<Longrightarrow> seat_exit st \<noteq> None"
  by (auto simp: seat_exit_def List.map_filter_def split: list.splits)
    (metis (mono_tags, lifting) empty_iff empty_set filter_empty_conv option.distinct(1) seat_effect.case(2))

interpretation failed: seat_operation "seat_displayServerFailed S j" for S j
  by unfold_locales (rule disjI2, rule seat_exit_effect [of 12], simp add: seat_displayServerFailed_def st_effect_def)

section \<open>Every seat has a display\<close>

text \<open>The seat manager's tables and its objects agree.\<close>

definition objects_match :: "SeatManager \<Rightarrow> bool" where
  "objects_match sm \<longleftrightarrow> distinct (map fst (sm_objects sm)) \<and> (\<forall>x \<in> set (sm_objects sm). fst x < sm_next sm)
     \<and> (\<forall>name i. sm_seats sm name = Some i \<longrightarrow> (i, name) \<in> set (sm_objects sm))"

lemma objects_match_create: "objects_match sm \<Longrightarrow> objects_match (sm_createSeat name sm)"
  by (auto simp: objects_match_def sm_createSeat_def less_Suc_eq split: if_splits)

lemma objects_match_remove: "objects_match sm \<Longrightarrow> objects_match (sm_removeSeat name sm)"
  by (auto simp: objects_match_def sm_removeSeat_def distinct_map_filter split: option.splits if_splits)
    (metis distinct_map fst_conv inj_onD snd_conv)

lemma objects_match_cong:
  "sm_objects sm' = sm_objects sm \<Longrightarrow> sm_seats sm' = sm_seats sm \<Longrightarrow> sm_next sm \<le> sm_next sm' \<Longrightarrow>
     objects_match sm \<Longrightarrow> objects_match sm'"
  unfolding objects_match_def by (metis less_le_trans)

lemma objects_match_changed:
  "objects_match sm \<Longrightarrow> objects_match (sm_canGraphicalChanged l (sm\<lparr>sm_logind := lg\<rparr>))"
  unfolding sm_canGraphicalChanged_def
  by (auto intro!: objects_match_create objects_match_remove intro: objects_match_cong [of _ sm])

lemma objects_match_added: "objects_match sm \<Longrightarrow> objects_match (sm_logindSeatAdded name sm)"
  by (rule objects_match_cong [of _ sm]) (simp_all add: sm_logindSeatAdded_def)

lemma objects_match_step: "sm_step sm sm' \<Longrightarrow> objects_match sm \<Longrightarrow> objects_match sm'"
proof (induction rule: sm_step.induct)
  case (added sm name)
  then show ?case by (simp add: objects_match_added)
next
  case (removed sm name)
  have "objects_match sm1" if "sm_objects sm1 = sm_objects sm" "sm_seats sm1 = sm_seats sm" "sm_next sm1 = sm_next sm" for sm1 :: SeatManager
    using objects_match_cong [OF that(1,2)] that(3) removed by simp
  then show ?case by (auto simp: sm_logindSeatRemoved_def Let_def intro!: objects_match_remove split: option.splits)
next
  case (reply sm i r)
  then show ?case by (auto simp: sm_canGraphicalReply_def Let_def objects_match_changed split: option.splits)
next
  case (properties sm i l changed interface)
  then show ?case by (cases changed) (auto simp: sm_propertiesChanged_def Let_def objects_match_changed)
qed

text \<open>Running the constructors and destructors.\<close>

lemma on_seats_frames [simp]:
  "da_sm (fold (on_seat f) is app) = da_sm app" "da_logind (fold (on_seat f) is app) = da_logind app"
  "fst ` set (da_seats (fold (on_seat f) is app)) = fst ` set (da_seats app)"
  by (induction "is" arbitrary: app) simp_all

lemma newSeat_frames [simp]:
  "da_sm (daemon_newSeat E r x app) = da_sm app" "da_logind (daemon_newSeat E r x app) = da_logind app"
  "fst ` set (da_seats (daemon_newSeat E r x app)) = insert (fst x) (fst ` set (da_seats app))"
  by (simp_all add: daemon_newSeat_def)

lemma newSeat_shown:
  assumes "all_shown app" "fst x \<notin> fst ` set (da_seats app)"
  shows "all_shown (daemon_newSeat E r x app)"
proof -
  have m: "map_of (da_seats app @ [(fst x, seat_new (da_globals app))]) (fst x) = Some (seat_new (da_globals app))"
    using assms(2) map_of_eq_None_iff [of "da_seats app" "fst x"] by (simp add: map_add_def)
  have c: "st_displays (seat_createDisplay E' r st) \<noteq> []" for E' and st :: Seat
    by (metis append_is_Nil_conv list.distinct(1) list.simps(8) seat_createDisplay_ids(1))
  show ?thesis
    using assms(1) m c by (cases "da_exit app") (fastforce simp: all_shown_def daemon_newSeat_def on_seat_def Let_def split: if_splits)+
qed

lemma newSeats_shown:
  "all_shown app \<Longrightarrow> distinct (map fst objs) \<Longrightarrow> fst ` set objs \<inter> fst ` set (da_seats app) = {} \<Longrightarrow>
     all_shown (fold (daemon_newSeat E r) objs app)
     \<and> da_sm (fold (daemon_newSeat E r) objs app) = da_sm app \<and> da_logind (fold (daemon_newSeat E r) objs app) = da_logind app
     \<and> fst ` set (da_seats (fold (daemon_newSeat E r) objs app)) = fst ` set objs \<union> fst ` set (da_seats app)"
proof (induction objs arbitrary: app)
  case (Cons x objs)
  have s: "all_shown (daemon_newSeat E r x app)" using Cons.prems by (intro newSeat_shown) auto
  have d: "distinct (map fst objs)" "fst ` set objs \<inter> fst ` set (da_seats (daemon_newSeat E r x app)) = {}"
    using Cons.prems by auto
  from Cons.IH [OF s d] show ?case by auto
qed simp

lemma alive_ids: "fst ` set (filter (\<lambda>x. fst x \<in> A) xs) = fst ` set xs \<inter> A"
  by auto

lemma sync_shown:
  assumes "all_shown app" "distinct (map fst (sm_objects (da_sm app)))"
  shows "all_shown (daemon_sync E S r app) \<and> da_sm (daemon_sync E S r app) = da_sm app
    \<and> da_logind (daemon_sync E S r app) = da_logind app
    \<and> fst ` set (da_seats (daemon_sync E S r app)) = fst ` set (sm_objects (da_sm app))"
proof -
  let ?objs = "sm_objects (da_sm app)"
  let ?alive = "\<lambda>x. fst x \<in> fst ` set ?objs"
  let ?app1 = "fold (on_seat (seat_destroy S)) (map fst (filter (\<lambda>x. \<not> ?alive x) (da_seats app))) app"
  let ?app2 = "?app1\<lparr>da_seats := filter ?alive (da_seats ?app1)\<rparr>"
  let ?fresh = "filter (\<lambda>x. fst x \<notin> fst ` set (da_seats app)) ?objs"
  have one: "all_shown ?app1" by (rule destroyed.on_seats_shown [OF assms(1)])
  then have two: "all_shown ?app2" unfolding all_shown_def by auto
  have ids: "fst ` set (da_seats ?app2) = fst ` set ?objs \<inter> fst ` set (da_seats app)"
    by (simp add: alive_ids Int_commute del: set_filter)
  have d: "distinct (map fst ?fresh)" by (rule distinct_map_filter [OF assms(2)])
  have n: "fst ` set ?fresh \<inter> fst ` set (da_seats ?app2) = {}" unfolding ids by auto
  have e: "daemon_sync E S r app = fold (daemon_newSeat E r) ?fresh ?app2" by (simp add: daemon_sync_def Let_def)
  have "fst ` set ?fresh \<union> (fst ` set ?objs \<inter> fst ` set (da_seats app)) = fst ` set ?objs" by auto
  with newSeats_shown [OF two d n, of E r] show ?thesis unfolding e ids by simp
qed

text \<open>The state of the running daemon; without logind there is \<open>seat0\<close> and nothing changes it.\<close>

definition daemon_ok :: "daemon_app \<Rightarrow> bool" where
  "daemon_ok app \<longleftrightarrow> all_shown app \<and> objects_match (da_sm app)
     \<and> fst ` set (da_seats app) = fst ` set (sm_objects (da_sm app))
     \<and> (if da_logind app then sm_reachable (da_sm app) else dom (sm_seats (da_sm app)) = {''seat0''})"

lemma event_ok:
  assumes "all_shown app" "objects_match (f (da_sm app))"
    "if da_logind app then sm_reachable (f (da_sm app)) else dom (sm_seats (f (da_sm app))) = {''seat0''}"
  shows "daemon_ok (daemon_event E S r f app)"
proof -
  have a: "all_shown (app\<lparr>da_sm := f (da_sm app)\<rparr>)" using assms(1) by (simp add: all_shown_def)
  have "distinct (map fst (sm_objects (da_sm (app\<lparr>da_sm := f (da_sm app)\<rparr>))))" using assms(2) by (simp add: objects_match_def)
  from sync_shown [OF a this, of E S r] assms(2,3) show ?thesis by (simp add: daemon_ok_def daemon_event_def)
qed

lemma listed_seats:
  assumes "distinct l" "sm_reachable sm" "objects_match sm" "set l \<inter> dom (sm_systemSeats sm) = {}"
  shows "sm_reachable (fold sm_logindSeatAdded l sm) \<and> objects_match (fold sm_logindSeatAdded l sm)"
  using assms
proof (induction l arbitrary: sm)
  case (Cons n l)
  then have "sm_systemSeats sm n = None" by auto
  then have "sm_reachable (sm_logindSeatAdded n sm)" using Cons.prems(2) by (blast intro: sm_reachable.step sm_step.added)
  moreover have "set l \<inter> dom (sm_systemSeats (sm_logindSeatAdded n sm)) = {}"
    using Cons.prems by (auto simp: sm_logindSeatAdded_def split: if_splits)
  ultimately show ?case using Cons.IH Cons.prems by (simp add: objects_match_added)
qed simp

lemma start_ok: "\<forall>l. seats = Some l \<longrightarrow> distinct l \<Longrightarrow> daemon_ok (daemon_new E r seats)"
proof -
  assume d: "\<forall>l. seats = Some l \<longrightarrow> distinct l"
  have i: "objects_match sm_init" "dom (sm_systemSeats sm_init) = {}" by (simp_all add: objects_match_def sm_init_def)
  show ?thesis
  proof (cases seats)
    case None
    have "dom (sm_seats (sm_createSeat ''seat0'' sm_init)) = {''seat0''}" by (simp add: sm_createSeat_def sm_init_def)
    then show ?thesis unfolding daemon_new_def
      by (intro event_ok) (simp_all add: None all_shown_def sm_initialize_def objects_match_create i)
  next
    case (Some l)
    with d have "sm_reachable (fold sm_logindSeatAdded l sm_init) \<and> objects_match (fold sm_logindSeatAdded l sm_init)"
      by (intro listed_seats) (simp_all add: i sm_reachable.init)
    then show ?thesis unfolding daemon_new_def
      by (intro event_ok) (simp_all add: Some all_shown_def sm_initialize_def)
  qed
qed

lemma step_ok: "daemon_step app app' \<Longrightarrow> daemon_ok app \<Longrightarrow> daemon_ok app'"
proof (induction rule: daemon_step.induct)
  case (logind app f E S r)
  then have "objects_match (f (da_sm app))" "sm_reachable (f (da_sm app))"
    by (auto simp: daemon_ok_def intro: objects_match_step sm_reachable.step)
  with logind show ?case by (intro event_ok) (simp_all add: daemon_ok_def)
next
  case (switch app E' r sessions name)
  then show ?case
    by (auto simp: daemon_switchToGreeter_def daemon_ok_def created.on_seat_shown split: switch_effect.splits)
next
  case (signal app s)
  then show ?case by (simp add: daemon_signal_def daemon_ok_def all_shown_def split: option.splits)
qed (simp_all add: daemon_ok_def shown.on_seat_shown stopped.on_seat_shown failed.on_seat_shown)


definition sample_daemon :: daemon_app where
  "sample_daemon = daemon_switchToGreeter (\<lambda>_. sample_denv []) None None ''seat0'' (daemon_new (\<lambda>_. sample_denv []) None None)"

lemma sample_daemon_exit: "da_exit sample_daemon = None"
  by code_simp


section \<open>A seat that is announced while the list is being fetched\<close>

text \<open>The signals are connected before the reply to \<open>ListSeats\<close> is there, and \<open>logindSeatAdded\<close>
  does not look whether it knows the seat.  A seat that logind announces before it answers is also in the
  answer: it gets two \<open>LogindSeat\<close> objects, of which the table forgets the first, and once both have
  their \<open>CanGraphical\<close> two \<open>Seat\<close> objects, each with a display, and two entries on D-Bus.\<close>

theorem announced_and_listed_twice:
  "let sm = sm_canGraphicalReply 1 (Some True) (sm_canGraphicalReply 0 (Some True)
        (sm_initialize (Some [name]) (sm_logindSeatAdded name sm_init)))
   in sm_objects sm = [(2, name), (3, name)] \<and> sm_seats sm = [name \<mapsto> 3] \<and> sm_systemSeats sm = [name \<mapsto> 1]
     \<and> map dse_name (dm_seats (sm_dm sm)) = [name, name]"
  by (simp add: sm_canGraphicalReply_def sm_initialize_def sm_logindSeatAdded_def sm_init_def
      sm_canGraphicalChanged_def sm_createSeat_def dm_AddSeat_def new_seat_def Let_def numeral_3_eq_3)

end
