(* ===== verification/Helper_Life.thy ===== *)
theory Helper_Life
  imports Helper_App
begin

text \<open>
  The helper process from its start to its end (\<open>HelperApp::HelperApp\<close>, \<open>main\<close> and the destructor in
  \<open>src/helper/HelperApp.cpp\<close>), and what PAM sees of it.

  What reaches the event loop is a list of events; an event that asks for the end of the process is the last one that is
  looked at, and its exit code is that of the process.  To tell what PAM sees, its library is
  wrapped in one that writes down every call that matters and its result.
\<close>

section \<open>The event loop\<close>

text \<open>The socket is connected or cannot be, a signal arrives, the session's process ends.\<close>

datatype helper_event = SocketConnected | SocketFailed | Signal int | SessionEnds int

definition helper_signal :: "int \<Rightarrow> int option" where
  "helper_signal s = (if s = 15 then Some (-1) else None)"

definition helper_event_step ::
  "qds \<Rightarrow> 'p pam_lib \<Rightarrow> build_config \<Rightarrow> (string \<Rightarrow> passwd option) \<Rightarrow> bool \<Rightarrow> helper_event \<Rightarrow> 'p helper
     \<Rightarrow> ('p helper \<times> int option) option" where
  "helper_event_step c L cfg getpwnam came_up ev h =
     (case ev of
        SocketConnected \<Rightarrow> helper_doAuth c L cfg getpwnam came_up h
      | SocketFailed \<Rightarrow> Some (h, None)
      | Signal s \<Rightarrow> Some (h, helper_signal s)
      | SessionEnds status \<Rightarrow>
          if us_running (h_session h)
          then Some (h\<lparr>h_session := (h_session h)\<lparr>us_running := False\<rparr>\<rparr>, helper_sessionFinished status)
          else Some (h, None))"

fun helper_exec ::
  "qds \<Rightarrow> 'p pam_lib \<Rightarrow> build_config \<Rightarrow> (string \<Rightarrow> passwd option) \<Rightarrow> bool \<Rightarrow> helper_event list \<Rightarrow> 'p helper
     \<Rightarrow> ('p helper \<times> int option) option" where
  "helper_exec c L cfg getpwnam came_up [] h = Some (h, None)"
| "helper_exec c L cfg getpwnam came_up (ev # evs) h =
     (case helper_event_step c L cfg getpwnam came_up ev h of
        None \<Rightarrow> None
      | Some (h1, Some code) \<Rightarrow> Some (h1, Some code)
      | Some (h1, None) \<Rightarrow> helper_exec c L cfg getpwnam came_up evs h1)"

text \<open>The process waits for more events, or has ended with an exit code.\<close>

datatype 'p helper_outcome = Waiting "'p helper" | Ended int "session_effect list" "'p backend"

definition helper_main ::
  "qds \<Rightarrow> 'p pam_lib \<Rightarrow> build_config \<Rightarrow> (string \<Rightarrow> passwd option) \<Rightarrow> bool \<Rightarrow> bool \<Rightarrow> QStringList \<Rightarrow> helper_event list
     \<Rightarrow> 'p \<Rightarrow> channel \<Rightarrow> 'p helper_outcome option" where
  "helper_main c L cfg getpwnam came_up first_wait args evs p ch =
     (let (h, early) = helper_setUp args (init_helper p ch) in
      case (case early of Some code \<Rightarrow> Some (h, Some code) | None \<Rightarrow> helper_exec c L cfg getpwnam came_up evs h) of
        None \<Rightarrow> None
      | Some (h1, None) \<Rightarrow> Some (Waiting h1)
      | Some (h1, Some code) \<Rightarrow>
          map_option (\<lambda>(effects, b). Ended code effects b) (helper_destroy c L first_wait h1))"

section \<open>What PAM sees\<close>

datatype pam_event = PStart int | PAuthenticate int | PAccount int | PChauthtok int | PSetCred int int
  | POpen int | PClose int | PEnd int

primrec map_call :: "(int \<Rightarrow> 'p \<Rightarrow> 'q) \<Rightarrow> 'p pam_call \<Rightarrow> 'q pam_call" where
  "map_call f (PamReturn r p) = PamReturn r (f r p)"
| "map_call f (PamConverse msgs k) = PamConverse msgs (\<lambda>x. map_call f (k x))"

text \<open>The library with a record of its calls: the cleaning of credentials is told from their making.\<close>

definition traced :: "'p pam_lib \<Rightarrow> ('p \<times> pam_event list) pam_lib" where
  "traced L =
     (let call = (\<lambda>ev t. map_call (\<lambda>r q. (q, t @ [ev r]))) in
      \<lparr>lib_start = (\<lambda>service user (p, t). let (r, q) = lib_start L service user p in (r, (q, t @ [PStart r]))),
       lib_authenticate = (\<lambda>fl (p, t). call PAuthenticate t (lib_authenticate L fl p)),
       lib_acct_mgmt = (\<lambda>fl (p, t). call PAccount t (lib_acct_mgmt L fl p)),
       lib_chauthtok = (\<lambda>fl (p, t). call PChauthtok t (lib_chauthtok L fl p)),
       lib_setcred = (\<lambda>fl (p, t). call (PSetCred fl) t (lib_setcred L fl p)),
       lib_open_session = (\<lambda>fl (p, t). call POpen t (lib_open_session L fl p)),
       lib_close_session = (\<lambda>fl (p, t). call PClose t (lib_close_session L fl p)),
       lib_set_item = (\<lambda>i v (p, t). let (r, q) = lib_set_item L i v p in (r, (q, t))),
       lib_get_user = (\<lambda>(p, t). lib_get_user L p),
       lib_putenv = (\<lambda>s (p, t). let (r, q) = lib_putenv L s p in (r, (q, t))),
       lib_getenvlist = (\<lambda>(p, t). lib_getenvlist L p),
       lib_end = (\<lambda>fl (p, t). let (r, q) = lib_end L fl p in (r, (q, t @ [PEnd r]))),
       lib_strerror = (\<lambda>r (p, t). lib_strerror L r p)\<rparr>)"

text \<open>
  The order PAM asks of an application, as an automaton: a session only for a user who has been authenticated and whose
  account is in order, between the making of the credentials and their removal, and everything undone before the end.
  A refused step leads to \<open>Refused\<close>, from where only the end is allowed.
\<close>

datatype pam_phase = NoHandle | Started | Authenticated | Expired | Allowed | Credentialed | Opened | Closed | Cleaned
  | Refused | Finished

definition pam_ends :: "pam_event \<Rightarrow> pam_phase option" where
  "pam_ends ev = (case ev of PEnd r \<Rightarrow> Some Finished | _ \<Rightarrow> None)"

definition pam_next :: "pam_phase \<Rightarrow> pam_event \<Rightarrow> pam_phase option" where
  "pam_next ph ev =
     (case ph of
        NoHandle \<Rightarrow> (case ev of PStart r \<Rightarrow> Some (if r = PAM_SUCCESS then Started else NoHandle) | _ \<Rightarrow> None)
      | Started \<Rightarrow> (case ev of PAuthenticate r \<Rightarrow> Some (if r = PAM_SUCCESS then Authenticated else Refused) | _ \<Rightarrow> pam_ends ev)
      | Authenticated \<Rightarrow>
          (case ev of PAccount r \<Rightarrow>
             Some (if r = PAM_NEW_AUTHTOK_REQD then Expired else if r = PAM_SUCCESS then Allowed else Refused)
           | _ \<Rightarrow> pam_ends ev)
      | Expired \<Rightarrow> (case ev of PChauthtok r \<Rightarrow> Some (if r = PAM_SUCCESS then Allowed else Refused) | _ \<Rightarrow> pam_ends ev)
      | Allowed \<Rightarrow>
          (case ev of PSetCred fl r \<Rightarrow>
             if fl = PAM_ESTABLISH_CRED then Some (if r = PAM_SUCCESS then Credentialed else Refused) else None
           | _ \<Rightarrow> pam_ends ev)
      | Credentialed \<Rightarrow> (case ev of POpen r \<Rightarrow> Some (if r = PAM_SUCCESS then Opened else Refused) | _ \<Rightarrow> pam_ends ev)
      | Opened \<Rightarrow> (case ev of PClose r \<Rightarrow> Some Closed | _ \<Rightarrow> None)
      | Closed \<Rightarrow> (case ev of PSetCred fl r \<Rightarrow> if fl = PAM_DELETE_CRED then Some Cleaned else None | _ \<Rightarrow> None)
      | Cleaned \<Rightarrow> pam_ends ev
      | Refused \<Rightarrow> pam_ends ev
      | Finished \<Rightarrow> None)"

definition pam_path :: "pam_event list \<Rightarrow> pam_phase option" where
  "pam_path t = fold (\<lambda>ev ph. Option.bind ph (\<lambda>x. pam_next x ev)) t (Some NoHandle)"

lemma pam_path_simps [simp]:
  "pam_path [] = Some NoHandle"
  "pam_path (t @ [ev]) = Option.bind (pam_path t) (\<lambda>ph. pam_next ph ev)"
  by (simp_all add: pam_path_def)

definition phase :: "('p \<times> pam_event list) backend \<Rightarrow> pam_phase option" where
  "phase b = pam_path (snd (b_lib b))"

text \<open>A conversation of more than one message has no defined outcome; a stack that holds none always returns.\<close>

primrec asks_singly :: "'p pam_call \<Rightarrow> bool" where
  "asks_singly (PamReturn r p) = True"
| "asks_singly (PamConverse msgs k) = (length msgs \<le> 1 \<and> (\<forall>x. asks_singly (k x)))"

definition single_stack :: "'p pam_lib \<Rightarrow> bool" where
  "single_stack L \<longleftrightarrow> (\<forall>fl p. asks_singly (lib_authenticate L fl p) \<and> asks_singly (lib_acct_mgmt L fl p)
     \<and> asks_singly (lib_chauthtok L fl p) \<and> asks_singly (lib_setcred L fl p)
     \<and> asks_singly (lib_open_session L fl p) \<and> asks_singly (lib_close_session L fl p))"

section \<open>The calls, one by one\<close>

text \<open>What a conversation leaves alone.\<close>

definition same_pam :: "'p backend \<Rightarrow> 'p backend \<Rightarrow> bool" where
  "same_pam b b' \<longleftrightarrow> b_lib b' = b_lib b \<and> b_handle b' = b_handle b \<and> b_open b' = b_open b \<and> b_silent b' = b_silent b"

lemma same_pam_refl [simp]: "same_pam b b"
  by (simp add: same_pam_def)

lemma same_pam_trans: "same_pam b b1 \<Longrightarrow> same_pam b1 b2 \<Longrightarrow> same_pam b b2"
  by (simp add: same_pam_def)

lemma conv_message_same: "same_pam (snd nb) (snd (conv_message c single m nb))"
  by (cases nb) (simp add: conv_message_def same_pam_def Let_def split: prod.splits)

lemma fold_conv_same: "same_pam (snd nb) (snd (fold (conv_message c single) msgs nb))"
proof (induction msgs arbitrary: nb)
  case (Cons m msgs)
  from Cons [of "conv_message c single m nb"] conv_message_same [of nb c single m] show ?case
    by (simp add: same_pam_def)
qed simp

lemma conv_ask_same: "same_pam b (snd (conv_ask c n b))"
  by (simp add: conv_ask_def same_pam_def Let_def split: prod.splits)

lemma converse_same: "same_pam b (snd (converse c msgs b))"
proof -
  obtain n b1 where n: "fold (conv_message c (length msgs = Suc 0)) msgs (False, b) = (n, b1)" by fastforce
  obtain a b2 where a: "conv_ask c n b1 = (a, b2)" by fastforce
  have "same_pam b b2"
    using fold_conv_same [of "(False, b)" c "length msgs = Suc 0" msgs] conv_ask_same [of b1 c n] n a
    by (simp add: same_pam_def)
  then show ?thesis
    by (simp add: converse_eq [OF n a] map_prod_def same_pam_def split: prod.splits)
qed

lemma conv_respond_one: "length msgs \<le> 1 \<Longrightarrow> fst (conv_respond mem 0 msgs resps d) \<noteq> ConvUndefined"
  by (cases msgs) (auto simp: Let_def split: prod.splits)

lemma converse_one: "length msgs \<le> 1 \<Longrightarrow> fst (converse c msgs b) \<noteq> ConvUndefined"
proof -
  assume l: "length msgs \<le> 1"
  obtain n b1 where n: "fold (conv_message c (length msgs = Suc 0)) msgs (False, b) = (n, b1)" by fastforce
  obtain a b2 where a: "conv_ask c n b1 = (a, b2)" by fastforce
  show ?thesis
    using conv_respond_one [OF l, of "next_mem b2" "[]" "b_data b2"] by (auto simp: converse_eq [OF n a] map_prod_def split: prod.splits)
qed

lemma run_traced:
  assumes "run_call c (map_call f t) b = Some (r, b')"
  shows "\<exists>p. b_lib b' = f r p \<and> b_handle b' = b_handle b \<and> b_open b' = b_open b \<and> b_silent b' = b_silent b"
  using assms
proof (induction t arbitrary: b)
  case (PamConverse msgs k)
  then obtain r1 resps b1 where s: "converse c msgs b = (ConvReturn r1 resps, b1)" "run_call c (map_call f (k (r1, resps))) b1 = Some (r, b')"
    by (auto split: prod.splits conv_outcome.splits)
  from PamConverse.IH [OF _ s(2)] converse_same [of b c msgs] s(1) show ?case
    by (force simp: same_pam_def)
qed auto

lemma run_defined: "asks_singly t \<Longrightarrow> run_call c (map_call f t) b \<noteq> None"
proof (induction t arbitrary: b)
  case (PamConverse msgs k)
  with converse_one [of msgs c b] show ?case by (auto split: prod.splits conv_outcome.splits)
qed simp

text \<open>One step of the automaton, with nothing else changed.\<close>

definition moves :: "('p \<times> pam_event list) backend \<Rightarrow> pam_event \<Rightarrow> ('p \<times> pam_event list) backend \<Rightarrow> bool" where
  "moves b ev b' \<longleftrightarrow> phase b' = Option.bind (phase b) (\<lambda>ph. pam_next ph ev)
     \<and> b_handle b' = b_handle b \<and> b_open b' = b_open b \<and> b_silent b' = b_silent b"

lemma call_moves:
  assumes "ph_call c g b = Some (r, b')" "g (b_lib b) = map_call (\<lambda>r q. (q, snd (b_lib b) @ [ev r])) t"
  shows "moves b (ev r) b'"
proof -
  obtain b1 where r: "run_call c (map_call (\<lambda>r q. (q, snd (b_lib b) @ [ev r])) t) b = Some (r, b1)" "b' = b1\<lparr>b_result := r\<rparr>"
    using assms by (auto simp: ph_call_def)
  from run_traced [OF r(1)] show ?thesis by (auto simp: moves_def phase_def r(2))
qed

lemma traced_sel:
  "lib_authenticate (traced L) fl = (\<lambda>x. map_call (\<lambda>r q. (q, snd x @ [PAuthenticate r])) (lib_authenticate L fl (fst x)))"
  "lib_acct_mgmt (traced L) fl = (\<lambda>x. map_call (\<lambda>r q. (q, snd x @ [PAccount r])) (lib_acct_mgmt L fl (fst x)))"
  "lib_chauthtok (traced L) fl = (\<lambda>x. map_call (\<lambda>r q. (q, snd x @ [PChauthtok r])) (lib_chauthtok L fl (fst x)))"
  "lib_setcred (traced L) fl = (\<lambda>x. map_call (\<lambda>r q. (q, snd x @ [PSetCred fl r])) (lib_setcred L fl (fst x)))"
  "lib_open_session (traced L) fl = (\<lambda>x. map_call (\<lambda>r q. (q, snd x @ [POpen r])) (lib_open_session L fl (fst x)))"
  "lib_close_session (traced L) fl = (\<lambda>x. map_call (\<lambda>r q. (q, snd x @ [PClose r])) (lib_close_session L fl (fst x)))"
  by (simp_all add: traced_def Let_def fun_eq_iff)

lemma traced_calls:
  "ph_call c (lib_authenticate (traced L) fl) b = Some (r, b') \<Longrightarrow> moves b (PAuthenticate r) b'"
  "ph_call c (lib_acct_mgmt (traced L) fl) b = Some (r, b') \<Longrightarrow> moves b (PAccount r) b'"
  "ph_call c (lib_chauthtok (traced L) fl) b = Some (r, b') \<Longrightarrow> moves b (PChauthtok r) b'"
  "ph_call c (lib_setcred (traced L) fl) b = Some (r, b') \<Longrightarrow> moves b (PSetCred fl r) b'"
  "ph_call c (lib_open_session (traced L) fl) b = Some (r, b') \<Longrightarrow> moves b (POpen r) b'"
  "ph_call c (lib_close_session (traced L) fl) b = Some (r, b') \<Longrightarrow> moves b (PClose r) b'"
  by (erule call_moves, simp add: traced_sel)+

lemma calls_defined:
  assumes "single_stack L"
  shows "ph_call c (lib_authenticate (traced L) fl) b \<noteq> None" "ph_call c (lib_acct_mgmt (traced L) fl) b \<noteq> None"
    "ph_call c (lib_chauthtok (traced L) fl) b \<noteq> None" "ph_call c (lib_setcred (traced L) fl) b \<noteq> None"
    "ph_call c (lib_open_session (traced L) fl) b \<noteq> None" "ph_call c (lib_close_session (traced L) fl) b \<noteq> None"
  using assms run_defined by (fastforce simp: ph_call_def traced_sel single_stack_def)+

section \<open>The steps of the helper\<close>

definition same_phase :: "('p \<times> pam_event list) backend \<Rightarrow> ('p \<times> pam_event list) backend \<Rightarrow> bool" where
  "same_phase b b' \<longleftrightarrow> phase b' = phase b \<and> b_handle b' = b_handle b \<and> b_open b' = b_open b \<and> b_silent b' = b_silent b"

lemma same_phase_trans: "same_phase b b1 \<Longrightarrow> same_phase b1 b2 \<Longrightarrow> same_phase b b2"
  by (simp add: same_phase_def)

lemma same_phase_simps [simp]:
  "same_phase b b" "same_phase b (pb_error c L t b)" "same_phase b (b\<lparr>b_chan := ch\<rparr>)"
  by (simp_all add: same_phase_def phase_def pb_error_def)

lemma pb_error_sel [simp]:
  "phase (pb_error c L t b) = phase b" "b_handle (pb_error c L t b) = b_handle b" "b_silent (pb_error c L t b) = b_silent b"
  by (simp_all add: phase_def pb_error_def)

lemma setItem_same: "same_phase b (snd (ph_setItem (traced L) i v b))"
  by (cases "b_lib b") (simp add: ph_setItem_def ph_simple_def traced_def same_phase_def phase_def Let_def split: prod.splits)

lemma set_items_same: "same_phase b (pb_set_items (traced L) e b)"
  unfolding pb_set_items_def Let_def
  by (auto intro: setItem_same same_phase_trans [OF setItem_same])

lemma putenv_same: "ph_simple (lib_putenv (traced L) x) b = (ok, b') \<Longrightarrow> same_phase b b'"
  by (cases "b_lib b") (auto simp: ph_simple_def traced_def same_phase_def phase_def Let_def split: prod.splits)

lemma putEnv_same: "ph_putEnv (traced L) l b = (ok, b') \<Longrightarrow> same_phase b b'"
proof (induction l arbitrary: b)
  case (Cons x l)
  then show ?case by (auto split: prod.splits if_splits dest!: putenv_same intro: same_phase_trans)
qed simp

lemma userName_same: "pb_userName (traced L) b = (u, b') \<Longrightarrow> same_phase b b'"
  by (auto simp: pb_userName_def ph_getUser_def same_phase_def phase_def split: prod.splits)

lemma start_phase:
  assumes "pb_start c (traced L) u b = (ok, b')" "phase b = Some NoHandle"
  shows "phase b' = Some (if ok then Started else NoHandle) \<and> b_handle b' = ok \<and> b_open b' = b_open b \<and> b_silent b' = b_silent b"
  using assms
  by (cases "b_lib b") (auto simp: pb_start_def ph_start_def traced_def phase_def pam_next_def pb_error_def Let_def
      split: prod.splits if_splits)

lemma acctMgmt_phase:
  assumes "ph_acctMgmt c (traced L) fl b = Some (ok, b')" "phase b = Some Authenticated"
  shows "phase b' = Some (if ok then Allowed else Refused) \<and> b_handle b' = b_handle b \<and> b_open b' = b_open b \<and> b_silent b' = b_silent b"
  using assms
  by (auto simp: ph_acctMgmt_def ph_chAuthTok_def moves_def pam_next_def PAM_SUCCESS_def PAM_NEW_AUTHTOK_REQD_def
      split: option.splits if_splits dest!: traced_calls)

lemma authenticate_phase:
  assumes "pb_authenticate c (traced L) b = Some (ok, b')" "phase b = Some Started"
  shows "phase b' = Some (if ok then Allowed else Refused) \<and> b_handle b' = b_handle b \<and> b_open b' = b_open b \<and> b_silent b' = b_silent b"
proof -
  obtain r b1 where r: "ph_call c (lib_authenticate (traced L) (b_silent b)) b = Some (r, b1)"
    using assms(1) by (cases "ph_call c (lib_authenticate (traced L) (b_silent b)) b")
      (auto simp: pb_authenticate_def ph_authenticate_def)
  note m = traced_calls(1) [OF r]
  have e: "ph_authenticate c (traced L) 0 b = Some (r = PAM_SUCCESS, b1)" by (simp add: ph_authenticate_def r)
  show ?thesis
  proof (cases "r = PAM_SUCCESS")
    case False
    with assms m e show ?thesis by (auto simp: pb_authenticate_def moves_def pam_next_def)
  next
    case True
    with m assms(2) have p: "phase b1 = Some Authenticated" by (simp add: moves_def pam_next_def)
    obtain ok2 b2 where a: "ph_acctMgmt c (traced L) 0 b1 = Some (ok2, b2)"
      using assms(1) True by (auto simp: pb_authenticate_def e split: option.splits)
    from acctMgmt_phase [OF a p] m assms(1) True show ?thesis
      by (auto simp: pb_authenticate_def e a moves_def split: if_splits)
  qed
qed

lemma defined_handle:
  assumes "single_stack L"
  shows "ph_authenticate c (traced L) fl b \<noteq> None" "ph_acctMgmt c (traced L) fl b \<noteq> None" "ph_setCred c (traced L) fl b \<noteq> None"
    "ph_openSession c (traced L) b \<noteq> None" "ph_closeSession c (traced L) b \<noteq> None"
  by (simp_all add: calls_defined [OF assms] ph_authenticate_def ph_acctMgmt_def ph_chAuthTok_def ph_setCred_def
      ph_openSession_def ph_closeSession_def del: not_None_eq split: option.splits)

lemma defined_steps:
  assumes "single_stack L"
  shows "pb_authenticate c (traced L) b \<noteq> None" "pb_openSession c (traced L) cfg pw up u s b \<noteq> None"
    "pb_closeSession c (traced L) b \<noteq> None"
  by (simp_all add: defined_handle [OF assms] pb_authenticate_def pb_openSession_def pb_closeSession_def Let_def
      del: not_None_eq split: option.splits prod.splits)

text \<open>Between the events: a session is open exactly when PAM thinks so, and its process runs only inside it.\<close>

definition settled :: "('p \<times> pam_event list) backend \<Rightarrow> bool" where
  "settled b \<longleftrightarrow> b_silent b = 0 \<and> (b_open b \<longrightarrow> b_handle b)
     \<and> (if b_open b then phase b = Some Opened
        else if b_handle b then phase b \<in> Some ` {Started, Refused, Allowed, Credentialed}
        else phase b = Some NoHandle)"

definition helper_ok :: "('p \<times> pam_event list) helper \<Rightarrow> bool" where
  "helper_ok h \<longleftrightarrow> settled (h_backend h) \<and> (us_running (h_session h) \<longrightarrow> b_open (h_backend h))"

definition fresh :: "('p \<times> pam_event list) helper \<Rightarrow> bool" where
  "fresh h \<longleftrightarrow> b_silent (h_backend h) = 0 \<and> \<not> b_open (h_backend h) \<and> \<not> b_handle (h_backend h)
     \<and> phase (h_backend h) = Some NoHandle \<and> \<not> us_running (h_session h)"

lemma fresh_ok: "fresh h \<Longrightarrow> helper_ok h"
  by (simp add: fresh_def helper_ok_def settled_def)

lemma settled_same: "same_phase b b' \<Longrightarrow> settled b \<Longrightarrow> settled b'"
  by (auto simp: settled_def same_phase_def split: if_splits)

lemma openSession_phase:
  assumes "pb_openSession c (traced L) cfg pw up u s b = Some (ok, s', b')" "phase b = Some Allowed"
    and "b_silent b = 0" "\<not> b_open b" "b_handle b" "\<not> us_running s"
  shows "settled b' \<and> (us_running s' \<longrightarrow> b_open b')"
proof -
  obtain r1 b1 where r1: "ph_call c (lib_setcred (traced L) PAM_ESTABLISH_CRED) b = Some (r1, b1)"
    using assms(1,3) by (auto simp: pb_openSession_def ph_setCred_def split: option.splits)
  then have e1: "ph_setCred c (traced L) PAM_ESTABLISH_CRED b = Some (r1 = PAM_SUCCESS, b1)"
    by (simp add: ph_setCred_def assms(3))
  have p1: "phase b1 = Some (if r1 = PAM_SUCCESS then Credentialed else Refused)" "b_handle b1" "\<not> b_open b1" "b_silent b1 = 0"
    using traced_calls(4) [OF r1] assms(2-5) by (simp_all add: moves_def pam_next_def)
  obtain ok2 b3 where pe: "ph_putEnv (traced L) (env_strings (us_env s)) (pb_set_items (traced L) (us_env s) b1) = (ok2, b3)"
    by fastforce
  from same_phase_trans [OF set_items_same putEnv_same [OF pe]] p1
  have p3: "phase b3 = Some (if r1 = PAM_SUCCESS then Credentialed else Refused)" "b_handle b3" "\<not> b_open b3" "b_silent b3 = 0"
    by (simp_all add: same_phase_def)
  have err: "settled (pb_error c (traced L) t x)" if "phase x \<in> Some ` {Refused, Credentialed}" "b_handle x" "\<not> b_open x" "b_silent x = 0" for t x
    using that by (auto simp: settled_def pb_error_def phase_def)
  show ?thesis
  proof (cases "r1 = PAM_SUCCESS \<and> ok2")
    case False
    then have "s' = s \<and> b' = pb_error c (traced L) (if r1 = PAM_SUCCESS then ERROR_INTERNAL else ERROR_AUTHENTICATION) (if r1 = PAM_SUCCESS then b3 else b1)"
      using assms(1) by (auto simp: pb_openSession_def e1 pe Let_def)
    with err p1 p3 assms(6) show ?thesis by auto
  next
    case True
    then obtain r4 b4 where r4: "ph_call c (lib_open_session (traced L) (b_silent b3)) b3 = Some (r4, b4)"
      using assms(1) by (auto simp: pb_openSession_def e1 pe ph_openSession_def Let_def split: option.splits)
    from traced_calls(5) [OF r4] p3 True
    have p4: "phase b4 = Some (if r4 = PAM_SUCCESS then Opened else Refused)" "b_handle b4" "b_silent b4 = 0"
      by (simp_all add: moves_def pam_next_def)
    have o: "ph_openSession c (traced L) b3 = Some (r4 = PAM_SUCCESS, b4\<lparr>b_open := (r4 = PAM_SUCCESS)\<rparr>)"
      by (simp add: ph_openSession_def r4)
    show ?thesis
    proof (cases "r4 = PAM_SUCCESS")
      case False
      then have "s' = s \<and> b' = pb_error c (traced L) ERROR_INTERNAL (b4\<lparr>b_open := False\<rparr>)"
        using assms(1) True by (simp add: pb_openSession_def e1 pe o Let_def)
      with err [of "b4\<lparr>b_open := False\<rparr>"] p4 False assms(6) show ?thesis by (simp add: phase_def)
    next
      case ok: True
      then have "b' = b4\<lparr>b_open := True\<rparr>"
        using assms(1) True by (auto simp: pb_openSession_def e1 pe o Let_def split: prod.splits)
      with p4 ok show ?thesis by (simp add: settled_def phase_def)
    qed
  qed
qed

lemma accept_ok:
  assumes "h_accept c (traced L) cfg pw up h = Some (h', code)" "phase (h_backend h) = Some Allowed"
    and "b_silent (h_backend h) = 0" "\<not> b_open (h_backend h)" "b_handle (h_backend h)" "\<not> us_running (h_session h)"
  shows "helper_ok h'"
proof -
  obtain u b where u: "pb_userName (traced L) (h_backend h) = (u, b)" by fastforce
  obtain e ch where e: "helper_authenticated c u (b_chan b) = (e, ch)" by fastforce
  let ?b = "b\<lparr>b_chan := ch\<rparr>"
  from userName_same [OF u] assms(2-5)
  have p: "phase ?b = Some Allowed" "b_silent ?b = 0" "\<not> b_open ?b" "b_handle ?b" by (simp_all add: same_phase_def phase_def)
  show ?thesis
  proof (cases "us_path (h_session h) = []")
    case True
    with assms(1,6) u e p show ?thesis by (auto simp: h_accept_def helper_ok_def settled_def)
  next
    case False
    let ?s = "(h_session h)\<lparr>us_env := env_insert_all e (us_env (h_session h))\<rparr>"
    obtain ok s2 b2 where o: "pb_openSession c (traced L) cfg pw up u ?s ?b = Some (ok, s2, b2)"
      using assms(1) False u e by (auto simp: h_accept_def Let_def split: option.splits)
    have "\<not> us_running ?s" using assms(6) by simp
    from openSession_phase [OF o p this] assms(1) False u e o show ?thesis
      by (auto simp: h_accept_def helper_ok_def settled_def phase_def h_report_session_def Let_def split: if_splits)
  qed
qed

lemma doAuth_ok:
  assumes "helper_doAuth c (traced L) cfg pw up h = Some (h', code)" "fresh h"
  shows "helper_ok h'"
proof -
  let ?b0 = "(h_backend h)\<lparr>b_chan := helper_hello c (word_of_int (h_id h)) (b_chan (h_backend h))\<rparr>"
  obtain started b1 where s: "pb_start c (traced L) (h_user h) ?b0 = (started, b1)" by fastforce
  have f: "phase ?b0 = Some NoHandle" "b_silent ?b0 = 0" "\<not> b_open ?b0" "\<not> us_running (h_session h)"
    using assms(2) by (simp_all add: fresh_def phase_def)
  have r: "helper_ok (h_refuse c (h\<lparr>h_backend := x\<rparr>))" if "settled x" for x
  proof -
    have "same_phase x (h_backend (h_refuse c (h\<lparr>h_backend := x\<rparr>)))" by (simp add: h_refuse_def)
    from settled_same [OF this that] f(4) show ?thesis by (simp add: helper_ok_def)
  qed
  from start_phase [OF s f(1)] f have p1: "phase b1 = Some (if started then Started else NoHandle)" "b_handle b1 = started"
    "\<not> b_open b1" "b_silent b1 = 0" by simp_all
  show ?thesis
  proof (cases started)
    case False
    with assms(1) s r [of b1] p1 show ?thesis by (auto simp: helper_doAuth_def settled_def)
  next
    case True
    then obtain ok b2 where a: "pb_authenticate c (traced L) b1 = Some (ok, b2)"
      using assms(1) s by (auto simp: helper_doAuth_def split: option.splits)
    from authenticate_phase [OF a] p1 True
    have p2: "phase b2 = Some (if ok then Allowed else Refused)" "b_handle b2" "\<not> b_open b2" "b_silent b2 = 0" by simp_all
    show ?thesis
    proof (cases ok)
      case False
      with assms(1) s a True r [of b2] p2 show ?thesis by (auto simp: helper_doAuth_def settled_def)
    next
      case ok: True
      then have "h_accept c (traced L) cfg pw up (h\<lparr>h_backend := b2\<rparr>) = Some (h', code)"
        using assms(1) s a True by (simp add: helper_doAuth_def)
      from accept_ok [OF this] p2 ok f(4) show ?thesis by simp
    qed
  qed
qed

lemma doAuth_defined: "single_stack L \<Longrightarrow> helper_doAuth c (traced L) cfg pw up h \<noteq> None"
  by (simp add: defined_steps helper_doAuth_def h_accept_def Let_def del: not_None_eq split: option.splits prod.splits)

text \<open>The loop: the socket reports that it is connected once.\<close>

definition connections :: "helper_event list \<Rightarrow> nat" where
  "connections evs = length (filter (\<lambda>e. e = SocketConnected) evs)"

lemma connections_simps [simp]:
  "connections [] = 0" "connections (e # evs) = (if e = SocketConnected then Suc (connections evs) else connections evs)"
  by (simp_all add: connections_def)

lemma other_event:
  assumes "helper_event_step c (traced L) cfg pw up e h = Some (h', code)" "e \<noteq> SocketConnected"
  shows "(helper_ok h \<longrightarrow> helper_ok h') \<and> (fresh h \<longrightarrow> fresh h')"
  using assms by (auto simp: helper_event_step_def helper_ok_def fresh_def split: helper_event.splits if_splits)

lemma exec_ok:
  assumes "helper_exec c (traced L) cfg pw up evs h = Some (h', code)"
    and "fresh h \<and> connections evs \<le> 1 \<or> helper_ok h \<and> connections evs = 0"
  shows "helper_ok h'"
  using assms
proof (induction evs arbitrary: h)
  case Nil
  then show ?case using fresh_ok by auto
next
  case (Cons e evs)
  obtain h1 code1 where s: "helper_event_step c (traced L) cfg pw up e h = Some (h1, code1)"
    using Cons.prems(1) by (auto split: option.splits)
  have n: "fresh h1 \<and> connections evs \<le> 1 \<or> helper_ok h1 \<and> connections evs = 0"
  proof (cases "e = SocketConnected")
    case True
    with Cons.prems(2) s show ?thesis by (auto simp: helper_event_step_def dest: doAuth_ok)
  next
    case False
    with Cons.prems(2) other_event [OF s] show ?thesis by auto
  qed
  show ?case
  proof (cases code1)
    case None
    with Cons.prems(1) s have "helper_exec c (traced L) cfg pw up evs h1 = Some (h', code)" by simp
    from Cons.IH [OF this n] show ?thesis .
  next
    case (Some x)
    with Cons.prems(1) s n fresh_ok show ?thesis by auto
  qed
qed

lemma exec_defined: "single_stack L \<Longrightarrow> helper_exec c (traced L) cfg pw up evs h \<noteq> None"
proof (induction evs arbitrary: h)
  case (Cons e evs)
  have "helper_event_step c (traced L) cfg pw up e h \<noteq> None"
    using doAuth_defined [OF Cons.prems] by (simp add: helper_event_step_def del: not_None_eq split: helper_event.splits)
  with Cons show ?case by (auto split: option.splits)
qed simp

lemma destroy_phase:
  assumes "helper_destroy c (traced L) w h = Some (effects, b)" "helper_ok h"
  shows "phase b \<in> {Some NoHandle, Some Finished}"
proof -
  obtain ok b1 where c: "pb_closeSession c (traced L) (h_backend h) = Some (ok, b1)" "b = snd (ph_end (traced L) 0 b1)"
    using assms(1) by (auto simp: helper_destroy_def)
  have s: "settled (h_backend h)" using assms(2) by (simp add: helper_ok_def)
  have e: "phase (snd (ph_end (traced L) 0 x)) = (if b_handle x then Option.bind (phase x) (\<lambda>ph. pam_next ph (PEnd (b_result (snd (ph_end (traced L) 0 x))))) else phase x)" for x
    by (cases "b_lib x") (auto simp: ph_end_def traced_def phase_def Let_def split: prod.splits)
  show ?thesis
  proof (cases "b_open (h_backend h)")
    case False
    then have "b1 = h_backend h" using c(1) by (simp add: pb_closeSession_def)
    with s False show ?thesis by (auto simp: c(2) e settled_def pam_next_def pam_ends_def split: if_splits)
  next
    case True
    then obtain r b2 r2 b3 where r: "ph_call c (lib_close_session (traced L) (b_silent (h_backend h))) (h_backend h) = Some (r, b2)"
      "ph_call c (lib_setcred (traced L) (PAM_DELETE_CRED OR b_silent b2)) b2 = Some (r2, b3)" "b1 = b3"
      using c(1) by (auto simp: pb_closeSession_def ph_closeSession_def ph_setCred_def split: option.splits)
    from traced_calls(6) [OF r(1)] s True have p: "phase b2 = Some Closed" "b_silent b2 = 0" "b_handle b2"
      by (simp_all add: moves_def settled_def pam_next_def)
    from traced_calls(4) [OF r(2)] p have "phase b3 = Some Cleaned" "b_handle b3"
      by (simp_all add: moves_def pam_next_def)
    then show ?thesis by (simp add: c(2) e r(3) pam_next_def pam_ends_def)
  qed
qed

lemma set_value_fresh:
  "fresh (set_value (\<lambda>x h. h\<lparr>h_server := x\<rparr>) v h) = fresh h"
  "fresh (set_value (\<lambda>x h. h\<lparr>h_id := to_long_long x\<rparr>) v h) = fresh h"
  "fresh (set_value (\<lambda>x h. h\<lparr>h_session := (h_session h)\<lparr>us_path := x\<rparr>\<rparr>) v h) = fresh h"
  "fresh (set_value (\<lambda>x h. h\<lparr>h_user := x\<rparr>) v h) = fresh h"
  "fresh (h_set_flags args h) = fresh h"
  by (simp_all add: set_value_def h_set_flags_def fresh_def phase_def pb_setAutologin_def pb_setGreeter_def Let_def split: option.splits)

lemma setUp_fresh: "fresh (fst (helper_setUp args h)) = fresh h"
  unfolding helper_setUp_def Let_def by (simp add: set_value_fresh split: sum.split)

lemma sigterm_ends:
  assumes "helper_exec c L cfg pw up evs h = Some (h', code)" "Signal 15 \<in> set evs"
  shows "code \<noteq> None"
  using assms
proof (induction evs arbitrary: h)
  case (Cons e evs)
  then show ?case by (auto simp: helper_event_step_def helper_signal_def split: option.splits)
qed simp

text \<open>Property C3: the helper keeps to PAM's order, however it ends.  With a stack that asks one question at a time the
  process always gets somewhere, whatever the arguments, the daemon's answers, the signals and the session do, and \<open>SIGTERM\<close>
  ends it.  While it waits, the session's process runs only inside an open PAM session; when it has ended, PAM was either
  never started or has been ended, after the session that was opened has been closed and its credentials removed.\<close>

theorem helper_follows_pam:
  assumes "single_stack L" "connections evs \<le> 1"
  shows "\<exists>r. helper_main c (traced L) cfg getpwnam came_up first_wait args evs (p, []) ch = Some r
    \<and> (case r of
         Waiting h \<Rightarrow> Signal 15 \<notin> set evs
           \<and> (\<exists>ph. pam_path (snd (b_lib (h_backend h))) = Some ph \<and> (us_running (h_session h) \<longrightarrow> ph = Opened))
       | Ended code effects b \<Rightarrow> pam_path (snd (b_lib b)) \<in> {Some NoHandle, Some Finished})"
proof -
  let ?h0 = "init_helper (p, [] :: pam_event list) ch"
  obtain h early where u: "helper_setUp args ?h0 = (h, early)" by fastforce
  have "fresh ?h0" by (simp add: fresh_def init_helper_def init_backend_def init_session_def phase_def)
  with setUp_fresh [of args ?h0] u have f: "fresh h" by simp
  obtain h1 code where e: "(case early of Some code \<Rightarrow> Some (h, Some code) | None \<Rightarrow> helper_exec c (traced L) cfg getpwnam came_up evs h) = Some (h1, code)"
    using exec_defined [OF assms(1), of c cfg getpwnam came_up evs h] by (cases early) auto
  have ok: "helper_ok h1"
    using e f fresh_ok exec_ok [of c L cfg getpwnam came_up evs h h1 code] assms(2) by (cases early) auto
  show ?thesis
  proof (cases code)
    case None
    then have "Signal 15 \<notin> set evs" using e sigterm_ends [of c "traced L" cfg getpwnam came_up evs h h1 code] by (cases early) auto
    with None ok show ?thesis by (auto simp: helper_main_def u e helper_ok_def settled_def phase_def split: if_splits)
  next
    case (Some x)
    obtain effects b where d: "helper_destroy c (traced L) first_wait h1 = Some (effects, b)"
      using defined_steps(3) [OF assms(1)] by (fastforce simp: helper_destroy_def)
    from destroy_phase [OF d ok] Some show ?thesis by (simp add: helper_main_def u e d phase_def)
  qed
qed

lemma helper_follows_pam_witness:
  "\<exists>code effects b. helper_main sd_qds (traced (sample_pam ''secret'' 0)) sample_cfg (\<lambda>_. Some sample_passwd) True True
      [''helper'', ''--socket'', ''auth'', ''--id'', ''1'', ''--start'', ''startplasma-wayland'', ''--user'', ''joe'']
      [SocketConnected, Signal 15] (0, []) (b_chan (h_backend sample_helper)) = Some (Ended code effects b)
    \<and> pam_path (snd (b_lib b)) \<in> {Some NoHandle, Some Finished}"
proof -
  have "single_stack (sample_pam ''secret'' 0)" "connections [SocketConnected, Signal 15] \<le> 1"
    by (simp_all add: single_stack_def sample_pam_def case_prod_beta)
  from helper_follows_pam [OF this, of sd_qds sample_cfg "\<lambda>_. Some sample_passwd" True True
      "[''helper'', ''--socket'', ''auth'', ''--id'', ''1'', ''--start'', ''startplasma-wayland'', ''--user'', ''joe'']" 0
      "b_chan (h_backend sample_helper)"]
  show ?thesis
  proof (elim exE conjE)
    fix r
    assume m: "helper_main sd_qds (traced (sample_pam ''secret'' 0)) sample_cfg (\<lambda>_. Some sample_passwd) True True
      [''helper'', ''--socket'', ''auth'', ''--id'', ''1'', ''--start'', ''startplasma-wayland'', ''--user'', ''joe'']
      [SocketConnected, Signal 15] (0, []) (b_chan (h_backend sample_helper)) = Some r"
    assume "case r of
        Waiting h \<Rightarrow> Signal 15 \<notin> set [SocketConnected, Signal 15]
          \<and> (\<exists>ph. pam_path (snd (b_lib (h_backend h))) = Some ph \<and> (us_running (h_session h) \<longrightarrow> ph = Opened))
      | Ended code effects b \<Rightarrow> pam_path (snd (b_lib b)) \<in> {Some NoHandle, Some Finished}"
    then show ?thesis using m by (cases r) auto
  qed
qed

section \<open>What is left undone\<close>

text \<open>When the credentials have been made but the session cannot be opened, they are not removed: the helper goes straight to the
  end of the transaction.\<close>

theorem credentials_left:
  assumes "ph_call c (lib_setcred (traced L) PAM_ESTABLISH_CRED) b = Some (PAM_SUCCESS, b1)" "b_silent b = 0"
    and "ph_putEnv (traced L) (env_strings (us_env s)) (pb_set_items (traced L) (us_env s) b1) = (False, b2)"
    and "\<not> b_open b"
  shows "\<exists>s' b'. pb_openSession c (traced L) cfg pw up u s b = Some (False, s', b')
    \<and> pb_closeSession c (traced L) b' = Some (True, b') \<and> phase b' = Option.bind (phase b) (\<lambda>ph. pam_next ph (PSetCred PAM_ESTABLISH_CRED PAM_SUCCESS))"
proof -
  have e1: "ph_setCred c (traced L) PAM_ESTABLISH_CRED b = Some (True, b1)"
    using assms(1,2) by (simp add: ph_setCred_def)
  have m: "moves b (PSetCred PAM_ESTABLISH_CRED PAM_SUCCESS) b1" by (rule traced_calls(4) [OF assms(1)])
  from same_phase_trans [OF set_items_same putEnv_same [OF assms(3)]] m assms(4) show ?thesis
    by (simp add: pb_openSession_def e1 assms(3) pb_closeSession_def Let_def same_phase_def moves_def)
qed

end
