(* ===== verification/Session_Model.thy ===== *)
theory Session_Model
  imports Prelude "HOL-Library.Multiset"
begin

text \<open>
  The list of sessions the greeter offers (\<open>src/frontend/settings/models/sessionmodel.cpp\<close>): finding
  the desktop files, ordering them, and the texts they are shown with.

  What the directories and the desktop files hold is a parameter, as are \<open>QString::localeAwareCompare\<close>,
  \<open>std::sort\<close> and the translated texts; the first two with the contract their documentation gives.
\<close>

section \<open>Orders\<close>

text \<open>\<open>QString::operator<\<close> goes by code units.\<close>

fun units_cmp :: "nat list \<Rightarrow> nat list \<Rightarrow> int" where
  "units_cmp [] [] = 0"
| "units_cmp [] (y # ys) = -1"
| "units_cmp (x # xs) [] = 1"
| "units_cmp (x # xs) (y # ys) = (if x < y then -1 else if y < x then 1 else units_cmp xs ys)"

definition str_cmp :: "string \<Rightarrow> string \<Rightarrow> int" where
  "str_cmp a b = units_cmp (map of_char a) (map of_char b)"

definition str_less :: "string \<Rightarrow> string \<Rightarrow> bool" where
  "str_less a b \<longleftrightarrow> str_cmp a b < 0"

text \<open>What a three-way comparison promises: its signs are those of a total preorder.\<close>

definition cmp_ok :: "('a \<Rightarrow> 'a \<Rightarrow> int) \<Rightarrow> bool" where
  "cmp_ok cmp \<longleftrightarrow> (\<forall>a b. cmp a b < 0 \<longleftrightarrow> 0 < cmp b a)
     \<and> (\<forall>a b c. cmp a b \<le> 0 \<longrightarrow> cmp b c \<le> 0 \<longrightarrow> cmp a c \<le> 0)"

text \<open>The requirement of \<open>std::sort\<close> on a comparison: a strict weak order.\<close>

definition strict_weak :: "('a \<Rightarrow> 'a \<Rightarrow> bool) \<Rightarrow> bool" where
  "strict_weak lt \<longleftrightarrow> (\<forall>a b. lt a b \<longrightarrow> \<not> lt b a)
     \<and> (\<forall>a b c. \<not> lt a b \<longrightarrow> \<not> lt b c \<longrightarrow> \<not> lt a c)"

lemma units_cmp_antisym: "units_cmp a b < 0 \<longleftrightarrow> 0 < units_cmp b a"
proof (induction a b rule: units_cmp.induct)
  case (4 x xs y ys)
  show ?case
  proof (cases x y rule: linorder_cases)
    case equal
    with 4 [OF _ _] show ?thesis by (simp only: units_cmp.simps less_irrefl if_False simp_thms)
  next
    case less
    then show ?thesis by (simp add: not_less_iff_gr_or_eq)
  next
    case greater
    then show ?thesis by (simp add: not_less_iff_gr_or_eq)
  qed
qed simp_all

lemma units_cmp_le: "units_cmp (x # xs) (y # ys) \<le> 0 \<longleftrightarrow> x < y \<or> x = y \<and> units_cmp xs ys \<le> 0"
  by (cases x y rule: linorder_cases) (simp_all add: less_imp_not_less)

lemma units_cmp_trans: "units_cmp a b \<le> 0 \<Longrightarrow> units_cmp b c \<le> 0 \<Longrightarrow> units_cmp a c \<le> 0"
proof (induction a b arbitrary: c rule: units_cmp.induct)
  case (4 x xs y ys)
  show ?case
  proof (cases c)
    case Nil
    with "4.prems" show ?thesis by (simp del: units_cmp.simps(4))
  next
    case (Cons z zs)
    with "4.prems" have a: "x < y \<or> x = y \<and> units_cmp xs ys \<le> 0" and b: "y < z \<or> y = z \<and> units_cmp ys zs \<le> 0"
      unfolding units_cmp_le by (simp_all only: units_cmp_le)
    have "x < z \<or> x = z \<and> units_cmp xs zs \<le> 0"
    proof (cases "x = y \<and> y = z")
      case True
      with a b "4.IH" [of zs] show ?thesis by (metis less_irrefl)
    next
      case False
      with a b show ?thesis by linarith
    qed
    then show ?thesis unfolding Cons units_cmp_le .
  qed
next
  case 1
  then show ?case by (cases c) simp_all
next
  case (2 y ys)
  then show ?case by (cases c) simp_all
next
  case (3 x xs)
  then show ?case by simp
qed

lemma str_cmp_ok: "cmp_ok str_cmp"
  unfolding cmp_ok_def str_cmp_def using units_cmp_antisym units_cmp_trans by blast

lemma strict_weakD:
  assumes "strict_weak lt" shows "lt a b \<Longrightarrow> \<not> lt b a" "\<not> lt a b \<Longrightarrow> \<not> lt b c \<Longrightarrow> \<not> lt a c"
  using assms unfolding strict_weak_def by blast+

text \<open>
  \<open>std::sort\<close>, given a strict weak order, gives a permutation in which no element comes after a greater
  one; how it orders equivalent elements is not said.
\<close>

locale std_sort =
  fixes srt :: "('a \<Rightarrow> 'a \<Rightarrow> bool) \<Rightarrow> 'a list \<Rightarrow> 'a list"
  assumes perm: "strict_weak lt \<Longrightarrow> mset (srt lt xs) = mset xs"
    and ordered: "strict_weak lt \<Longrightarrow> sorted_wrt (\<lambda>x y. \<not> lt y x) (srt lt xs)"
begin

lemma sort_set: "strict_weak lt \<Longrightarrow> set (srt lt xs) = set xs"
  using perm mset_eq_setD by blast

lemma sort_length: "strict_weak lt \<Longrightarrow> length (srt lt xs) = length xs"
  using perm mset_eq_length by blast

lemma sort_not_after: "strict_weak lt \<Longrightarrow> i < j \<Longrightarrow> j < length xs \<Longrightarrow> \<not> lt (srt lt xs ! j) (srt lt xs ! i)"
  using ordered [of lt xs] sort_length [of lt xs] by (simp add: sorted_wrt_iff_nth_less)

end

text \<open>One such function.\<close>

fun insert_by :: "('a \<Rightarrow> 'a \<Rightarrow> bool) \<Rightarrow> 'a \<Rightarrow> 'a list \<Rightarrow> 'a list" where
  "insert_by lt x [] = [x]"
| "insert_by lt x (y # ys) = (if lt y x then y # insert_by lt x ys else x # y # ys)"

definition sort_by :: "('a \<Rightarrow> 'a \<Rightarrow> bool) \<Rightarrow> 'a list \<Rightarrow> 'a list" where
  "sort_by lt xs = foldr (insert_by lt) xs []"

lemma mset_insert_by [simp]: "mset (insert_by lt x xs) = add_mset x (mset xs)"
  by (induction xs) auto

lemma set_insert_by [simp]: "set (insert_by lt x xs) = insert x (set xs)"
  using mset_insert_by [of lt x xs] by (metis set_mset_add_mset_insert set_mset_mset)

lemma mset_sort_by: "mset (sort_by lt xs) = mset xs"
  by (induction xs) (simp_all add: sort_by_def)

lemma insert_by_sorted:
  assumes "strict_weak lt" "sorted_wrt (\<lambda>x y. \<not> lt y x) xs"
  shows "sorted_wrt (\<lambda>x y. \<not> lt y x) (insert_by lt x xs)"
  using assms(2)
proof (induction xs)
  case (Cons y ys)
  show ?case
  proof (cases "lt y x")
    case True
    with Cons strict_weakD(1) [OF assms(1)] show ?thesis by auto
  next
    case False
    then have "\<forall>z \<in> set ys. \<not> lt z x" using Cons.prems strict_weakD(2) [OF assms(1)] by auto
    with False Cons.prems show ?thesis by simp
  qed
qed simp

lemma sort_by_sorted: "strict_weak lt \<Longrightarrow> sorted_wrt (\<lambda>x y. \<not> lt y x) (sort_by lt xs)"
  by (induction xs) (simp_all add: sort_by_def insert_by_sorted)

interpretation sb: std_sort sort_by
  by unfold_locales (simp_all add: mset_sort_by sort_by_sorted)

section \<open>Sessions\<close>

datatype model_session_type = X11 | Wayland

record model_session =
  ms_type :: model_session_type
  ms_path :: QString
  ms_displayName :: QString
  ms_comment :: QString

text \<open>
  \<open>dir_entries\<close>: the files of a directory that match \<open>*.desktop\<close>, as \<open>entryList\<close> gives them;
  \<open>desktop_name\<close>, \<open>desktop_comment\<close>: what \<open>KDesktopFile\<close> reads of a file.
\<close>

record session_files =
  dir_entries :: "QString \<Rightarrow> QString list"
  read_name :: "QString \<Rightarrow> QString"
  read_comment :: "QString \<Rightarrow> QString"

definition file_name :: "QString \<Rightarrow> QString" where
  "file_name p = last (split_on CHR ''/'' p)"

definition absoluteFilePath :: "QString \<Rightarrow> QString \<Rightarrow> QString" where
  "absoluteFilePath dir name = dir @ ''/'' @ name"

definition add_session_path :: "QString \<Rightarrow> QString \<Rightarrow> QString list \<Rightarrow> QString list" where
  "add_session_path dir sessionPath sessionsPaths =
     (let sessionFileName = file_name sessionPath;
          isDuplicate = list_ex (\<lambda>existing. file_name existing = sessionFileName) sessionsPaths
      in if \<not> isDuplicate then sessionsPaths @ [absoluteFilePath dir sessionFileName] else sessionsPaths)"

definition getSessionsPaths :: "session_files \<Rightarrow> QString list \<Rightarrow> QString list" where
  "getSessionsPaths F sessionsDirs =
     fold (\<lambda>dir paths. fold (add_session_path dir) (dir_entries F dir) paths) sessionsDirs []"

definition getSession :: "session_files \<Rightarrow> QString \<Rightarrow> model_session_type \<Rightarrow> model_session" where
  "getSession F path type =
     \<lparr>ms_type = type, ms_path = path, ms_displayName = read_name F path, ms_comment = read_comment F path\<rparr>"

text \<open>The comparison of the sort: Plasma first, then by name, then Wayland first.\<close>

definition session_less :: "(string \<Rightarrow> string \<Rightarrow> int) \<Rightarrow> model_session \<Rightarrow> model_session \<Rightarrow> bool" where
  "session_less localeAwareCompare a b =
     (let aIsPlasma = starts_with ''plasma'' (file_name (ms_path a));
          bIsPlasma = starts_with ''plasma'' (file_name (ms_path b))
      in if aIsPlasma \<and> \<not> bIsPlasma then True
         else if \<not> aIsPlasma \<and> bIsPlasma then False
         else let compare = localeAwareCompare (ms_displayName a) (ms_displayName b)
              in if compare < 0 then True
                 else if 0 < compare then False
                 else let aIsWayland = ms_type a = Wayland; bIsWayland = ms_type b = Wayland
                      in if aIsWayland \<and> \<not> bIsWayland then True else False)"

definition sm_populate ::
  "((model_session \<Rightarrow> model_session \<Rightarrow> bool) \<Rightarrow> model_session list \<Rightarrow> model_session list) \<Rightarrow> (string \<Rightarrow> string \<Rightarrow> int)
    \<Rightarrow> session_files \<Rightarrow> QString list \<Rightarrow> QString list \<Rightarrow> model_session list" where
  "sm_populate srt localeAwareCompare F xSessionsPaths waylandSessionsPaths =
     srt (session_less localeAwareCompare)
       (map (\<lambda>p. getSession F p X11) (getSessionsPaths F xSessionsPaths)
        @ map (\<lambda>p. getSession F p Wayland) (getSessionsPaths F waylandSessionsPaths))"

section \<open>What is shown\<close>

text \<open>The texts before translation: \<open>tr\<close> puts one into the language of the user.\<close>

datatype display_text =
    PlainName QString
  | NameType QString model_session_type
  | NameIndex QString int
  | NameTypeIndex QString model_session_type int

definition shouldAppendType :: "model_session list \<Rightarrow> model_session \<Rightarrow> bool" where
  "shouldAppendType m_sessions s =
     list_ex (\<lambda>other. ms_path s \<noteq> ms_path other \<and> ms_displayName s = ms_displayName other \<and> ms_type s \<noteq> ms_type other)
       m_sessions"

text \<open>\<open>any_of\<close> stops at the first match, and the lambda counts on the way.\<close>

definition same_text :: "model_session \<Rightarrow> model_session \<Rightarrow> bool" where
  "same_text s other \<longleftrightarrow>
     ms_path s \<noteq> ms_path other \<and> ms_displayName s = ms_displayName other \<and> ms_type s = ms_type other"

fun append_index :: "model_session \<Rightarrow> int \<Rightarrow> model_session list \<Rightarrow> bool \<times> int" where
  "append_index s index [] = (False, index)"
| "append_index s index (other # others) =
     (let match = same_text s other;
          index1 = (if match \<and> str_less (ms_path other) (ms_path s) then index + 1 else index)
      in if match then (True, index1) else append_index s index1 others)"

definition getDisplay :: "model_session list \<Rightarrow> model_session \<Rightarrow> display_text" where
  "getDisplay m_sessions s =
     (let byType = shouldAppendType m_sessions s; (byIndex, index) = append_index s 1 m_sessions
      in if byType \<and> byIndex then NameTypeIndex (ms_displayName s) (ms_type s) index
         else if byType then NameType (ms_displayName s) (ms_type s)
         else if byIndex then NameIndex (ms_displayName s) index
         else PlainName (ms_displayName s))"

datatype variant = VNull | VStr QString | VInt int | VBool bool

fun v_toString :: "variant \<Rightarrow> QString" where
  "v_toString VNull = []"
| "v_toString (VStr s) = s"
| "v_toString (VInt i) = number i"
| "v_toString (VBool b) = (if b then ''true'' else ''false'')"

datatype session_role = DisplayRole | TypeRole | FileNameRole | DisplayNameRole | CommentRole | OtherRole

definition session_data ::
  "(display_text \<Rightarrow> QString) \<Rightarrow> model_session list \<Rightarrow> int \<Rightarrow> session_role \<Rightarrow> variant" where
  "session_data tr m_sessions row role =
     (if row < 0 \<or> int (length m_sessions) \<le> row then VNull
      else let s = m_sessions ! nat row in
        case role of
          DisplayRole \<Rightarrow> VStr (tr (getDisplay m_sessions s))
        | DisplayNameRole \<Rightarrow> VStr (ms_displayName s)
        | TypeRole \<Rightarrow> VInt (case ms_type s of X11 \<Rightarrow> 0 | Wayland \<Rightarrow> 1)
        | FileNameRole \<Rightarrow> VStr (file_name (ms_path s))
        | CommentRole \<Rightarrow> VStr (ms_comment s)
        | OtherRole \<Rightarrow> VNull)"

definition session_rowCount :: "bool \<Rightarrow> model_session list \<Rightarrow> int" where
  "session_rowCount parent_valid m_sessions = (if parent_valid then 0 else int (length m_sessions))"

text \<open>The search both models share: the first row whose data is the given one.\<close>

fun first_row :: "(int \<Rightarrow> variant) \<Rightarrow> variant \<Rightarrow> nat \<Rightarrow> int \<Rightarrow> int" where
  "first_row row_data v 0 i = -1"
| "first_row row_data v (Suc n) i = (if row_data i = v then i else first_row row_data v n (i + 1))"

definition session_indexOfData ::
  "(display_text \<Rightarrow> QString) \<Rightarrow> model_session list \<Rightarrow> variant \<Rightarrow> session_role \<Rightarrow> int" where
  "session_indexOfData tr m_sessions v role =
     (if v = VNull \<or> v_toString v = [] then -1
      else first_row (\<lambda>i. session_data tr m_sessions i role) v (length m_sessions) 0)"

section \<open>The list\<close>

lemma session_lt_iff:
  "session_less cmp a b \<longleftrightarrow>
     (let p = starts_with ''plasma'' (file_name (ms_path a)); q = starts_with ''plasma'' (file_name (ms_path b));
          c = cmp (ms_displayName a) (ms_displayName b)
      in p \<and> \<not> q \<or> p = q \<and> (c < 0 \<or> c = 0 \<and> ms_type a = Wayland \<and> ms_type b = X11))"
  by (cases "ms_type b") (auto simp: session_less_def Let_def)

lemma cmp_okD:
  assumes "cmp_ok cmp"
  shows "cmp a b < 0 \<longleftrightarrow> 0 < cmp b a" "cmp a b = 0 \<longleftrightarrow> cmp b a = 0" "cmp a b \<le> 0 \<Longrightarrow> cmp b c \<le> 0 \<Longrightarrow> cmp a c \<le> 0"
    "cmp a b \<le> 0 \<Longrightarrow> cmp b c \<le> 0 \<Longrightarrow> cmp a c = 0 \<Longrightarrow> cmp a b = 0 \<and> cmp b c = 0"
proof -
  have sgn: "cmp x y < 0 \<longleftrightarrow> 0 < cmp y x" and trans: "cmp x y \<le> 0 \<Longrightarrow> cmp y z \<le> 0 \<Longrightarrow> cmp x z \<le> 0" for x y z
    using assms unfolding cmp_ok_def by blast+
  show "cmp a b < 0 \<longleftrightarrow> 0 < cmp b a" by (rule sgn)
  show "cmp a b = 0 \<longleftrightarrow> cmp b a = 0" using sgn [of a b] sgn [of b a] by linarith
  show "cmp a b \<le> 0 \<Longrightarrow> cmp b c \<le> 0 \<Longrightarrow> cmp a c \<le> 0" by (rule trans)
  assume "cmp a b \<le> 0" "cmp b c \<le> 0" "cmp a c = 0"
  moreover from this have "cmp c a \<le> 0" using sgn [of a c] sgn [of c a] by linarith
  ultimately have "cmp b a \<le> 0" "cmp c b \<le> 0" using trans by blast+
  then show "cmp a b = 0 \<and> cmp b c = 0"
    using sgn [of a b] sgn [of b a] sgn [of b c] sgn [of c b] \<open>cmp a b \<le> 0\<close> \<open>cmp b c \<le> 0\<close> by linarith
qed

lemma session_order_valid:
  assumes "cmp_ok cmp"
  shows "strict_weak (session_less cmp)"
  unfolding strict_weak_def
proof (intro conjI allI impI)
  fix a b assume "session_less cmp a b"
  then show "\<not> session_less cmp b a"
    using cmp_okD(1,2) [OF assms, of "ms_displayName a" "ms_displayName b"]
      cmp_okD(1) [OF assms, of "ms_displayName b" "ms_displayName a"]
    unfolding session_lt_iff Let_def by (cases "ms_type a") auto
next
  fix a b d assume ab: "\<not> session_less cmp a b" and bd: "\<not> session_less cmp b d"
  let ?p = "\<lambda>s. starts_with ''plasma'' (file_name (ms_path s))" and ?n = ms_displayName
  have up: "0 \<le> cmp x y \<longleftrightarrow> cmp y x \<le> 0" for x y
    using cmp_okD(1) [OF assms, of x y] by linarith
  show "\<not> session_less cmp a d"
  proof (cases "?p a = ?p b \<and> ?p b = ?p d")
    case True
    then have a: "cmp (?n b) (?n a) \<le> 0" "cmp (?n a) (?n b) = 0 \<longrightarrow> ms_type a = Wayland \<longrightarrow> ms_type b \<noteq> X11"
      and b: "cmp (?n d) (?n b) \<le> 0" "cmp (?n b) (?n d) = 0 \<longrightarrow> ms_type b = Wayland \<longrightarrow> ms_type d \<noteq> X11"
      using ab bd unfolding session_lt_iff Let_def by (auto simp: up [symmetric])
    have "0 \<le> cmp (?n a) (?n d)" using cmp_okD(3) [OF assms b(1) a(1)] up by simp
    moreover have "ms_type d \<noteq> X11" if "cmp (?n a) (?n d) = 0" "ms_type a = Wayland"
      using cmp_okD(4) [OF assms b(1) a(1)] cmp_okD(2) [OF assms] a(2) b(2) that model_session_type.exhaust by metis
    ultimately show ?thesis unfolding session_lt_iff Let_def by (auto simp: True)
  next
    case False
    with ab bd show ?thesis unfolding session_lt_iff Let_def by auto
  qed
qed

text \<open>The files of all directories in the order they are visited, and the first of each name.\<close>

definition visited :: "session_files \<Rightarrow> QString list \<Rightarrow> (QString \<times> QString) list" where
  "visited F dirs = concat (map (\<lambda>d. map (Pair d) (dir_entries F d)) dirs)"

fun firsts :: "(QString \<times> QString) list \<Rightarrow> (QString \<times> QString) list" where
  "firsts [] = []"
| "firsts ((d, n) # es) = (d, n) # filter (\<lambda>e. snd e \<noteq> n) (firsts es)"

lemma length_split_on: "length (split_on c s) = Suc (length (filter ((=) c) s))"
  by (induction s) (auto split: list.splits)

lemma last_split_on [simp]: "last (split_on c (xs @ c # ys)) = last (split_on c ys)"
proof (induction xs)
  case (Cons x xs)
  have "length (split_on c (xs @ c # ys)) \<noteq> 1" by (simp add: length_split_on)
  with Cons show ?case by (auto split: list.splits)
qed simp

lemma file_name_plain [simp]: "CHR ''/'' \<notin> set n \<Longrightarrow> file_name n = n"
  by (simp add: file_name_def)

lemma file_name_absolute [simp]: "CHR ''/'' \<notin> set n \<Longrightarrow> file_name (absoluteFilePath d n) = n"
  by (simp add: file_name_def absoluteFilePath_def)

lemma getSessionsPaths_visited:
  "getSessionsPaths F dirs = fold (\<lambda>e. add_session_path (fst e) (snd e)) (visited F dirs) []"
proof -
  have "fold (\<lambda>dir paths. fold (add_session_path dir) (dir_entries F dir) paths) dirs acc
    = fold (\<lambda>e. add_session_path (fst e) (snd e)) (visited F dirs) acc" for acc
    by (induction dirs arbitrary: acc) (simp_all add: visited_def fold_map comp_def)
  then show ?thesis by (simp add: getSessionsPaths_def)
qed

lemma add_paths_firsts:
  assumes "\<forall>e \<in> set es. CHR ''/'' \<notin> set (snd e)"
  shows "fold (\<lambda>e. add_session_path (fst e) (snd e)) es acc
    = acc @ map (\<lambda>e. absoluteFilePath (fst e) (snd e)) (filter (\<lambda>e. snd e \<notin> file_name ` set acc) (firsts es))"
  using assms
proof (induction es arbitrary: acc rule: firsts.induct)
  case (2 d n es)
  have n: "CHR ''/'' \<notin> set n" and es: "\<forall>e \<in> set es. CHR ''/'' \<notin> set (snd e)" using "2.prems" by auto
  show ?case
  proof (cases "n \<in> file_name ` set acc")
    case True
    then have "add_session_path d n acc = acc" using n by (auto simp: add_session_path_def list_ex_iff)
    moreover have "filter (\<lambda>e. snd e \<notin> file_name ` set acc) (filter (\<lambda>e. snd e \<noteq> n) (firsts es))
      = filter (\<lambda>e. snd e \<notin> file_name ` set acc) (firsts es)"
      using True by (auto simp: filter_filter intro: filter_cong)
    ultimately show ?thesis using True "2.IH" [OF es] by simp
  next
    case False
    then have "add_session_path d n acc = acc @ [absoluteFilePath d n]"
      using n by (auto simp: add_session_path_def list_ex_iff image_iff)
    with False n "2.IH" [OF es] show ?thesis by (simp add: filter_filter conj_commute)
  qed
qed simp

text \<open>Property C27: the session files are found once each.  The nested loops that skip names already seen give
  exactly the first file of every name in the order of the directories, so a session under
  \<open>/usr/local/share\<close> hides one of the same name under \<open>/usr/share\<close>.\<close>

theorem getSessionsPaths_first_of_name:
  assumes "\<forall>dir \<in> set dirs. \<forall>n \<in> set (dir_entries F dir). CHR ''/'' \<notin> set n"
  shows "getSessionsPaths F dirs = map (\<lambda>e. absoluteFilePath (fst e) (snd e)) (firsts (visited F dirs))"
proof -
  have "\<forall>e \<in> set (visited F dirs). CHR ''/'' \<notin> set (snd e)" using assms by (auto simp: visited_def)
  then show ?thesis by (simp add: getSessionsPaths_visited add_paths_firsts)
qed

definition sample_files :: session_files where
  "sample_files =
     \<lparr>dir_entries = (\<lambda>d. if d = ''/l'' then [''b.desktop''] else if d = ''/s'' then [''a.desktop'', ''b.desktop''] else []),
      read_name = (\<lambda>p. ''Shell''), read_comment = (\<lambda>p. [])\<rparr>"

lemma getSessionsPaths_first_of_name_witness:
  "getSessionsPaths sample_files [''/l'', ''/s''] = [''/l/b.desktop'', ''/s/a.desktop'']"
  by (subst getSessionsPaths_first_of_name) (simp_all add: sample_files_def visited_def absoluteFilePath_def)

text \<open>The list of sessions is complete and ordered.  Its comparison is a strict weak order, as
  \<open>std::sort\<close> requires; the list holds every session found, as often as it was found, and no session comes
  after one that should be shown later: Plasma sessions are at the top, then the order is by name, and of two
  sessions of one name the Wayland one is first.\<close>

theorem sessions_listed_in_order:
  assumes "std_sort srt" "cmp_ok cmp"
  shows "strict_weak (session_less cmp)
    \<and> mset (sm_populate srt cmp F xs ws)
       = mset (map (\<lambda>p. getSession F p X11) (getSessionsPaths F xs)) + mset (map (\<lambda>p. getSession F p Wayland) (getSessionsPaths F ws))
    \<and> (\<forall>i j. i < j \<and> j < length (sm_populate srt cmp F xs ws) \<longrightarrow>
         \<not> session_less cmp (sm_populate srt cmp F xs ws ! j) (sm_populate srt cmp F xs ws ! i))"
  using std_sort.perm [OF assms(1) session_order_valid [OF assms(2)]] session_order_valid [OF assms(2)]
    std_sort.sort_not_after [OF assms(1) session_order_valid [OF assms(2)]]
    std_sort.sort_length [OF assms(1) session_order_valid [OF assms(2)]]
  by (simp add: sm_populate_def del: mset_map)

lemma sessions_listed_in_order_witness:
  "strict_weak (session_less str_cmp)
    \<and> mset (sm_populate sort_by str_cmp sample_files [] [''/l''])
      = {# \<lparr>ms_type = Wayland, ms_path = ''/l/b.desktop'', ms_displayName = ''Shell'', ms_comment = []\<rparr> #}"
  using sessions_listed_in_order [OF sb.std_sort_axioms str_cmp_ok, of sample_files "[]" "[''/l'']"]
  by (simp add: getSessionsPaths_visited visited_def sample_files_def add_session_path_def file_name_def
      absoluteFilePath_def getSession_def)

section \<open>Telling sessions apart\<close>

text \<open>The counter stops at the first session of the same text, so it says only on which side that one lies.\<close>

lemma append_index_find:
  "append_index s k ms = (case List.find (same_text s) ms of
     None \<Rightarrow> (False, k)
   | Some other \<Rightarrow> (True, if str_less (ms_path other) (ms_path s) then k + 1 else k))"
  by (induction s k ms rule: append_index.induct) (simp_all add: Let_def)

lemma append_index_cases:
  "append_index s 1 ms = (list_ex (same_text s) ms, snd (append_index s 1 ms)) \<and> snd (append_index s 1 ms) \<in> {1, 2}"
proof (cases "List.find (same_text s) ms")
  case None
  then have "\<not> list_ex (same_text s) ms" by (simp add: find_None_iff list_ex_iff)
  with None show ?thesis by (simp add: append_index_find)
next
  case (Some x)
  then have "list_ex (same_text s) ms" by (auto simp: find_Some_iff list_ex_iff intro: nth_mem)
  with Some show ?thesis by (simp add: append_index_find)
qed

lemma str_less_total: "a \<noteq> b \<Longrightarrow> str_less a b \<longleftrightarrow> \<not> str_less b a"
proof -
  have z: "units_cmp xs ys = 0 \<Longrightarrow> xs = ys" for xs ys
    by (induction xs ys rule: units_cmp.induct) (simp_all split: if_splits)
  assume "a \<noteq> b"
  then have "units_cmp (map of_char a) (map of_char b) \<noteq> 0"
    using z [of "map of_char a" "map of_char b"] by (auto simp: inj_map_eq_map [OF inj_of_char])
  then show ?thesis
    using units_cmp_antisym [of "map of_char a" "map of_char b"] units_cmp_antisym [of "map of_char b" "map of_char a"]
    unfolding str_less_def str_cmp_def by linarith
qed

lemma getDisplay_eqD:
  assumes "getDisplay ms s = getDisplay ms t"
  shows "ms_displayName s = ms_displayName t" "shouldAppendType ms s = shouldAppendType ms t"
    "shouldAppendType ms s \<Longrightarrow> ms_type s = ms_type t"
    "list_ex (same_text s) ms = list_ex (same_text t) ms"
    "list_ex (same_text s) ms \<Longrightarrow> snd (append_index s 1 ms) = snd (append_index t 1 ms)"
  using assms append_index_cases [of s ms] append_index_cases [of t ms]
  by (auto simp: getDisplay_def Let_def split: if_splits prod.splits)

text \<open>Up to two sessions of one name and type are told apart.  When no three sessions share
  their name and their type, different sessions are shown with different texts (before
  translation): the type is appended where the types differ, the index where they do not.\<close>

theorem display_texts_distinct:
  assumes "distinct (map ms_path ms)" "s \<in> set ms" "t \<in> set ms" "ms_path s \<noteq> ms_path t"
    and "\<forall>x \<in> set ms. \<forall>y \<in> set ms. \<forall>z \<in> set ms. same_text x y \<and> same_text x z \<longrightarrow> ms_path y = ms_path z"
  shows "getDisplay ms s \<noteq> getDisplay ms t"
proof
  assume eq: "getDisplay ms s = getDisplay ms t"
  note d = getDisplay_eqD [OF eq]
  show False
  proof (cases "ms_type s = ms_type t")
    case False
    then have "shouldAppendType ms s" using d(1) assms(3,4) by (auto simp: shouldAppendType_def list_ex_iff)
    with False d(3) show False by simp
  next
    case True
    have st: "same_text s t" "same_text t s" using True d(1) assms(4) by (auto simp: same_text_def)
    have uniq: "x = y" if "x \<in> set ms" "y \<in> set ms" "ms_path x = ms_path y" for x y
      using assms(1) that by (auto simp: distinct_map inj_on_def)
    have find: "List.find (same_text x) ms = Some y" if "same_text x y" "x \<in> set ms" "y \<in> set ms" for x y
    proof (cases "List.find (same_text x) ms")
      case None
      with that show ?thesis by (auto simp: find_None_iff)
    next
      case (Some z)
      then have "z \<in> set ms" "same_text x z" by (auto simp: find_Some_iff)
      with that assms(5) uniq have "z = y" by blast
      with Some show ?thesis by simp
    qed
    have ex: "list_ex (same_text s) ms" using st(1) assms(3) by (auto simp: list_ex_iff)
    have "List.find (same_text s) ms = Some t" "List.find (same_text t) ms = Some s"
      using st assms(2,3) by (auto intro: find)
    then have "str_less (ms_path t) (ms_path s) \<longleftrightarrow> str_less (ms_path s) (ms_path t)"
      using d(5) [OF ex] by (simp add: append_index_find split: if_splits)
    with str_less_total [OF assms(4)] show False by simp
  qed
qed

text \<open>Three sessions of one name and type are not told apart.  The index is never above 2, because
  \<open>any_of\<close> stops counting at the first match, so of three such sessions two are shown with the same text.\<close>

theorem third_session_ambiguous:
  assumes "distinct (map ms_path ms)" "{s, t, u} \<subseteq> set ms" "same_text s t" "same_text t u" "same_text s u"
  shows "getDisplay ms s = getDisplay ms t \<or> getDisplay ms t = getDisplay ms u \<or> getDisplay ms s = getDisplay ms u"
proof -
  have type: "shouldAppendType ms x = shouldAppendType ms y" if "same_text x y" "x \<in> set ms" "y \<in> set ms" for x y
  proof -
    have "o' = y" if "o' \<in> set ms" "ms_path o' = ms_path y" for o'
      using assms(1) that \<open>y \<in> set ms\<close> by (auto simp: distinct_map inj_on_def)
    moreover have "o' = x" if "o' \<in> set ms" "ms_path o' = ms_path x" for o'
      using assms(1) that \<open>x \<in> set ms\<close> by (auto simp: distinct_map inj_on_def)
    ultimately show ?thesis using that(1) unfolding shouldAppendType_def list_ex_iff same_text_def by metis
  qed
  have index: "list_ex (same_text x) ms" if "same_text x y" "y \<in> set ms" for x y
    using that by (auto simp: list_ex_iff)
  let ?i = "\<lambda>x. snd (append_index x 1 ms)"
  have same: "getDisplay ms x = getDisplay ms y" if "same_text x y" "x \<in> set ms" "y \<in> set ms" "?i x = ?i y" for x y
    using append_index_cases [of x ms] append_index_cases [of y ms] type [OF that(1-3)] index [OF that(1,3)]
      index [of y x] that by (auto simp: getDisplay_def Let_def same_text_def split: prod.splits)
  have "?i s = ?i t \<or> ?i t = ?i u \<or> ?i s = ?i u"
    using append_index_cases [of s ms] append_index_cases [of t ms] append_index_cases [of u ms] by auto
  then show ?thesis using same assms(2-5) by auto
qed

definition shell_session :: "QString \<Rightarrow> model_session" where
  "shell_session p = \<lparr>ms_type = Wayland, ms_path = p, ms_displayName = ''Shell'', ms_comment = []\<rparr>"

lemma display_texts_distinct_witness:
  "getDisplay [shell_session ''/a'', shell_session ''/b''] (shell_session ''/a'')
    \<noteq> getDisplay [shell_session ''/a'', shell_session ''/b''] (shell_session ''/b'')"
  by (rule display_texts_distinct) (auto simp: shell_session_def same_text_def)

lemma third_session_ambiguous_witness:
  "let ms = [shell_session ''/a'', shell_session ''/b'', shell_session ''/c''] in
    getDisplay ms (shell_session ''/a'') = getDisplay ms (shell_session ''/b'')
    \<or> getDisplay ms (shell_session ''/b'') = getDisplay ms (shell_session ''/c'')
    \<or> getDisplay ms (shell_session ''/a'') = getDisplay ms (shell_session ''/c'')"
  unfolding Let_def by (rule third_session_ambiguous) (auto simp: shell_session_def same_text_def)

section \<open>Searching a row\<close>

lemma first_row_found:
  "first_row f v n i = j \<Longrightarrow> j \<noteq> -1 \<Longrightarrow> 0 \<le> i \<Longrightarrow> i \<le> j \<and> j < i + int n \<and> f j = v \<and> (\<forall>k. i \<le> k \<and> k < j \<longrightarrow> f k \<noteq> v)"
proof (induction f v n i rule: first_row.induct)
  case (2 f v n i)
  show ?case
  proof (cases "f i = v")
    case True
    with 2 show ?thesis by auto
  next
    case False
    with 2 have "i + 1 \<le> j \<and> j < i + 1 + int n \<and> f j = v \<and> (\<forall>k. i + 1 \<le> k \<and> k < j \<longrightarrow> f k \<noteq> v)" by simp
    moreover have "f k \<noteq> v" if "i \<le> k" "k < j" for k
      using False that calculation by (cases "k = i") auto
    ultimately show ?thesis by auto
  qed
qed simp

lemma first_row_none: "first_row f v n i = -1 \<Longrightarrow> 0 \<le> i \<Longrightarrow> i \<le> k \<Longrightarrow> k < i + int n \<Longrightarrow> f k \<noteq> v"
proof (induction f v n i rule: first_row.induct)
  case (2 f v n i)
  then show ?case by (cases "k = i") (auto split: if_splits)
qed simp

lemma first_row_nonneg: "0 \<le> i \<Longrightarrow> first_row f v n i = -1 \<or> 0 \<le> first_row f v n i"
  using first_row_found [of f v n i] by force

end
