(* ===== verification/Login_Settings.thy ===== *)
theory Login_Settings
  imports Session_Model
begin

text \<open>
  The settings of the login screen (\<open>src/frontend/settings/plasmaloginsettings.cpp\<close>,
  \<open>plasmaloginsettingsdefaults.cpp\<close>, \<open>wallpapersettings.cpp\<close>): the range of user ids, the wallpaper
  plugins on offer, the defaults of the system, and the configuration of the current wallpaper.

  A KConfig file is what it gives for a group and a key.  The file \<open>login.defs\<close> is its lines, or
  \<open>None\<close> when it cannot be opened.
\<close>

section \<open>The range of user ids\<close>

record uid_range =
  m_minimumUid :: quint32
  m_maximumUid :: quint32

text \<open>\<open>QString::simplified\<close> and \<open>split(' ', SkipEmptyParts)\<close>: the words of a line.\<close>

fun words_of :: "string \<Rightarrow> string list" where
  "words_of [] = []"
| "words_of (x # xs) =
     (if is_space x then words_of xs
      else case xs of
             [] \<Rightarrow> [[x]]
           | y # ys \<Rightarrow> if is_space y then [x] # words_of xs
                      else (case words_of xs of [] \<Rightarrow> [[x]] | w # ws \<Rightarrow> (x # w) # ws))"

text \<open>\<open>toUInt\<close>: \<open>None\<close> stands for \<open>ok = false\<close>.\<close>

definition to_uint :: "string \<Rightarrow> quint32 option" where
  "to_uint s = (case parse_int s of
       None \<Rightarrow> None
     | Some i \<Rightarrow> if 0 \<le> i \<and> i < 2 ^ 32 \<and> hd (trimmed s) \<noteq> CHR ''-'' then Some (word_of_int i) else None)"

definition login_defs_line :: "string \<Rightarrow> uid_range \<Rightarrow> uid_range" where
  "login_defs_line line r =
     (let lineParts = words_of (hd (split_on CHR ''#'' line)) in
      if length lineParts \<noteq> 2 \<or> lineParts ! 0 \<notin> {''UID_MIN'', ''UID_MAX''} then r
      else case to_uint (lineParts ! 1) of
             None \<Rightarrow> r
           | Some value \<Rightarrow> if lineParts ! 0 = ''UID_MIN'' then r\<lparr>m_minimumUid := value\<rparr> else r\<lparr>m_maximumUid := value\<rparr>)"

definition getUids :: "string list option \<Rightarrow> uid_range" where
  "getUids loginDefs =
     (let r = \<lparr>m_minimumUid = 0, m_maximumUid = - 1\<rparr> in
      case loginDefs of None \<Rightarrow> r | Some lines \<Rightarrow> fold login_defs_line lines r)"

lemma words_of_spaces: "\<forall>c \<in> set s. is_space c \<Longrightarrow> words_of (s @ t) = words_of t"
  by (induction s) auto

lemma words_of_word:
  assumes "w \<noteq> []" "\<forall>c \<in> set w. \<not> is_space c" "t = [] \<or> is_space (hd t)"
  shows "words_of (w @ t) = w # words_of t"
  using assms
proof (induction w)
  case (Cons x w)
  show ?case
  proof (cases w)
    case Nil
    with Cons.prems show ?thesis by (cases t) auto
  next
    case (Cons y v)
    with Cons.IH Cons.prems show ?thesis by simp
  qed
qed simp

lemma hd_split_on [simp]: "c \<notin> set s \<Longrightarrow> hd (split_on c (s @ c # t)) = s"
  by simp

lemma to_uint_number:
  assumes "0 \<le> i" "i < 2 ^ 32"
  shows "to_uint (number i) = Some (word_of_int i)"
proof -
  have "trimmed (number i) = number i" using assms by (simp add: number_def trimmed_digits)
  moreover have "hd (number i) \<noteq> CHR ''-''" using digits_of_head [of "nat i"] assms by (auto simp: number_def)
  ultimately show ?thesis using assms by (simp add: to_uint_def parse_int_number)
qed

lemma number_chars: "0 \<le> i \<Longrightarrow> c \<in> set (number i) \<Longrightarrow> \<not> is_space c \<and> c \<noteq> CHR ''#''"
  using digits_of_set [of c "nat i"] by (auto simp: number_def is_space_def)

text \<open>Property C32: a limit written in \<open>login.defs\<close> is the one used.  A line with the key, white space and a
  number in range sets the limit to that number, with any white space around it and any comment behind it; the other
  limit keeps its value.\<close>

theorem login_defs_limit_read:
  assumes "0 \<le> n" "n < 2 ^ 32" "ws \<noteq> []" "\<forall>c \<in> set (pre @ ws @ post). is_space c"
    and "comment = [] \<or> hd comment = CHR ''#''"
  shows "login_defs_line (pre @ ''UID_MIN'' @ ws @ number n @ post @ comment) r = r\<lparr>m_minimumUid := word_of_int n\<rparr>
    \<and> login_defs_line (pre @ ''UID_MAX'' @ ws @ number n @ post @ comment) r = r\<lparr>m_maximumUid := word_of_int n\<rparr>"
proof -
  have line: "login_defs_line (pre @ key @ ws @ number n @ post @ comment) r
      = (if key = ''UID_MIN'' then r\<lparr>m_minimumUid := word_of_int n\<rparr> else r\<lparr>m_maximumUid := word_of_int n\<rparr>)"
    if key: "key = ''UID_MIN'' \<or> key = ''UID_MAX''" for key
  proof -
    let ?s = "pre @ key @ ws @ number n @ post"
    have kc: "key \<noteq> []" "\<forall>c \<in> set key. \<not> is_space c \<and> c \<noteq> CHR ''#''"
      using key by (auto simp: is_space_def)
    have sp: "c \<noteq> CHR ''#''" if "is_space c" for c using that by (auto simp: is_space_def)
    have "CHR ''#'' \<notin> set ?s" using assms(4) kc(2) number_chars [OF assms(1)] sp by auto
    then have hd: "hd (split_on CHR ''#'' (?s @ comment)) = ?s"
      using assms(5) hd_split_on [of "CHR ''#''" ?s] by (cases comment) (simp_all del: append_assoc)
    have n0: "number n \<noteq> []" using assms(1) by (simp add: number_def)
    have "words_of (number n @ post) = [number n]"
      using assms(4) n0 number_chars [OF assms(1)] words_of_spaces [of post "[]"]
      by (subst words_of_word) (cases post; auto)+
    moreover have "words_of (key @ ws @ number n @ post) = key # words_of (ws @ number n @ post)"
      using assms(3,4) kc by (subst words_of_word) (cases ws; auto)+
    moreover have "words_of (ws @ number n @ post) = words_of (number n @ post)" "words_of ?s = words_of (key @ ws @ number n @ post)"
      using assms(4) by (simp_all add: words_of_spaces)
    ultimately have "words_of ?s = [key, number n]" by simp
    with hd key to_uint_number [OF assms(1,2)] show ?thesis
      by (auto simp: login_defs_line_def Let_def)
  qed
  from line [of "''UID_MIN''"] line [of "''UID_MAX''"] show ?thesis by simp
qed

lemma login_defs_limit_read_witness:
  "getUids (Some [''UID_MIN'' @ '' '' @ number 500 @ [] @ ''# first'']) = \<lparr>m_minimumUid = 500, m_maximumUid = - 1\<rparr>"
  using login_defs_limit_read [of 500 "'' ''" "[]" "[]" "''# first''" "\<lparr>m_minimumUid = 0, m_maximumUid = - 1\<rparr>"]
  by (simp add: getUids_def is_space_def)

section \<open>Wallpaper plugins\<close>

record WallpaperInfo =
  wi_name :: QString
  wi_id :: QString

definition allowedPlugins :: "QString list" where
  "allowedPlugins =
     [''org.kde.color'', ''org.kde.image'', ''org.kde.tiled'', ''org.kde.haenau'', ''org.kde.potd'',
      ''org.kde.hunyango'', ''online.knowmad.shaderwallpaper'']"

definition getWallpaperPlugins ::
  "((WallpaperInfo \<Rightarrow> WallpaperInfo \<Rightarrow> bool) \<Rightarrow> WallpaperInfo list \<Rightarrow> WallpaperInfo list) \<Rightarrow> WallpaperInfo list
    \<Rightarrow> WallpaperInfo list" where
  "getWallpaperPlugins srt packages =
     srt (\<lambda>w1 w2. str_less (wi_name w1) (wi_name w2)) (filter (\<lambda>p. wi_id p \<in> set allowedPlugins) packages)"

text \<open>A comparison by keys of a three-way comparison can be sorted by.\<close>

lemma cmp_key_strict_weak: "cmp_ok cmp \<Longrightarrow> strict_weak (\<lambda>x y. cmp (f x) (f y) < 0)"
  unfolding strict_weak_def cmp_ok_def by (meson leD leI order_less_imp_le)

lemma getWallpaperPlugins_sorted:
  assumes "std_sort srt"
  shows "mset (getWallpaperPlugins srt packages) = mset (filter (\<lambda>p. wi_id p \<in> set allowedPlugins) packages)"
    "sorted_wrt (\<lambda>v w. \<not> str_less (wi_name w) (wi_name v)) (getWallpaperPlugins srt packages)"
  using std_sort.perm [OF assms cmp_key_strict_weak [OF str_cmp_ok]] std_sort.ordered [OF assms cmp_key_strict_weak [OF str_cmp_ok]]
  by (simp_all add: getWallpaperPlugins_def str_less_def)

section \<open>Where the configuration comes from\<close>

text \<open>
  \<open>open_dir\<close> gives the absolute paths of the files of a directory, in the locale's order, or \<open>None\<close> when it
  does not exist.  The result is the arguments of \<open>addConfigSources\<close>, call by call.
\<close>

definition addDirectoryToConfig :: "(QString \<Rightarrow> QString list option) \<Rightarrow> QString \<Rightarrow> QString list list" where
  "addDirectoryToConfig open_dir dir = (case open_dir dir of None \<Rightarrow> [] | Some files \<Rightarrow> [files])"

record config_paths =
  PLASMALOGIN_CONFIG_DIR :: QString
  PLASMALOGIN_SYSTEM_CONFIG_FILE :: QString
  PLASMALOGIN_SYSTEM_CONFIG_DIR :: QString

definition config_sources :: "config_paths \<Rightarrow> (QString \<Rightarrow> QString list option) \<Rightarrow> QString list list" where
  "config_sources P open_dir =
     addDirectoryToConfig open_dir (PLASMALOGIN_CONFIG_DIR P) @ [[PLASMALOGIN_SYSTEM_CONFIG_FILE P]]
     @ addDirectoryToConfig open_dir (PLASMALOGIN_SYSTEM_CONFIG_DIR P)"

section \<open>Defaults of the system\<close>

text \<open>\<open>readEntry\<close> with a default; how KConfig reads a boolean is a parameter.\<close>

type_synonym kconfig = "QString \<Rightarrow> QString \<Rightarrow> QString option"

definition readEntry :: "kconfig \<Rightarrow> QString \<Rightarrow> QString \<Rightarrow> QString \<Rightarrow> QString" where
  "readEntry cfg grp key dflt = (case cfg grp key of None \<Rightarrow> dflt | Some v \<Rightarrow> v)"

definition readBool :: "(QString \<Rightarrow> bool) \<Rightarrow> kconfig \<Rightarrow> QString \<Rightarrow> QString \<Rightarrow> bool \<Rightarrow> bool" where
  "readBool as_bool cfg grp key dflt = (case cfg grp key of None \<Rightarrow> dflt | Some v \<Rightarrow> as_bool v)"

record setting_defaults =
  s_defaultUser :: QString
  s_defaultSession :: QString
  s_defaultRelogin :: bool
  s_defaultPreselectedUser :: QString
  s_defaultPreselectedSession :: QString
  s_defaultShowClock :: bool
  s_defaultWallpaperPluginId :: QString

definition read_defaults :: "(QString \<Rightarrow> bool) \<Rightarrow> kconfig \<Rightarrow> setting_defaults" where
  "read_defaults as_bool cfg =
     \<lparr>s_defaultUser = readEntry cfg ''AutoLogin'' ''User'' [],
      s_defaultSession = readEntry cfg ''AutoLogin'' ''Session'' [],
      s_defaultRelogin = readBool as_bool cfg ''AutoLogin'' ''Relogin'' False,
      s_defaultPreselectedUser = readEntry cfg ''Greeter'' ''PreselectedUser'' [],
      s_defaultPreselectedSession = readEntry cfg ''Greeter'' ''PreselectedSession'' [],
      s_defaultShowClock = readBool as_bool cfg ''Greeter'' ''ShowClock'' True,
      s_defaultWallpaperPluginId = readEntry cfg ''Greeter'' ''WallpaperPluginId'' ''org.kde.image''\<rparr>"

text \<open>The group the settings themselves and the daemon use (\<open>plasmaloginsettingsbase.kcfg\<close>, \<open>mainconfig.kcfg\<close>).\<close>

definition autologin_group :: QString where
  "autologin_group = ''Autologin''"

text \<open>The system's defaults for the automatic login are never found.  The settings and the daemon keep
  them in the group \<open>Autologin\<close>, and the defaults are read from \<open>AutoLogin\<close>: whatever a system file says in the
  first group, with nothing in the second, the defaults are no user, no session and no login again.\<close>

theorem autologin_defaults_not_found:
  assumes "\<forall>key. cfg ''AutoLogin'' key = None"
  shows "s_defaultUser (read_defaults as_bool (cfg(autologin_group := entries))) = []
    \<and> s_defaultSession (read_defaults as_bool (cfg(autologin_group := entries))) = []
    \<and> \<not> s_defaultRelogin (read_defaults as_bool (cfg(autologin_group := entries)))"
  using assms by (simp add: read_defaults_def readEntry_def readBool_def autologin_group_def)

lemma autologin_defaults_not_found_witness:
  "s_defaultUser (read_defaults (\<lambda>v. v = ''true'')
     ((\<lambda>g. Map.empty)(autologin_group := [''User'' \<mapsto> ''joe'', ''Session'' \<mapsto> ''plasma'']))) = []"
  using autologin_defaults_not_found [of "\<lambda>g. Map.empty" "\<lambda>v. v = ''true''" "[''User'' \<mapsto> ''joe'', ''Session'' \<mapsto> ''plasma'']"]
  by simp

section \<open>The wallpaper's configuration\<close>

text \<open>
  The object for a wallpaper plugin is known by a number and the plugin it was made for; its skeleton
  (\<open>KConfigLoader\<close>) is part of it.  What the skeleton says of itself is a parameter.  The results are the calls made on the
  skeleton and the signals, in order.
\<close>

record WallpaperSettings =
  m_wallpaperIntegration :: "(nat \<times> QString) option"
  m_wallpaperSettings :: "nat option"
  ws_next :: nat

datatype wallpaper_effect = DeleteIntegration nat | CurrentWallpaperChanged | SkeletonLoad nat | SkeletonSave nat
  | SkeletonSetDefaults nat | ConfigChanged nat

definition loadWallpaperConfig :: "QString \<Rightarrow> WallpaperSettings \<Rightarrow> WallpaperSettings \<times> wallpaper_effect list" where
  "loadWallpaperConfig pluginId w =
     (let fresh = w\<lparr>m_wallpaperIntegration := Some (ws_next w, pluginId), m_wallpaperSettings := Some (ws_next w),
            ws_next := ws_next w + 1\<rparr>
      in case m_wallpaperIntegration w of
           None \<Rightarrow> (fresh, [CurrentWallpaperChanged])
         | Some (i, name) \<Rightarrow> if name = pluginId then (w, []) else (fresh, [DeleteIntegration i, CurrentWallpaperChanged]))"

definition wallpaper_load :: "QString \<Rightarrow> WallpaperSettings \<Rightarrow> WallpaperSettings \<times> wallpaper_effect list" where
  "wallpaper_load pluginId w =
     (let (w1, out) = loadWallpaperConfig pluginId w in
      case m_wallpaperSettings w1 of None \<Rightarrow> (w1, out) | Some i \<Rightarrow> (w1, out @ [SkeletonLoad i, ConfigChanged i]))"

definition wallpaper_save :: "WallpaperSettings \<Rightarrow> wallpaper_effect list" where
  "wallpaper_save w = (case m_wallpaperSettings w of None \<Rightarrow> [] | Some i \<Rightarrow> [SkeletonSave i])"

definition wallpaper_defaults :: "WallpaperSettings \<Rightarrow> wallpaper_effect list" where
  "wallpaper_defaults w = (case m_wallpaperSettings w of None \<Rightarrow> [] | Some i \<Rightarrow> [SkeletonSetDefaults i, ConfigChanged i])"

definition wallpaper_isDefaults :: "(nat \<Rightarrow> bool) \<Rightarrow> WallpaperSettings \<Rightarrow> bool" where
  "wallpaper_isDefaults skeleton_isDefaults w =
     (case m_wallpaperSettings w of None \<Rightarrow> True | Some i \<Rightarrow> skeleton_isDefaults i)"

definition wallpaper_isSaveNeeded :: "(nat \<Rightarrow> bool) \<Rightarrow> WallpaperSettings \<Rightarrow> bool" where
  "wallpaper_isSaveNeeded skeleton_isSaveNeeded w =
     (case m_wallpaperSettings w of None \<Rightarrow> False | Some i \<Rightarrow> skeleton_isSaveNeeded i)"

text \<open>The skeleton is always the one of the live integration object, so a deleted one is never called.\<close>

definition wallpaper_ok :: "WallpaperSettings \<Rightarrow> bool" where
  "wallpaper_ok w \<longleftrightarrow> m_wallpaperSettings w = map_option fst (m_wallpaperIntegration w)"

lemma wallpaper_ok_load: "wallpaper_ok w \<Longrightarrow> wallpaper_ok (fst (wallpaper_load pluginId w))"
  by (auto simp: wallpaper_ok_def wallpaper_load_def loadWallpaperConfig_def Let_def split: option.splits)

lemma wallpaper_load_current:
  "m_wallpaperIntegration (fst (wallpaper_load pluginId w)) = Some (i, name) \<Longrightarrow> name = pluginId"
  by (auto simp: wallpaper_load_def loadWallpaperConfig_def Let_def split: option.splits prod.splits if_splits)

lemma wallpaper_load_again:
  "wallpaper_ok w \<Longrightarrow> fst (wallpaper_load p (fst (wallpaper_load p w))) = fst (wallpaper_load p w)
    \<and> (\<forall>i. DeleteIntegration i \<notin> set (snd (wallpaper_load p (fst (wallpaper_load p w)))))"
  by (auto simp: wallpaper_ok_def wallpaper_load_def loadWallpaperConfig_def Let_def split: option.splits prod.splits if_splits)

end
