(* ===== verification/User_Model.thy ===== *)
theory User_Model
  imports Login_Settings
begin

text \<open>
  The list of users the greeter offers (\<open>src/frontend/settings/models/usermodel.cpp\<close>).  The users of the
  system (\<open>KUser::allUsers\<close>) and the password database (\<open>getpwuid\<close>, which gives the password field of an
  entry) are parameters; the range of ids is that of the settings.
\<close>

record kuser =
  ku_valid :: bool
  ku_uid :: quint32
  ku_gid :: quint32
  ku_shell :: QString
  ku_loginName :: QString
  ku_fullName :: QString
  ku_homeDir :: QString
  ku_faceIconPath :: QString

text \<open>The constructor takes the ids as \<open>int\<close>.\<close>

record User =
  u_name :: QString
  u_realName :: QString
  u_icon :: QString
  u_homeDir :: QString
  u_needsPassword :: bool
  u_uid :: int
  u_gid :: int

definition cannotLogin :: "kuser \<Rightarrow> bool" where
  "cannotLogin user \<longleftrightarrow> ends_with ''/nologin'' (ku_shell user) \<or> ends_with ''/false'' (ku_shell user)"

definition inLogindDefRange :: "uid_range \<Rightarrow> quint32 \<Rightarrow> bool" where
  "inLogindDefRange r uid \<longleftrightarrow> m_minimumUid r \<le> uid \<and> uid \<le> m_maximumUid r"

definition inHomedRange :: "quint32 \<Rightarrow> bool" where
  "inHomedRange uid \<longleftrightarrow> 60001 \<le> uid \<and> uid \<le> 60513"

definition user_icon :: "QString \<Rightarrow> QString" where
  "user_icon icon = (if icon = [] then ''qrc:/qt/qml/org/kde/plasma/login/.face.icon'' else ''file://'' @ icon)"

text \<open>One turn of the loop: the user appended to the list, or the list as it was.\<close>

definition add_user :: "uid_range \<Rightarrow> (quint32 \<Rightarrow> string option) \<Rightarrow> kuser \<Rightarrow> User list \<Rightarrow> User list" where
  "add_user r getpwuid user m_users =
     (if \<not> ku_valid user then m_users
      else if cannotLogin user \<or> (\<not> inLogindDefRange r (ku_uid user) \<and> \<not> inHomedRange (ku_uid user)) then m_users
      else case getpwuid (ku_uid user) of
             None \<Rightarrow> m_users
           | Some pw_passwd \<Rightarrow>
               m_users @ [\<lparr>u_name = ku_loginName user, u_realName = ku_fullName user, u_icon = user_icon (ku_faceIconPath user),
                  u_homeDir = ku_homeDir user, u_needsPassword = (pw_passwd \<noteq> []),
                  u_uid = sint (ku_uid user), u_gid = sint (ku_gid user)\<rparr>])"

definition um_populate :: "uid_range \<Rightarrow> (quint32 \<Rightarrow> string option) \<Rightarrow> kuser list \<Rightarrow> User list" where
  "um_populate r getpwuid allUsers = fold (add_user r getpwuid) allUsers []"

datatype user_role = DisplayRole | NameRole | RealNameRole | IconRole | HomeDirRole | NeedsPasswordRole | UidRole | GidRole
  | OtherRole

definition user_data :: "User list \<Rightarrow> int \<Rightarrow> user_role \<Rightarrow> variant" where
  "user_data m_users row role =
     (if row < 0 \<or> int (length m_users) \<le> row then VNull
      else let user = m_users ! nat row in
        case role of
          DisplayRole \<Rightarrow> VStr (if u_realName user = [] then u_name user else u_realName user)
        | NameRole \<Rightarrow> VStr (u_name user)
        | RealNameRole \<Rightarrow> VStr (u_realName user)
        | IconRole \<Rightarrow> VStr (u_icon user)
        | HomeDirRole \<Rightarrow> VStr (u_homeDir user)
        | NeedsPasswordRole \<Rightarrow> VBool (u_needsPassword user)
        | UidRole \<Rightarrow> VInt (u_uid user)
        | GidRole \<Rightarrow> VInt (u_gid user)
        | OtherRole \<Rightarrow> VNull)"

definition user_rowCount :: "bool \<Rightarrow> User list \<Rightarrow> int" where
  "user_rowCount parent_valid m_users = (if parent_valid then 0 else int (length m_users))"

definition user_indexOfData :: "User list \<Rightarrow> variant \<Rightarrow> user_role \<Rightarrow> int" where
  "user_indexOfData m_users v role =
     (if v = VNull \<or> v_toString v = [] then -1
      else first_row (\<lambda>i. user_data m_users i role) v (length m_users) 0)"

section \<open>Who is listed\<close>

text \<open>What the loop is meant to compute: those who can log in, in the system's order.\<close>

definition can_log_in :: "uid_range \<Rightarrow> (quint32 \<Rightarrow> string option) \<Rightarrow> kuser \<Rightarrow> bool" where
  "can_log_in r getpwuid user \<longleftrightarrow> ku_valid user \<and> getpwuid (ku_uid user) \<noteq> None
     \<and> \<not> ends_with ''/nologin'' (ku_shell user) \<and> \<not> ends_with ''/false'' (ku_shell user)
     \<and> (ku_uid user \<in> {m_minimumUid r..m_maximumUid r} \<or> ku_uid user \<in> {60001..60513})"

definition listed_user :: "(quint32 \<Rightarrow> string option) \<Rightarrow> kuser \<Rightarrow> User" where
  "listed_user getpwuid user =
     \<lparr>u_name = ku_loginName user, u_realName = ku_fullName user, u_icon = user_icon (ku_faceIconPath user),
      u_homeDir = ku_homeDir user, u_needsPassword = (getpwuid (ku_uid user) \<noteq> Some []),
      u_uid = sint (ku_uid user), u_gid = sint (ku_gid user)\<rparr>"

lemma add_user_ref:
  "add_user r getpwuid user us = (if can_log_in r getpwuid user then us @ [listed_user getpwuid user] else us)"
  by (auto simp: add_user_def can_log_in_def cannotLogin_def inLogindDefRange_def inHomedRange_def listed_user_def
      split: option.splits)

lemma populate_ref:
  "fold (add_user r getpwuid) users us = us @ map (listed_user getpwuid) (filter (can_log_in r getpwuid) users)"
  by (induction users arbitrary: us) (simp_all add: add_user_ref)

text \<open>Property C28: the greeter lists exactly the users who can log in.  The loop with its early exits gives, in the
  system's order, the valid users whose shell does not refuse logins, whose id is in the range of \<open>login.defs\<close> or in
  systemd-homed's, and who are in the password database.\<close>

theorem users_who_can_log_in:
  "um_populate r getpwuid allUsers = map (listed_user getpwuid) (filter (can_log_in r getpwuid) allUsers)"
  by (simp add: um_populate_def populate_ref)

lemma user_data_in:
  "nat i < length us \<Longrightarrow> 0 \<le> i \<Longrightarrow> user_data us i NameRole = VStr (u_name (us ! nat i))"
  by (simp add: user_data_def Let_def)

text \<open>A user is found by name.  With distinct login names, none of them empty, looking up the name of
  any row gives that row; a name nobody has gives -1.\<close>

theorem user_found_by_name:
  assumes "distinct (map u_name us)" "name \<noteq> []"
  shows "let i = user_indexOfData us (VStr name) NameRole in
    (i = -1 \<and> name \<notin> set (map u_name us)) \<or> (0 \<le> i \<and> nat i < length us \<and> u_name (us ! nat i) = name
       \<and> (\<forall>k < length us. u_name (us ! k) = name \<longrightarrow> k = nat i))"
proof -
  let ?f = "\<lambda>i. user_data us i NameRole" and ?v = "VStr name"
  let ?i = "first_row ?f ?v (length us) 0"
  have i: "user_indexOfData us ?v NameRole = ?i" using assms(2) by (simp add: user_indexOfData_def)
  show ?thesis
  proof (cases "?i = -1")
    case True
    have "u_name (us ! k) \<noteq> name" if "k < length us" for k
      using first_row_none [OF True, of "int k"] that by (simp add: user_data_in)
    then have "name \<notin> set (map u_name us)" by (metis in_set_conv_nth length_map nth_map)
    with True show ?thesis unfolding i Let_def by blast
  next
    case False
    with first_row_found [OF refl, of ?f ?v "length us" 0]
    have "0 \<le> ?i" "nat ?i < length us" "user_data us ?i NameRole = VStr name" by auto
    moreover from this have n: "u_name (us ! nat ?i) = name" by (simp add: user_data_in)
    moreover have "k = nat ?i" if "k < length us" "u_name (us ! k) = name" for k
      using assms(1) that n \<open>nat ?i < length us\<close> by (metis distinct_conv_nth length_map nth_map)
    ultimately show ?thesis unfolding i Let_def by blast
  qed
qed

definition sample_user :: "QString \<Rightarrow> int \<Rightarrow> User" where
  "sample_user name uid = \<lparr>u_name = name, u_realName = [], u_icon = [], u_homeDir = ''/home'', u_needsPassword = True, u_uid = uid, u_gid = uid\<rparr>"

lemma user_found_by_name_witness:
  "user_indexOfData [sample_user ''ann'' 1000, sample_user ''joe'' 1001] (VStr ''joe'') NameRole = 1"
proof -
  let ?us = "[sample_user ''ann'' 1000, sample_user ''joe'' 1001]"
  have "let i = user_indexOfData ?us (VStr ''joe'') NameRole in
    (i = -1 \<and> ''joe'' \<notin> set (map u_name ?us)) \<or> (0 \<le> i \<and> nat i < length ?us \<and> u_name (?us ! nat i) = ''joe''
       \<and> (\<forall>k < length ?us. u_name (?us ! k) = ''joe'' \<longrightarrow> k = nat i))"
    by (rule user_found_by_name) (simp_all add: sample_user_def)
  moreover have "u_name (?us ! 1) = ''joe''" "''joe'' \<in> set (map u_name ?us)" "1 < length ?us"
    by (simp_all add: sample_user_def)
  ultimately have "1 = nat (user_indexOfData ?us (VStr ''joe'') NameRole)" unfolding Let_def by blast
  then show ?thesis by simp
qed

end
