(* ===== verification/File_Tree.thy ===== *)
theory File_Tree
  imports Prelude "HOL-Library.Sublist"
begin

text \<open>
  A home directory as the settings helper sees it: files, symbolic links and directories with their owners.  A path
  is the list of its components below the home directory.  Following a symbolic link is the kernel's business and
  not modelled: a path that leads through a link names nothing here.
\<close>

record owner =
  o_uid :: nat
  o_gid :: nat

datatype tree =
    TFile owner string
  | TLink owner string
  | TDir owner "(string \<times> tree) list"

type_synonym fpath = "string list"

fun fs_look :: "fpath \<Rightarrow> tree \<Rightarrow> tree option" where
  "fs_look [] t = Some t"
| "fs_look (n # p) (TDir ow es) = (case map_of es n of None \<Rightarrow> None | Some t \<Rightarrow> fs_look p t)"
| "fs_look (n # p) t = None"

text \<open>A node put at a path whose parent is a directory; \<open>None\<close> when it is not.\<close>

fun fs_put :: "fpath \<Rightarrow> tree \<Rightarrow> tree \<Rightarrow> tree option" where
  "fs_put [n] x (TDir ow es) = Some (TDir ow (AList.update n x es))"
| "fs_put (n # m # p) x (TDir ow es) =
     (case map_of es n of
        None \<Rightarrow> None
      | Some t \<Rightarrow> map_option (\<lambda>t'. TDir ow (AList.update n t' es)) (fs_put (m # p) x t))"
| "fs_put p x t = None"

fun fs_del :: "fpath \<Rightarrow> tree \<Rightarrow> tree" where
  "fs_del [n] (TDir ow es) = TDir ow (AList.delete n es)"
| "fs_del (n # m # p) (TDir ow es) =
     (case map_of es n of None \<Rightarrow> TDir ow es | Some t \<Rightarrow> TDir ow (AList.update n (fs_del (m # p) t) es))"
| "fs_del p t = t"

definition is_dir :: "fpath \<Rightarrow> tree \<Rightarrow> bool" where
  "is_dir p t \<longleftrightarrow> (case fs_look p t of Some (TDir ow es) \<Rightarrow> True | _ \<Rightarrow> False)"

section \<open>Laws\<close>

text \<open>What a store of nodes under paths promises, and what its clients use.\<close>

locale path_store =
  fixes look :: "fpath \<Rightarrow> 's \<Rightarrow> 'n option"
    and put :: "fpath \<Rightarrow> 'n \<Rightarrow> 's \<Rightarrow> 's option"
    and del :: "fpath \<Rightarrow> 's \<Rightarrow> 's"
    and dir :: "'n \<Rightarrow> bool"
  assumes look_put: "put p x s = Some s' \<Longrightarrow> look p s' = Some x"
    and look_put_other: "put p x s = Some s' \<Longrightarrow> \<not> prefix p q \<Longrightarrow> \<not> prefix q p \<Longrightarrow> look q s' = look q s"
    and put_dirs: "put p x s = Some s' \<Longrightarrow> \<not> prefix p q \<Longrightarrow> look q s = Some n \<Longrightarrow> dir n \<Longrightarrow> \<exists>n'. look q s' = Some n' \<and> dir n'"
    and put_total: "p \<noteq> [] \<Longrightarrow> look (butlast p) s = Some n \<Longrightarrow> dir n \<Longrightarrow> \<exists>s'. put p x s = Some s'"
    and look_del_other: "\<not> prefix p q \<Longrightarrow> \<not> prefix q p \<Longrightarrow> look q (del p s) = look q s"
begin

text \<open>A sequence of nodes put at unrelated paths is found again, and nothing else changes.\<close>

definition apart :: "fpath list \<Rightarrow> bool" where
  "apart ps \<longleftrightarrow> (\<forall>p \<in> set ps. \<forall>q \<in> set ps. p \<noteq> q \<longrightarrow> \<not> prefix p q)"

definition puts :: "(fpath \<times> 'n) list \<Rightarrow> 's \<Rightarrow> 's" where
  "puts pxs s = fold (\<lambda>(p, x) s. case put p x s of None \<Rightarrow> s | Some s' \<Rightarrow> s') pxs s"

lemma puts_Cons: "puts ((p, x) # pxs) s = puts pxs (case put p x s of None \<Rightarrow> s | Some s' \<Rightarrow> s')"
  by (simp add: puts_def)

lemma puts_other:
  assumes "\<forall>p \<in> set (map fst pxs). \<not> prefix p q \<and> \<not> prefix q p"
  shows "look q (puts pxs s) = look q s"
  using assms
proof (induction pxs arbitrary: s)
  case (Cons px pxs)
  obtain p x where px: "px = (p, x)" by fastforce
  with Cons show ?case by (simp add: puts_Cons look_put_other split: option.splits)
qed (simp add: puts_def)

lemma puts_found:
  assumes "apart (map fst pxs)" "distinct (map fst pxs)" "(p, x) \<in> set pxs"
    and "\<forall>q \<in> set (map fst pxs). q \<noteq> [] \<and> (\<exists>n. look (butlast q) s = Some n \<and> dir n)"
    and "\<forall>q \<in> set (map fst pxs). \<forall>r \<in> set (map fst pxs). \<not> prefix q (butlast r)"
  shows "look p (puts pxs s) = Some x"
  using assms
proof (induction pxs arbitrary: s)
  case (Cons px pxs)
  obtain p1 x1 where px: "px = (p1, x1)" by fastforce
  obtain s1 where s1: "put p1 x1 s = Some s1"
    using Cons.prems(4) put_total [of p1 s _ x1] by (auto simp: px)
  show ?case
  proof (cases "(p, x) = px")
    case True
    then have "\<forall>q \<in> set (map fst pxs). \<not> prefix q p \<and> \<not> prefix p q"
      using Cons.prems(1,2) by (auto simp: apart_def px)
    with True s1 show ?thesis by (simp add: px puts_Cons puts_other look_put)
  next
    case False
    have "\<forall>q \<in> set (map fst pxs). q \<noteq> [] \<and> (\<exists>n. look (butlast q) s1 = Some n \<and> dir n)"
    proof
      fix q assume q: "q \<in> set (map fst pxs)"
      with Cons.prems(4) obtain n where "q \<noteq> []" "look (butlast q) s = Some n" "dir n" by auto
      moreover have "\<not> prefix p1 (butlast q)" using Cons.prems(5) q by (auto simp: px)
      ultimately show "q \<noteq> [] \<and> (\<exists>n. look (butlast q) s1 = Some n \<and> dir n)" using put_dirs [OF s1] by blast
    qed
    moreover have "apart (map fst pxs)" "distinct (map fst pxs)" "(p, x) \<in> set pxs"
      using Cons.prems(1-3) False by (auto simp: apart_def px)
    ultimately show ?thesis using Cons.IH [of s1] Cons.prems(5) s1 by (simp add: px puts_Cons)
  qed
qed simp

end

lemma look_put_same: "fs_put p x t = Some t' \<Longrightarrow> fs_look p t' = Some x"
  by (induction p x t arbitrary: t' rule: fs_put.induct) (auto simp: update_conv split: option.splits)

lemma look_put_unrelated:
  "fs_put p x t = Some t' \<Longrightarrow> \<not> prefix p q \<Longrightarrow> \<not> prefix q p \<Longrightarrow> fs_look q t' = fs_look q t"
proof (induction p x t arbitrary: t' q rule: fs_put.induct)
  case (1 n x ow es)
  then show ?case by (cases q) (auto simp: update_conv)
next
  case (2 n m p x ow es)
  then show ?case by (cases q) (auto simp: update_conv split: option.splits)
qed auto

lemma put_keeps_dirs:
  "fs_put p x t = Some t' \<Longrightarrow> \<not> prefix p q \<Longrightarrow> fs_look q t = Some (TDir ow es) \<Longrightarrow> \<exists>es'. fs_look q t' = Some (TDir ow es')"
proof (induction p x t arbitrary: t' q rule: fs_put.induct)
  case (1 n x ow' es')
  then show ?case by (cases q) (auto simp: update_conv)
next
  case (2 n m p x ow' es')
  then show ?case by (cases q) (auto simp: update_conv split: option.splits if_splits)
qed auto

lemma look_leaf:
  "fs_look p (TFile ow s) = (if p = [] then Some (TFile ow s) else None)"
  "fs_look p (TLink ow s) = (if p = [] then Some (TLink ow s) else None)"
  by (cases p; simp)+

lemma put_succeeds: "p \<noteq> [] \<Longrightarrow> fs_look (butlast p) t = Some (TDir ow es) \<Longrightarrow> \<exists>t'. fs_put p x t = Some t'"
proof (induction p x t arbitrary: rule: fs_put.induct)
  case (2 n m p x ow' es')
  then show ?case by (auto split: option.splits)
qed (auto simp: look_leaf split: if_splits)

lemma look_del_unrelated: "\<not> prefix p q \<Longrightarrow> \<not> prefix q p \<Longrightarrow> fs_look q (fs_del p t) = fs_look q t"
proof (induction p t arbitrary: q rule: fs_del.induct)
  case (1 n ow es)
  then show ?case by (cases q) (auto simp: delete_conv)
next
  case (2 n m p ow es)
  then show ?case by (cases q) (auto simp: update_conv split: option.splits)
qed auto

lemma look_del_below: "prefix p q \<Longrightarrow> p \<noteq> [] \<Longrightarrow> fs_look q (fs_del p t) = None"
proof (induction p t arbitrary: q rule: fs_del.induct)
  case (1 n ow es)
  then show ?case by (cases q) (auto simp: delete_conv)
next
  case (2 n m p ow es)
  then show ?case by (cases q) (auto simp: update_conv split: option.splits)
qed (auto simp: look_leaf)

lemma del_keeps_dirs:
  "\<not> prefix p q \<Longrightarrow> fs_look q t = Some (TDir ow es) \<Longrightarrow> \<exists>es'. fs_look q (fs_del p t) = Some (TDir ow es')"
proof (induction p t arbitrary: q rule: fs_del.induct)
  case (1 n ow' es')
  then show ?case by (cases q) (auto simp: delete_conv)
next
  case (2 n m p ow' es')
  then show ?case by (cases q) (auto simp: update_conv split: option.splits if_splits)
qed auto

definition dir_node :: "tree \<Rightarrow> bool" where
  "dir_node n = (case n of TDir ow es \<Rightarrow> True | _ \<Rightarrow> False)"

lemma dir_node_iff: "dir_node n \<longleftrightarrow> (\<exists>ow es. n = TDir ow es)"
  by (cases n) (auto simp: dir_node_def)

lemma is_dir_iff: "is_dir p t \<longleftrightarrow> (\<exists>n. fs_look p t = Some n \<and> dir_node n)"
  by (auto simp: is_dir_def dir_node_iff split: option.splits tree.splits)

interpretation store: path_store fs_look fs_put fs_del dir_node
proof
  fix p x s s' q n
  show "fs_put p x s = Some s' \<Longrightarrow> fs_look p s' = Some x" by (rule look_put_same)
  show "fs_put p x s = Some s' \<Longrightarrow> \<not> prefix p q \<Longrightarrow> \<not> prefix q p \<Longrightarrow> fs_look q s' = fs_look q s"
    by (rule look_put_unrelated)
  show "fs_put p x s = Some s' \<Longrightarrow> \<not> prefix p q \<Longrightarrow> fs_look q s = Some n \<Longrightarrow> dir_node n \<Longrightarrow>
      \<exists>n'. fs_look q s' = Some n' \<and> dir_node n'"
    using put_keeps_dirs by (fastforce simp: dir_node_iff)
  show "p \<noteq> [] \<Longrightarrow> fs_look (butlast p) s = Some n \<Longrightarrow> dir_node n \<Longrightarrow> \<exists>s'. fs_put p x s = Some s'"
    using put_succeeds by (auto simp: dir_node_iff)
  show "\<not> prefix p q \<Longrightarrow> \<not> prefix q p \<Longrightarrow> fs_look q (fs_del p s) = fs_look q s"
    by (rule look_del_unrelated)
qed

end
