(* ===== verification/Settings_Helper.thy ===== *)
theory Settings_Helper
  imports File_Tree
begin

text \<open>
  The helper that runs as root for the settings page (\<open>src/frontend/kcm/auth/plasmaloginauthhelper.cpp\<close>): it
  repairs the ownership of the greeter's home directory, copies a user's settings into it, removes them again, and
  writes the configuration with its wallpapers.

  The home directory is a tree (theory File_Tree); the kernel's answers to the single calls are parameters, keyed
  by path.  A reply is \<open>True\<close> for \<open>SuccessReply\<close>, \<open>False\<close> for \<open>HelperErrorReply\<close>.
\<close>

section \<open>The user and the child process\<close>

text \<open>
  \<open>KUser("plasmalogin")\<close>, and the answers to \<open>fork\<close>, \<open>setgid\<close>, \<open>setuid\<close> and \<open>waitpid\<close>.
\<close>

record login_user =
  lu_valid :: bool
  lu_uid :: nat
  lu_gid :: nat
  lu_homeDir :: QString

record child_env =
  ce_fork :: bool
  ce_setgid :: bool
  ce_setuid :: bool
  ce_waitpid :: bool

definition plasmaloginUserHomeDir :: "login_user \<Rightarrow> QString option" where
  "plasmaloginUserHomeDir user = (if lu_homeDir user = [] then None else Some (lu_homeDir user))"

text \<open>The result is what the parent gets, the home directory afterwards, and the calls the child has made.\<close>

datatype drop_call = ChildSetgid nat | ChildSetuid nat | ChildRuns

definition runAsPlasmaLoginUser ::
  "login_user \<Rightarrow> child_env \<Rightarrow> (tree \<Rightarrow> bool \<times> tree) \<Rightarrow> tree \<Rightarrow> bool \<times> tree \<times> drop_call list" where
  "runAsPlasmaLoginUser user e function home =
     (if \<not> lu_valid user then (False, home, [])
      else if \<not> ce_fork e then (False, home, [])
      else if \<not> ce_setgid e then (False, home, [ChildSetgid (lu_gid user)])
      else if \<not> ce_setuid e then (False, home, [ChildSetgid (lu_gid user), ChildSetuid (lu_uid user)])
      else let (ok, home1) = function home in
        (if \<not> ce_waitpid e then False else ok, home1, [ChildSetgid (lu_gid user), ChildSetuid (lu_uid user), ChildRuns]))"

section \<open>Ownership\<close>

text \<open>The kernel's answers: \<open>fdopendir\<close>, \<open>fstatat\<close>, \<open>openat2\<close> of a directory, \<open>fchownat\<close>.\<close>

record own_io =
  io_fdopendir :: "string \<Rightarrow> bool"
  io_fstatat :: "string \<Rightarrow> bool"
  io_openat :: "string \<Rightarrow> bool"
  io_chown :: "string \<Rightarrow> bool"

definition sub_path :: "string \<Rightarrow> string \<Rightarrow> string" where
  "sub_path path name = path @ ''/'' @ name"

fun set_owner :: "owner \<Rightarrow> tree \<Rightarrow> tree" where
  "set_owner ow (TFile _ s) = TFile ow s"
| "set_owner ow (TLink _ s) = TLink ow s"
| "set_owner ow (TDir _ es) = TDir ow es"

fun is_link :: "tree \<Rightarrow> bool" where
  "is_link (TLink ow s) = True"
| "is_link t = False"

fun is_directory :: "tree \<Rightarrow> bool" where
  "is_directory (TDir ow es) = True"
| "is_directory t = False"

definition chown_entry :: "own_io \<Rightarrow> owner \<Rightarrow> string \<Rightarrow> bool \<times> tree \<Rightarrow> bool \<times> tree" where
  "chown_entry io ow path st =
     (if \<not> io_chown io path then (False, snd st) else (fst st, set_owner ow (snd st)))"

text \<open>
  One turn of the loop: \<open>sub\<close> is what the recursive call gives for a directory.  The recursive call comes before
  \<open>&& success\<close>, so an entry is always handled, whatever failed before it.
\<close>

definition adjust_entry :: "own_io \<Rightarrow> owner \<Rightarrow> string \<Rightarrow> string \<Rightarrow> tree \<Rightarrow> bool \<times> tree \<Rightarrow> bool \<times> tree" where
  "adjust_entry io ow p name t sub =
     (if name = ''.'' \<or> name = ''..'' then (True, t)
      else if \<not> io_fstatat io p then (False, t)
      else if is_link t then (True, t)
      else if is_directory t then (if \<not> io_openat io p then (False, t) else chown_entry io ow p sub)
      else chown_entry io ow p (True, t))"

definition join_entry :: "string \<Rightarrow> bool \<times> tree \<Rightarrow> bool \<times> (string \<times> tree) list \<Rightarrow> bool \<times> (string \<times> tree) list" where
  "join_entry name entry rest = (fst entry \<and> fst rest, (name, snd entry) # snd rest)"

fun adjustOwnershipRecursively :: "own_io \<Rightarrow> owner \<Rightarrow> string \<Rightarrow> tree \<Rightarrow> bool \<times> tree"
  and adjust_entries :: "own_io \<Rightarrow> owner \<Rightarrow> string \<Rightarrow> (string \<times> tree) list \<Rightarrow> bool \<times> (string \<times> tree) list" where
  "adjustOwnershipRecursively io ow path (TDir o1 es) =
     (if \<not> io_fdopendir io path then (False, TDir o1 es)
      else (fst (adjust_entries io ow path es), TDir o1 (snd (adjust_entries io ow path es))))"
| "adjustOwnershipRecursively io ow path (TFile o1 s) = (False, TFile o1 s)"
| "adjustOwnershipRecursively io ow path (TLink o1 s) = (False, TLink o1 s)"
| "adjust_entries io ow path [] = (True, [])"
| "adjust_entries io ow path ((name, t) # es) =
     join_entry name
       (adjust_entry io ow (sub_path path name) name t (adjustOwnershipRecursively io ow (sub_path path name) t))
       (adjust_entries io ow path es)"

definition adjustPermissionsFromPlasma6_6 :: "login_user \<Rightarrow> bool \<Rightarrow> own_io \<Rightarrow> tree \<Rightarrow> bool \<times> tree" where
  "adjustPermissionsFromPlasma6_6 user home_opens io home =
     (if \<not> lu_valid user then (False, home)
      else if lu_homeDir user = [] then (False, home)
      else if \<not> home_opens then (False, home)
      else adjustOwnershipRecursively io \<lparr>o_uid = lu_uid user, o_gid = lu_gid user\<rparr> (lu_homeDir user) home)"

section \<open>The actions sync and reset\<close>

text \<open>
  \<open>removes\<close> is what \<open>removeRecursively\<close> leaves of a directory (\<open>None\<close>: nothing); \<open>creates\<close>
  whether a file or directory may be created or written at a path.
\<close>

record home_io =
  removes :: "tree \<Rightarrow> tree option"
  creates :: "fpath \<Rightarrow> bool"
  creator :: owner

definition remove_dir :: "home_io \<Rightarrow> fpath \<Rightarrow> tree \<Rightarrow> tree" where
  "remove_dir H p home =
     (case fs_look p home of
        None \<Rightarrow> home
      | Some t \<Rightarrow> (case removes H t of
                    None \<Rightarrow> fs_del p home
                  | Some t1 \<Rightarrow> (case fs_put p t1 home of None \<Rightarrow> home | Some home1 \<Rightarrow> home1)))"

text \<open>\<open>if (dir.exists()) dir.removeRecursively()\<close>\<close>

definition remove_if_dir :: "home_io \<Rightarrow> fpath \<Rightarrow> tree \<Rightarrow> tree" where
  "remove_if_dir H p home = (if is_dir p home then remove_dir H p home else home)"

definition fs_mkdir :: "home_io \<Rightarrow> fpath \<Rightarrow> tree \<Rightarrow> bool \<times> tree" where
  "fs_mkdir H p home =
     (if fs_look p home \<noteq> None \<or> \<not> creates H p then (False, home)
      else case fs_put p (TDir (creator H) []) home of None \<Rightarrow> (False, home) | Some home1 \<Rightarrow> (True, home1))"

definition mkdir_unless_dir :: "home_io \<Rightarrow> fpath \<Rightarrow> tree \<Rightarrow> tree" where
  "mkdir_unless_dir H p home = (if \<not> is_dir p home then snd (fs_mkdir H p home) else home)"

text \<open>Opening a file for writing with truncation; an existing file keeps its owner.\<close>

definition fs_truncate :: "home_io \<Rightarrow> fpath \<Rightarrow> string \<Rightarrow> tree \<Rightarrow> tree option" where
  "fs_truncate H p content home =
     (if \<not> creates H p then None
      else case fs_look p home of
             Some (TDir ow es) \<Rightarrow> None
           | Some (TLink ow s) \<Rightarrow> None
           | Some (TFile ow s) \<Rightarrow> fs_put p (TFile ow content) home
           | None \<Rightarrow> fs_put p (TFile (creator H) content) home)"

text \<open>The components of a relative path.\<close>

definition path_parts :: "QString \<Rightarrow> fpath" where
  "path_parts s = filter (\<lambda>n. n \<noteq> [] \<and> n \<noteq> ''.'') (split_on CHR ''/'' s)"

text \<open>
  A file that was not given is meant to be removed, but the path in the call is that of the directory itself, on which
  \<open>QFile::remove\<close> fails: nothing happens.
\<close>

definition createConfigFile :: "home_io \<Rightarrow> (QString \<rightharpoonup> QString) \<Rightarrow> QString \<Rightarrow> tree \<Rightarrow> tree" where
  "createConfigFile H args name home =
     (case args name of
        None \<Rightarrow> home
      | Some content \<Rightarrow>
          (case fs_truncate H (''.config'' # path_parts name) content home of None \<Rightarrow> home | Some home1 \<Rightarrow> home1))"

definition synced_files :: "QString list" where
  "synced_files = [''kxkbrc'', ''kdeglobals'', ''plasmarc'', ''plasma-localerc'', ''kcminputrc'',
     ''kwinoutputconfig.json'', ''fontconfig/fonts.conf'']"

definition sync_home :: "home_io \<Rightarrow> (QString \<rightharpoonup> QString) \<Rightarrow> tree \<Rightarrow> bool \<times> tree" where
  "sync_home H args home =
     (let home1 = remove_if_dir H [''.cache''] home;
          home2 = mkdir_unless_dir H [''.config''] home1;
          home3 = mkdir_unless_dir H [''.config'', ''fontconfig''] home2
      in (True, fold (createConfigFile H args) synced_files home3))"

definition reset_home :: "home_io \<Rightarrow> tree \<Rightarrow> bool \<times> tree" where
  "reset_home H home = (True, remove_if_dir H [''.config''] (remove_if_dir H [''.cache''] home))"

record helper_env =
  he_user :: login_user
  he_child :: child_env
  he_home_opens :: bool
  he_own_io :: own_io
  he_home_io :: home_io

text \<open>What all three actions do with the home directory: repair it, then change it as the user \<open>plasmalogin\<close>.\<close>

definition change_home :: "helper_env \<Rightarrow> (tree \<Rightarrow> bool \<times> tree) \<Rightarrow> tree \<Rightarrow> bool \<times> tree" where
  "change_home E function home =
     (case plasmaloginUserHomeDir (he_user E) of
        None \<Rightarrow> (False, home)
      | Some homeDir \<Rightarrow>
          (let (ok, home1) = adjustPermissionsFromPlasma6_6 (he_user E) (he_home_opens E) (he_own_io E) home in
           if \<not> ok then (False, home1)
           else let (rc, home2, calls) = runAsPlasmaLoginUser (he_user E) (he_child E) function home1 in (rc, home2)))"

definition helper_sync :: "helper_env \<Rightarrow> (QString \<rightharpoonup> QString) \<Rightarrow> tree \<Rightarrow> bool \<times> tree" where
  "helper_sync E args home = change_home E (sync_home (he_home_io E) args) home"

definition helper_reset :: "helper_env \<Rightarrow> tree \<Rightarrow> bool \<times> tree" where
  "helper_reset E home = change_home E (reset_home (he_home_io E)) home"

section \<open>Ownership is repaired\<close>

text \<open>What the repair is for: everything below the home directory belongs to the user, except symbolic links.\<close>

fun owned_below :: "owner \<Rightarrow> tree \<Rightarrow> tree"
  and owned_entries :: "owner \<Rightarrow> (string \<times> tree) list \<Rightarrow> (string \<times> tree) list" where
  "owned_below ow (TDir o1 es) = TDir o1 (owned_entries ow es)"
| "owned_below ow (TFile o1 s) = TFile o1 s"
| "owned_below ow (TLink o1 s) = TLink o1 s"
| "owned_entries ow [] = []"
| "owned_entries ow ((name, t) # es) =
     (name, if name = ''.'' \<or> name = ''..'' \<or> is_link t then t else set_owner ow (owned_below ow t)) # owned_entries ow es"

text \<open>A tree without its owners.\<close>

fun contents :: "tree \<Rightarrow> tree"
  and contents_entries :: "(string \<times> tree) list \<Rightarrow> (string \<times> tree) list" where
  "contents (TDir o1 es) = TDir \<lparr>o_uid = 0, o_gid = 0\<rparr> (contents_entries es)"
| "contents (TFile o1 s) = TFile \<lparr>o_uid = 0, o_gid = 0\<rparr> s"
| "contents (TLink o1 s) = TLink \<lparr>o_uid = 0, o_gid = 0\<rparr> s"
| "contents_entries [] = []"
| "contents_entries ((name, t) # es) = (name, contents t) # contents_entries es"

lemma contents_set_owner [simp]: "contents (set_owner ow t) = contents t"
  by (cases t) simp_all

lemma adjust_entry_contents: "contents (snd sub) = contents t \<Longrightarrow> contents (snd (adjust_entry io ow p name t sub)) = contents t"
  by (simp add: adjust_entry_def chown_entry_def)

lemma adjust_contents:
  "contents (snd (adjustOwnershipRecursively io ow path t)) = contents t"
  "contents_entries (snd (adjust_entries io ow path es)) = contents_entries es"
  by (induction io ow path t and io ow path es rule: adjustOwnershipRecursively_adjust_entries.induct)
    (simp_all add: adjust_entry_contents join_entry_def)

lemma adjust_entry_success:
  assumes "fst (adjust_entry io ow p name t sub)" "fst sub \<Longrightarrow> snd sub = owned_below ow t"
  shows "snd (adjust_entry io ow p name t sub)
    = (if name = ''.'' \<or> name = ''..'' \<or> is_link t then t else set_owner ow (owned_below ow t))"
  using assms by (cases t) (auto simp: adjust_entry_def chown_entry_def split: if_splits)

lemma adjust_success:
  "fst (adjustOwnershipRecursively io ow path t) \<Longrightarrow> snd (adjustOwnershipRecursively io ow path t) = owned_below ow t"
  "fst (adjust_entries io ow path es) \<Longrightarrow> snd (adjust_entries io ow path es) = owned_entries ow es"
proof (induction io ow path t and io ow path es rule: adjustOwnershipRecursively_adjust_entries.induct)
  case (5 io ow path name t es)
  let ?e = "adjust_entry io ow (sub_path path name) name t (adjustOwnershipRecursively io ow (sub_path path name) t)"
  have ok: "fst ?e" "fst (adjust_entries io ow path es)"
    using "5.prems" by (simp_all add: join_entry_def)
  then have "snd ?e = (if name = ''.'' \<or> name = ''..'' \<or> is_link t then t else set_owner ow (owned_below ow t))"
    by (intro adjust_entry_success "5.IH"(1)) simp_all
  with ok "5.IH"(2) show ?case
    by (simp only: adjust_entries.simps owned_entries.simps join_entry_def snd_conv)
qed (simp_all split: if_splits)


definition kind_io :: own_io where
  "kind_io = \<lparr>io_fdopendir = \<lambda>_. True, io_fstatat = \<lambda>_. True, io_openat = \<lambda>_. True, io_chown = \<lambda>_. True\<rparr>"

abbreviation root_owner :: owner where "root_owner \<equiv> \<lparr>o_uid = 0, o_gid = 0\<rparr>"

definition sample_home :: tree where
  "sample_home = TDir root_owner
     [(''.config'', TDir root_owner [(''kxkbrc'', TFile root_owner ''old'')]), (''link'', TLink root_owner ''/etc'')]"


section \<open>The files a synchronisation writes\<close>

definition cfg_path :: "QString \<Rightarrow> fpath" where
  "cfg_path name = ''.config'' # path_parts name"

definition file_owner :: "home_io \<Rightarrow> tree \<Rightarrow> fpath \<Rightarrow> owner" where
  "file_owner H t p = (case fs_look p t of Some (TFile ow s) \<Rightarrow> ow | _ \<Rightarrow> creator H)"

definition file_or_none :: "fpath \<Rightarrow> tree \<Rightarrow> bool" where
  "file_or_none p t = (case fs_look p t of None \<Rightarrow> True | Some (TFile ow s) \<Rightarrow> True | _ \<Rightarrow> False)"

lemma look_append: "fs_look (p @ q) t = (case fs_look p t of None \<Rightarrow> None | Some x \<Rightarrow> fs_look q x)"
proof (induction p t rule: fs_look.induct)
  case (2 n p ow es)
  then show ?case by (auto split: option.splits)
qed simp_all

lemma is_dir_put: "fs_put p x t = Some t' \<Longrightarrow> \<not> prefix p q \<Longrightarrow> is_dir q t \<Longrightarrow> is_dir q t'"
  unfolding is_dir_iff using store.put_dirs by blast

lemma truncate_put:
  assumes "creates H p" "file_or_none p t" "p \<noteq> []" "is_dir (butlast p) t"
  shows "\<exists>t'. fs_truncate H p c t = Some t' \<and> fs_put p (TFile (file_owner H t p) c) t = Some t'"
  using assms store.put_total [OF assms(3)]
  by (auto simp: fs_truncate_def file_or_none_def file_owner_def is_dir_iff split: option.splits tree.splits)

text \<open>Paths of files, none of them below another.\<close>

definition file_paths :: "(QString \<Rightarrow> fpath) \<Rightarrow> QString list \<Rightarrow> bool" where
  "file_paths path ns \<longleftrightarrow> distinct (map path ns) \<and> store.apart (map path ns)
     \<and> (\<forall>m \<in> set ns. \<forall>n \<in> set ns. \<not> prefix (path m) (butlast (path n))) \<and> (\<forall>n \<in> set ns. path n \<noteq> [])"

lemma file_paths_Cons:
  "file_paths path (n # ns) \<Longrightarrow> file_paths path ns \<and> (\<forall>m \<in> set ns. \<not> prefix (path n) (path m) \<and> \<not> prefix (path m) (path n))"
  by (auto simp: file_paths_def store.apart_def)

lemma config_fold_puts:
  assumes "file_paths cfg_path ns" "\<forall>p. creates H p"
    and "\<forall>n \<in> set ns. is_dir (butlast (cfg_path n)) t \<and> file_or_none (cfg_path n) t"
  shows "fold (createConfigFile H args) ns t
    = store.puts (map (\<lambda>n. (cfg_path n, TFile (file_owner H t (cfg_path n)) (the (args n)))) (filter (\<lambda>n. args n \<noteq> None) ns)) t"
  using assms
proof (induction ns arbitrary: t)
  case (Cons n ns)
  let ?p = "cfg_path n"
  show ?case
  proof (cases "args n")
    case None
    with Cons show ?thesis using file_paths_Cons [OF Cons.prems(1)] by (simp add: createConfigFile_def)
  next
    case (Some c)
    have "?p \<noteq> []" by (simp add: cfg_path_def)
    then obtain t1 where t1: "fs_truncate H ?p c t = Some t1" "fs_put ?p (TFile (file_owner H t ?p) c) t = Some t1"
      using truncate_put [of H ?p t c] Cons.prems by auto
    have rest: "file_paths cfg_path ns" "\<forall>m \<in> set ns. \<not> prefix ?p (cfg_path m) \<and> \<not> prefix (cfg_path m) ?p"
      using file_paths_Cons [OF Cons.prems(1)] by auto
    have same: "fs_look (cfg_path m) t1 = fs_look (cfg_path m) t" if "m \<in> set ns" for m
      using store.look_put_other [OF t1(2)] rest(2) that by blast
    have pre: "\<forall>m \<in> set ns. is_dir (butlast (cfg_path m)) t1 \<and> file_or_none (cfg_path m) t1"
    proof
      fix m assume m: "m \<in> set ns"
      have "\<not> prefix ?p (butlast (cfg_path m))" using Cons.prems(1) m by (auto simp: file_paths_def)
      with m Cons.prems(3) is_dir_put [OF t1(2)] same [OF m]
      show "is_dir (butlast (cfg_path m)) t1 \<and> file_or_none (cfg_path m) t1" by (simp add: file_or_none_def)
    qed
    let ?ns = "filter (\<lambda>m. args m \<noteq> None) ns"
    have owners: "map (\<lambda>m. (cfg_path m, TFile (file_owner H t1 (cfg_path m)) (the (args m)))) ?ns
      = map (\<lambda>m. (cfg_path m, TFile (file_owner H t (cfg_path m)) (the (args m)))) ?ns"
      using same by (intro map_cong refl) (simp add: file_owner_def)
    have "fold (createConfigFile H args) (n # ns) t = fold (createConfigFile H args) ns t1"
      using Some t1(1) by (simp add: createConfigFile_def cfg_path_def)
    also have "\<dots> = store.puts (map (\<lambda>m. (cfg_path m, TFile (file_owner H t1 (cfg_path m)) (the (args m)))) ?ns) t1"
      by (rule Cons.IH [OF rest(1) Cons.prems(2) pre])
    finally show ?thesis using Some t1(2) unfolding owners by (simp add: store.puts_Cons)
  qed
qed (simp add: store.puts_def)

lemma mkdir_unless_dir_look:
  assumes "fs_look p t = None \<or> is_dir p t" "\<not> prefix q p"
  shows "fs_look q (mkdir_unless_dir H p t) = fs_look q t"
proof (cases "is_dir p t \<or> fst (fs_mkdir H p t) = False")
  case True
  then show ?thesis by (auto simp: mkdir_unless_dir_def fs_mkdir_def split: option.splits)
next
  case False
  then obtain t' where t': "fs_put p (TDir (creator H) []) t = Some t'" "mkdir_unless_dir H p t = t'" and n: "fs_look p t = None"
    using assms(1) by (auto simp: mkdir_unless_dir_def fs_mkdir_def split: option.splits if_splits)
  show ?thesis
  proof (cases "prefix p q")
    case True
    then obtain r where q: "q = p @ r" by (auto simp: prefix_def)
    with assms(2) have "r \<noteq> []" by auto
    then obtain m r' where "r = m # r'" by (cases r) auto
    then show ?thesis using store.look_put [OF t'(1)] n t'(2) by (simp add: q look_append)
  next
    case False
    with t' assms(2) store.look_put_other show ?thesis by blast
  qed
qed

lemma mkdir_unless_dir_makes:
  assumes "fs_look p t = None \<or> is_dir p t" "p \<noteq> []" "is_dir (butlast p) t" "creates H p"
  shows "is_dir p (mkdir_unless_dir H p t)"
proof (cases "is_dir p t")
  case False
  with assms(1) have n: "fs_look p t = None" by simp
  obtain t' where "fs_put p (TDir (creator H) []) t = Some t'"
    using store.put_total [OF assms(2), of t _ "TDir (creator H) []"] assms(3) by (auto simp: is_dir_iff)
  with n assms(4) False store.look_put show ?thesis
    by (auto simp: mkdir_unless_dir_def fs_mkdir_def is_dir_iff dir_node_def)
qed (simp add: mkdir_unless_dir_def)

lemma mkdir_unless_dir_dirs: "is_dir q t \<Longrightarrow> is_dir q (mkdir_unless_dir H p t)"
proof (cases "prefix p q")
  case True
  assume d: "is_dir q t"
  then have "fs_look p t \<noteq> None" using True by (auto simp: prefix_def look_append is_dir_iff split: option.splits)
  with d show ?thesis by (simp add: mkdir_unless_dir_def fs_mkdir_def)
next
  case False
  assume "is_dir q t"
  with False show ?thesis by (auto simp: mkdir_unless_dir_def fs_mkdir_def split: option.splits intro: is_dir_put)
qed

lemma remove_if_dir_other:
  "\<not> prefix p q \<Longrightarrow> \<not> prefix q p \<Longrightarrow> fs_look q (remove_if_dir H p t) = fs_look q t"
  by (simp add: remove_if_dir_def remove_dir_def store.look_del_other store.look_put_other split: option.splits)

lemma remove_if_dir_dirs: "\<not> prefix p q \<Longrightarrow> is_dir q t \<Longrightarrow> is_dir q (remove_if_dir H p t)"
  using del_keeps_dirs [of p q t] is_dir_put [of p _ t _ q]
  by (auto simp: remove_if_dir_def remove_dir_def is_dir_iff dir_node_iff split: option.splits)

lemma cfg_paths:
  "map cfg_path synced_files =
     [[''.config'', ''kxkbrc''], [''.config'', ''kdeglobals''], [''.config'', ''plasmarc''], [''.config'', ''plasma-localerc''],
      [''.config'', ''kcminputrc''], [''.config'', ''kwinoutputconfig.json''], [''.config'', ''fontconfig'', ''fonts.conf'']]"
  by (simp add: synced_files_def cfg_path_def path_parts_def)

lemma synced_paths: "file_paths cfg_path synced_files"
proof -
  have d: "distinct (map cfg_path synced_files)" unfolding cfg_paths by simp
  have a: "store.apart (map cfg_path synced_files)" unfolding cfg_paths store.apart_def by simp
  have b: "\<forall>p \<in> set (map cfg_path synced_files). \<forall>q \<in> set (map cfg_path synced_files). \<not> prefix p (butlast q)"
    unfolding cfg_paths by simp
  from d a b show ?thesis unfolding file_paths_def by (simp add: cfg_path_def)
qed

lemma cfg_path_shape:
  assumes "n \<in> set synced_files"
  shows "butlast (cfg_path n) \<in> {[''.config''], [''.config'', ''fontconfig'']}" "\<not> prefix (cfg_path n) [''.config'', ''fontconfig'']"
proof -
  have "cfg_path n \<in> set (map cfg_path synced_files)" using assms by simp
  then have "cfg_path n \<in> set [[''.config'', ''kxkbrc''], [''.config'', ''kdeglobals''], [''.config'', ''plasmarc''],
      [''.config'', ''plasma-localerc''], [''.config'', ''kcminputrc''], [''.config'', ''kwinoutputconfig.json''],
      [''.config'', ''fontconfig'', ''fonts.conf'']]" unfolding cfg_paths .
  then have c: "cfg_path n = [''.config'', ''kxkbrc''] \<or> cfg_path n = [''.config'', ''kdeglobals''] \<or> cfg_path n = [''.config'', ''plasmarc'']
      \<or> cfg_path n = [''.config'', ''plasma-localerc''] \<or> cfg_path n = [''.config'', ''kcminputrc'']
      \<or> cfg_path n = [''.config'', ''kwinoutputconfig.json''] \<or> cfg_path n = [''.config'', ''fontconfig'', ''fonts.conf'']"
    by (simp only: list.set insert_iff empty_iff simp_thms)
  from c show "butlast (cfg_path n) \<in> {[''.config''], [''.config'', ''fontconfig'']}" by (elim disjE) simp_all
  from c show "\<not> prefix (cfg_path n) [''.config'', ''fontconfig'']" by (elim disjE) simp_all
qed

text \<open>The home directory after the two \<open>mkdir\<close>s is ready for the files.\<close>

definition prepared :: "home_io \<Rightarrow> tree \<Rightarrow> tree" where
  "prepared H home = mkdir_unless_dir H [''.config'', ''fontconfig'']
     (mkdir_unless_dir H [''.config''] (remove_if_dir H [''.cache''] home))"

lemma prepared_ready:
  assumes "\<forall>p. creates H p" "is_dir [] home"
    and "\<forall>p \<in> {[''.config''], [''.config'', ''fontconfig'']}. fs_look p home = None \<or> is_dir p home"
  shows "is_dir [''.config''] (prepared H home)" "is_dir [''.config'', ''fontconfig''] (prepared H home)"
    and "\<not> prefix [''.cache''] q \<Longrightarrow> \<not> prefix q [''.config'', ''fontconfig''] \<Longrightarrow> fs_look q (prepared H home) = fs_look q home"
proof -
  let ?h1 = "remove_if_dir H [''.cache''] home"
  let ?h2 = "mkdir_unless_dir H [''.config''] ?h1"
  have l1: "fs_look q ?h1 = fs_look q home" if "\<not> prefix [''.cache''] q" "q \<noteq> []" for q
    using that by (intro remove_if_dir_other) (auto simp: prefix_Cons)
  have d1: "is_dir [] ?h1" using assms(2) by (intro remove_if_dir_dirs) simp_all
  have c1: "fs_look [''.config''] ?h1 = None \<or> is_dir [''.config''] ?h1"
    using assms(3) l1 [of "[''.config'']"] by (simp add: is_dir_def)
  have c2: "is_dir [''.config''] ?h2" using c1 d1 assms(1) by (intro mkdir_unless_dir_makes) simp_all
  have l2: "fs_look q ?h2 = fs_look q ?h1" if "\<not> prefix q [''.config'']" for q
    using c1 that by (rule mkdir_unless_dir_look)
  have f2: "fs_look [''.config'', ''fontconfig''] ?h2 = None \<or> is_dir [''.config'', ''fontconfig''] ?h2"
    using assms(3) l1 [of "[''.config'', ''fontconfig'']"] l2 [of "[''.config'', ''fontconfig'']"]
    by (simp add: is_dir_def)
  show "is_dir [''.config''] (prepared H home)" unfolding prepared_def by (rule mkdir_unless_dir_dirs) (rule c2)
  show "is_dir [''.config'', ''fontconfig''] (prepared H home)"
    unfolding prepared_def using f2 c2 assms(1) by (intro mkdir_unless_dir_makes) simp_all
  assume q: "\<not> prefix [''.cache''] q" "\<not> prefix q [''.config'', ''fontconfig'']"
  then have "\<not> prefix q [''.config'']" "q \<noteq> []" by (auto simp: prefix_Cons)
  with q show "fs_look q (prepared H home) = fs_look q home"
    using mkdir_unless_dir_look [OF f2 q(2)] l2 l1 by (simp add: prepared_def)
qed

text \<open>Where directories are in the way of no file
  and the kernel refuses nothing, each of the seven files that was given has exactly the given text afterwards, and nothing
  outside \<open>.cache\<close> and \<open>.config\<close> is changed.  A file that was not given keeps what it had, although the code means
  to remove it.\<close>

lemma sync_home_files:
  assumes "\<forall>p. creates H p" "is_dir [] home"
    and "\<forall>p \<in> {[''.config''], [''.config'', ''fontconfig'']}. fs_look p home = None \<or> is_dir p home"
    and "\<forall>n \<in> set synced_files. file_or_none (cfg_path n) home"
  shows "(\<forall>n \<in> set synced_files. case args n of
        Some c \<Rightarrow> \<exists>ow. fs_look (cfg_path n) (snd (sync_home H args home)) = Some (TFile ow c)
      | None \<Rightarrow> fs_look (cfg_path n) (snd (sync_home H args home)) = fs_look (cfg_path n) home)
    \<and> (\<forall>q. q \<noteq> [] \<and> \<not> prefix [''.cache''] q \<and> \<not> prefix [''.config''] q \<longrightarrow>
         fs_look q (snd (sync_home H args home)) = fs_look q home)"
proof -
  let ?h = "prepared H home"
  let ?files = "map (\<lambda>n. (cfg_path n, TFile (file_owner H ?h (cfg_path n)) (the (args n)))) (filter (\<lambda>n. args n \<noteq> None) synced_files)"
  have look: "fs_look (cfg_path n) ?h = fs_look (cfg_path n) home" if "n \<in> set synced_files" for n
    using prepared_ready(3) [OF assms(1-3)] cfg_path_shape(2) [OF that] by (simp add: cfg_path_def)
  have ready: "\<forall>n \<in> set synced_files. is_dir (butlast (cfg_path n)) ?h \<and> file_or_none (cfg_path n) ?h"
    using prepared_ready(1,2) [OF assms(1-3)] cfg_path_shape(1) assms(4) look by (fastforce simp: file_or_none_def)
  have result: "snd (sync_home H args home) = store.puts ?files ?h"
    using config_fold_puts [OF synced_paths assms(1) ready] by (simp add: sync_home_def prepared_def)
  have paths: "store.apart (map fst ?files)" "distinct (map fst ?files)"
    "\<forall>q \<in> set (map fst ?files). \<forall>r \<in> set (map fst ?files). \<not> prefix q (butlast r)"
    "\<forall>q \<in> set (map fst ?files). q \<noteq> [] \<and> (\<exists>n. fs_look (butlast q) ?h = Some n \<and> dir_node n)"
    using synced_paths ready unfolding file_paths_def store.apart_def is_dir_iff [symmetric]
    by (auto simp: comp_def distinct_map inj_on_def)
  have "case args n of
        Some c \<Rightarrow> \<exists>ow. fs_look (cfg_path n) (snd (sync_home H args home)) = Some (TFile ow c)
      | None \<Rightarrow> fs_look (cfg_path n) (snd (sync_home H args home)) = fs_look (cfg_path n) home"
    if n: "n \<in> set synced_files" for n
  proof (cases "args n")
    case None
    have "\<not> prefix (cfg_path m) (cfg_path n) \<and> \<not> prefix (cfg_path n) (cfg_path m)" if "m \<in> set synced_files" "args m \<noteq> None" for m
      using synced_paths n that None unfolding file_paths_def store.apart_def distinct_map inj_on_def
      by (metis imageI list.set_map)
    then have "fs_look (cfg_path n) (store.puts ?files ?h) = fs_look (cfg_path n) ?h"
      by (intro store.puts_other) auto
    with None look [OF n] result show ?thesis by simp
  next
    case (Some c)
    have "fs_look (cfg_path n) (store.puts ?files ?h) = Some (TFile (file_owner H ?h (cfg_path n)) (the (args n)))"
      using n Some by (intro store.puts_found paths) auto
    with Some result show ?thesis by auto
  qed
  moreover have "fs_look q (snd (sync_home H args home)) = fs_look q home"
    if q: "q \<noteq> []" "\<not> prefix [''.cache''] q" "\<not> prefix [''.config''] q" for q
  proof -
    have "fs_look q (store.puts ?files ?h) = fs_look q ?h"
      using q by (intro store.puts_other, cases q) (auto simp: cfg_path_def)
    moreover have "\<not> prefix q [''.config'', ''fontconfig'']" using q by (auto simp: prefix_Cons)
    ultimately show ?thesis using prepared_ready(3) [OF assms(1-3) q(2)] result by simp
  qed
  ultimately show ?thesis by blast
qed

definition sample_io :: home_io where
  "sample_io = \<lparr>removes = \<lambda>t. None, creates = \<lambda>p. True, creator = \<lparr>o_uid = 7, o_gid = 8\<rparr>\<rparr>"

lemma sample_home_ready:
  "\<forall>p. creates sample_io p" "is_dir [] sample_home"
  "\<forall>p \<in> {[''.config''], [''.config'', ''fontconfig'']}. fs_look p sample_home = None \<or> is_dir p sample_home"
  "\<forall>n \<in> set synced_files. file_or_none (cfg_path n) sample_home"
proof -
  have "\<forall>p \<in> set (map cfg_path synced_files). file_or_none p sample_home"
    unfolding cfg_paths by (simp add: file_or_none_def sample_home_def)
  then show "\<forall>n \<in> set synced_files. file_or_none (cfg_path n) sample_home" by simp
qed (simp_all add: sample_home_def sample_io_def is_dir_def)

end
