(* ===== verification/Wallpaper_Save.thy ===== *)
theory Wallpaper_Save
  imports Settings_Helper
begin

text \<open>
  Saving the settings: the action \<open>save\<close> of the helper
  (\<open>src/frontend/kcm/auth/plasmaloginauthhelper.cpp\<close>), and the settings page's part in it and in the
  synchronisation (\<open>src/frontend/kcm/kcm.cpp\<close>): which files it names and which descriptors it passes.
\<close>

section \<open>Descriptors\<close>

text \<open>
  A descriptor that came with the call: whether it is valid, what \<open>fcntl(F_GETFL)\<close> says (\<open>None\<close>: it fails;
  otherwise whether it is an \<open>O_PATH\<close> one), what \<open>fstat\<close> says (whether it is a regular file), whether it can be
  opened for reading, and the results of the reads: data, or \<open>None\<close> for an error; at the end of the list a read gives
  no data.
\<close>

record fd_info =
  fd_valid :: bool
  fd_flags :: "bool option"
  fd_stat :: "bool option"
  fd_opens :: bool
  fd_reads :: "string option list"

definition isRegularFd :: "fd_info \<Rightarrow> bool" where
  "isRegularFd fd =
     (case fd_flags fd of
        None \<Rightarrow> False
      | Some o_path \<Rightarrow> if o_path then False else (case fd_stat fd of None \<Rightarrow> False | Some regular \<Rightarrow> regular))"

fun copy_data :: "string option list \<Rightarrow> string \<Rightarrow> bool \<times> string" where
  "copy_data [] out = (True, out)"
| "copy_data (None # reads) out = (False, out)"
| "copy_data (Some data # reads) out = (if data = [] then (True, out) else copy_data reads (out @ data))"

section \<open>The action save\<close>

text \<open>\<open>relativeFilePath.left(relativeFilePath.lastIndexOf("/"))\<close>\<close>

definition parent_path :: "QString \<Rightarrow> QString" where
  "parent_path s = (if CHR ''/'' \<in> set s then rev (tl (dropWhile (\<lambda>c. c \<noteq> CHR ''/'') (rev s))) else s)"

definition relativeFilePath :: "QString \<Rightarrow> QString" where
  "relativeFilePath wallpaper = ''wallpapers/'' @ wallpaper"

fun fs_mkpath :: "home_io \<Rightarrow> fpath \<Rightarrow> fpath \<Rightarrow> tree \<Rightarrow> bool \<times> tree" where
  "fs_mkpath H up [] t = (True, t)"
| "fs_mkpath H up (n # ns) t =
     (if is_dir (up @ [n]) t then fs_mkpath H (up @ [n]) ns t
      else if fst (fs_mkdir H (up @ [n]) t) then fs_mkpath H (up @ [n]) ns (snd (fs_mkdir H (up @ [n]) t))
      else (False, t))"

text \<open>
  \<open>openat2\<close> with \<open>O_CREAT\<close> and \<open>RESOLVE_BENEATH\<close>: an empty name, an absolute one and one that ends in a slash
  are refused.  The path is relative to the wallpaper directory.
\<close>

definition open_beneath :: "home_io \<Rightarrow> QString \<Rightarrow> tree \<Rightarrow> tree option" where
  "open_beneath H name home =
     (if name = [] \<or> hd name = CHR ''/'' \<or> last name = CHR ''/'' then None
      else fs_truncate H (''wallpapers'' # path_parts name) [] home)"

definition write_beneath :: "home_io \<Rightarrow> QString \<Rightarrow> string \<Rightarrow> tree \<Rightarrow> tree" where
  "write_beneath H name data home =
     (case fs_truncate H (''wallpapers'' # path_parts name) data home of None \<Rightarrow> home | Some home1 \<Rightarrow> home1)"

text \<open>One wallpaper: whether the loop goes on, and the home directory.  \<open>wraps\<close>: the descriptor can be made a \<open>QFile\<close>.\<close>

definition save_wallpaper :: "home_io \<Rightarrow> (QString \<Rightarrow> bool) \<Rightarrow> (QString \<rightharpoonup> fd_info) \<Rightarrow> QString \<Rightarrow> tree \<Rightarrow> bool \<times> tree" where
  "save_wallpaper H wraps fds wallpaper home =
     (if contains_str ''..'' wallpaper then (False, home)
      else case fs_mkpath H [] (path_parts (parent_path (relativeFilePath wallpaper))) home of
        (made, home1) \<Rightarrow>
          if \<not> made then (False, home1)
          else case open_beneath H wallpaper home1 of
            None \<Rightarrow> (False, home1)
          | Some home2 \<Rightarrow>
              if \<not> wraps wallpaper then (False, home2)
              else case fds wallpaper of
                None \<Rightarrow> (True, home2)
              | Some fd \<Rightarrow>
                  if \<not> fd_valid fd \<or> \<not> isRegularFd fd then (True, home2)
                  else if \<not> fd_opens fd then (False, home2)
                  else case copy_data (fd_reads fd) [] of
                    (copied, data) \<Rightarrow> (copied, write_beneath H wallpaper data home2))"

fun save_wallpapers :: "home_io \<Rightarrow> (QString \<Rightarrow> bool) \<Rightarrow> (QString \<rightharpoonup> fd_info) \<Rightarrow> QString list \<Rightarrow> tree \<Rightarrow> bool \<times> tree" where
  "save_wallpapers H wraps fds [] home = (True, home)"
| "save_wallpapers H wraps fds (w # ws) home =
     (if fst (save_wallpaper H wraps fds w home) then save_wallpapers H wraps fds ws (snd (save_wallpaper H wraps fds w home))
      else save_wallpaper H wraps fds w home)"

definition clean_wallpapers :: "home_io \<Rightarrow> tree \<Rightarrow> tree" where
  "clean_wallpapers H home = snd (fs_mkdir H [''wallpapers''] (remove_if_dir H [''wallpapers''] home))"

definition save_home ::
  "home_io \<Rightarrow> (QString \<Rightarrow> bool) \<Rightarrow> (QString \<rightharpoonup> fd_info) \<Rightarrow> QString list \<Rightarrow> tree \<Rightarrow> bool \<times> tree" where
  "save_home H wraps fds wallpapers home =
     (let home1 = clean_wallpapers H home in
      if \<not> is_dir [''wallpapers''] home1 then (False, home1) else save_wallpapers H wraps fds wallpapers home1)"

text \<open>The file \<open>PLASMALOGIN_CONFIG_FILE\<close>: its text and whether its permissions are the standard ones.\<close>

record config_file =
  cf_text :: "string option"
  cf_standardPermissions :: bool

definition utf8_size :: "string \<Rightarrow> nat" where
  "utf8_size s = sum_list (map (\<lambda>c. if (of_char c :: nat) < 128 then 1 else 2) s)"

definition helper_save ::
  "helper_env \<Rightarrow> bool \<Rightarrow> (QString \<Rightarrow> bool) \<Rightarrow> QString \<Rightarrow> QString list \<Rightarrow> (QString \<rightharpoonup> fd_info) \<Rightarrow> config_file \<times> tree
    \<Rightarrow> bool \<times> config_file \<times> tree" where
  "helper_save E file_opens wraps config wallpapers fds st =
     (let (file, home) = st; truncated = file\<lparr>cf_text := Some []\<rparr> in
      if \<not> file_opens then (False, file, home)
      else if utf8_size config > 1 * 1024 * 1024 then (False, truncated, home)
      else let (rc, home1) = change_home E (save_home (he_home_io E) wraps fds wallpapers) home
           in (rc, file\<lparr>cf_text := Some config, cf_standardPermissions := True\<rparr>, home1))"

section \<open>The settings page\<close>

text \<open>
  What the page reads of the user's files: whether a path is a directory, the files of a directory, and the descriptor
  an opened file gives (\<open>None\<close>: it cannot be opened).
\<close>

record user_files =
  uf_isDir :: "QString \<Rightarrow> bool"
  uf_entries :: "QString \<Rightarrow> QString list"
  uf_open :: "QString \<Rightarrow> fd_info option"

text \<open>The lambda \<open>addFile\<close>: the list of names, and the descriptors by name.\<close>

definition addFile ::
  "user_files \<Rightarrow> QString \<times> QString \<Rightarrow> QString list \<times> (QString \<rightharpoonup> fd_info) \<Rightarrow> QString list \<times> (QString \<rightharpoonup> fd_info)" where
  "addFile F file args =
     (let (relativePath, fullPath) = file; (files, fds) = args in
      (files @ [relativePath], case uf_open F fullPath of None \<Rightarrow> fds | Some fd \<Rightarrow> fds(relativePath \<mapsto> fd)))"

definition wallpaper_files :: "user_files \<Rightarrow> QString \<Rightarrow> QString \<Rightarrow> (QString \<times> QString) list" where
  "wallpaper_files F baseName imagePath =
     (if uf_isDir F imagePath
      then (baseName @ ''/metadata.json'', imagePath @ ''/metadata.json'')
        # map (\<lambda>f. (baseName @ ''/contents/images/'' @ f, imagePath @ ''/contents/images/'' @ f))
            (uf_entries F (imagePath @ ''/contents/images''))
        @ map (\<lambda>f. (baseName @ ''/contents/images_dark/'' @ f, imagePath @ ''/contents/images_dark/'' @ f))
            (uf_entries F (imagePath @ ''/contents/images_dark''))
      else [(baseName, imagePath)])"

definition syncWallpaper :: "user_files \<Rightarrow> QString \<Rightarrow> QString \<Rightarrow> QString list \<times> (QString \<rightharpoonup> fd_info)" where
  "syncWallpaper F baseName imagePath =
     (if imagePath = [] then ([], Map.empty) else fold (addFile F) (wallpaper_files F baseName imagePath) ([], Map.empty))"

text \<open>The place the configuration then names for the image.\<close>

definition adjusted_image_path :: "login_user \<Rightarrow> QString \<Rightarrow> QString" where
  "adjusted_image_path user baseName = lu_homeDir user @ ''/wallpapers/'' @ baseName"

text \<open>
  \<open>synchronizeSettings\<close>: \<open>locate\<close> is \<open>QStandardPaths::locate\<close> below the configuration directories (empty when
  nothing is found), \<open>read\<close> the text of a file that can be opened.
\<close>

definition addConfigFile ::
  "(QString \<Rightarrow> QString option) \<Rightarrow> QString \<Rightarrow> QString \<Rightarrow> (QString \<rightharpoonup> QString) \<Rightarrow> (QString \<rightharpoonup> QString)" where
  "addConfigFile read path key args =
     (if path = [] then args else (case read path of None \<Rightarrow> args | Some text \<Rightarrow> args(key \<mapsto> text)))"

definition synchronizeSettings ::
  "login_user \<Rightarrow> (QString \<Rightarrow> QString) \<Rightarrow> (QString \<Rightarrow> QString option) \<Rightarrow> (QString \<rightharpoonup> QString) option" where
  "synchronizeSettings user locate read =
     (if lu_homeDir user = [] then None
      else
        let args1 = fold (\<lambda>name. addConfigFile read (locate name) name)
              [''kdeglobals'', ''plasmarc'', ''plasma-localerc'', ''kcminputrc'', ''kwinoutputconfig.json''] Map.empty;
            fontconfigPath = locate ''fontconfig'';
            args2 = (if fontconfigPath \<noteq> []
              then addConfigFile read (fontconfigPath @ ''/fonts.conf'') ''fontconfig/fonts.conf'' args1 else args1)
        in Some (addConfigFile read (locate ''kxkbrc'') ''kxkbrc'' args2))"

section \<open>Nothing outside the wallpaper directory\<close>

lemma split_on_sep: "split_on c (a @ c # b) = split_on c a @ split_on c b"
  by (induction a) (auto split: list.splits)

lemma path_parts_sep: "path_parts (a @ CHR ''/'' # b) = path_parts a @ path_parts b"
  by (simp add: path_parts_def split_on_sep)

lemma dropWhile_all: "\<forall>x \<in> set xs. P x \<Longrightarrow> dropWhile P (xs @ ys) = dropWhile P ys"
  by (induction xs) simp_all

lemma parent_path_sep:
  assumes "CHR ''/'' \<notin> set b"
  shows "parent_path (a @ CHR ''/'' # b) = a"
proof -
  have "\<forall>x \<in> set (rev b). x \<noteq> CHR ''/''" using assms by auto
  from dropWhile_all [OF this, of "CHR ''/'' # rev a"] show ?thesis by (simp add: parent_path_def)
qed

lemma parent_parts_gen:
  "path_parts (parent_path (w @ CHR ''/'' # s)) = path_parts w @ (if CHR ''/'' \<in> set s then path_parts (parent_path s) else [])"
proof (cases "CHR ''/'' \<in> set s")
  case True
  then obtain a b where s: "s = a @ CHR ''/'' # b" "CHR ''/'' \<notin> set b" by (metis split_list_last)
  with True show ?thesis
    using parent_path_sep [OF s(2), of "w @ CHR ''/'' # a"] parent_path_sep [OF s(2), of a] by (simp add: path_parts_sep)
qed (simp add: parent_path_sep)

lemma relativeFilePath_sep: "relativeFilePath s = ''wallpapers'' @ CHR ''/'' # s"
  by (simp add: relativeFilePath_def)

lemma parent_parts:
  "path_parts (parent_path (relativeFilePath s))
    = ''wallpapers'' # (if CHR ''/'' \<in> set s then path_parts (parent_path s) else [])"
proof -
  have "path_parts ''wallpapers'' = [''wallpapers'']" by (simp add: path_parts_def)
  then show ?thesis using parent_parts_gen [of "''wallpapers''" s] by (simp only: relativeFilePath_sep append.simps)
qed

text \<open>Every change is below the wallpaper directory.\<close>

definition outside :: "fpath \<Rightarrow> bool" where
  "outside q \<longleftrightarrow> q \<noteq> [] \<and> \<not> prefix [''wallpapers''] q"

lemma outside_unrelated: "outside q \<Longrightarrow> \<not> prefix (''wallpapers'' # p) q \<and> \<not> prefix q (''wallpapers'' # p)"
  by (cases q) (auto simp: outside_def)

lemma put_outside: "fs_put (''wallpapers'' # p) x t = Some t' \<Longrightarrow> outside q \<Longrightarrow> fs_look q t' = fs_look q t"
  using store.look_put_other outside_unrelated by blast

lemma mkdir_outside: "outside q \<Longrightarrow> fs_look q (snd (fs_mkdir H (''wallpapers'' # p) t)) = fs_look q t"
  by (auto simp: fs_mkdir_def put_outside split: option.splits)

lemma mkpath_outside:
  "outside q \<Longrightarrow> up = ''wallpapers'' # p \<or> up = [] \<and> hd ns = ''wallpapers'' \<Longrightarrow>
    fs_look q (snd (fs_mkpath H up ns t)) = fs_look q t"
proof (induction H up ns t arbitrary: p rule: fs_mkpath.induct)
  case (2 H up n ns t)
  from "2.prems"(2) obtain r where "up @ [n] = ''wallpapers'' # r" by (cases up) auto
  with 2 show ?case by (simp add: mkdir_outside)
qed simp

lemma truncate_outside: "fs_truncate H (''wallpapers'' # p) c t = Some t' \<Longrightarrow> outside q \<Longrightarrow> fs_look q t' = fs_look q t"
  by (auto simp: fs_truncate_def put_outside split: option.splits tree.splits if_splits)

lemma save_wallpaper_outside:
  assumes "outside q"
  shows "fs_look q (snd (save_wallpaper H wraps fds w t)) = fs_look q t"
proof -
  have mk: "fs_look q (snd (fs_mkpath H [] (path_parts (parent_path (relativeFilePath w))) t)) = fs_look q t"
    using assms by (intro mkpath_outside) (simp_all add: parent_parts)
  have op: "fs_look q t2 = fs_look q t1" if "open_beneath H w t1 = Some t2" for t1 t2
    using that truncate_outside assms by (auto simp: open_beneath_def split: if_splits)
  have wr: "fs_look q (write_beneath H w data t2) = fs_look q t2" for data t2
    using truncate_outside assms by (auto simp: write_beneath_def split: option.splits)
  obtain made t1 where m: "fs_mkpath H [] (path_parts (parent_path (relativeFilePath w))) t = (made, t1)" by fastforce
  with mk have "fs_look q t1 = fs_look q t" by simp
  with op wr show ?thesis
    by (simp add: save_wallpaper_def m split: prod.splits option.splits)
qed

lemma save_wallpapers_outside: "outside q \<Longrightarrow> fs_look q (snd (save_wallpapers H wraps fds ws t)) = fs_look q t"
  by (induction H wraps fds ws t rule: save_wallpapers.induct) (simp_all add: save_wallpaper_outside)

lemma clean_outside: "outside q \<Longrightarrow> fs_look q (clean_wallpapers H t) = fs_look q t"
  using outside_unrelated [of q "[]"] by (simp add: clean_wallpapers_def mkdir_outside remove_if_dir_other)



section \<open>The wallpapers are saved\<close>

definition wp_path :: "QString \<Rightarrow> fpath" where
  "wp_path w = ''wallpapers'' # path_parts w"

text \<open>A relative name of plain components, without two dots in a row.\<close>

definition good_name :: "QString \<Rightarrow> bool" where
  "good_name w \<longleftrightarrow> \<not> contains_str ''..'' w \<and> path_parts w = split_on CHR ''/'' w"

definition dir_or_none :: "fpath \<Rightarrow> tree \<Rightarrow> bool" where
  "dir_or_none p t \<longleftrightarrow> fs_look p t = None \<or> is_dir p t"

lemma good_name_parts:
  assumes "good_name w"
  shows "w \<noteq> []" "hd w \<noteq> CHR ''/''" "last w \<noteq> CHR ''/''" "path_parts w \<noteq> []"
    "path_parts (parent_path (relativeFilePath w)) = ''wallpapers'' # butlast (path_parts w)"
proof -
  have parts: "path_parts w = split_on CHR ''/'' w" using assms by (simp add: good_name_def)
  then have "filter (\<lambda>n. n \<noteq> [] \<and> n \<noteq> ''.'') (split_on CHR ''/'' w) = split_on CHR ''/'' w"
    unfolding path_parts_def .
  then have "\<forall>n \<in> set (split_on CHR ''/'' w). n \<noteq> [] \<and> n \<noteq> ''.''" unfolding filter_id_conv .
  then have plain: "n \<noteq> []" "n \<noteq> ''.''" if "n \<in> set (split_on CHR ''/'' w)" for n
    using that by blast+
  show ne: "w \<noteq> []" using plain(1) by auto
  show "hd w \<noteq> CHR ''/''" using plain(1) [of "[]"] ne by (cases w) auto
  show "last w \<noteq> CHR ''/''"
  proof
    assume "last w = CHR ''/''"
    with ne have "w = butlast w @ CHR ''/'' # []" by (metis append_butlast_last_id)
    then have "[] \<in> set (split_on CHR ''/'' w)" using split_on_sep [of "CHR ''/''" "butlast w" "[]"] by simp
    with plain(1) show False by blast
  qed
  show "path_parts w \<noteq> []" using parts by simp
  show "path_parts (parent_path (relativeFilePath w)) = ''wallpapers'' # butlast (path_parts w)"
  proof (cases "CHR ''/'' \<in> set w")
    case True
    then obtain a b where w: "w = a @ CHR ''/'' # b" "CHR ''/'' \<notin> set b" by (metis split_list_last)
    have "split_on CHR ''/'' w = split_on CHR ''/'' a @ [b]" by (simp add: w split_on_sep)
    then have "path_parts b = [b]" using plain [of b] w(2) by (simp add: path_parts_def)
    then have "butlast (path_parts w) = path_parts a" by (simp add: w path_parts_sep)
    with True show ?thesis using parent_path_sep [OF w(2), of a] by (simp add: parent_parts w(1))
  next
    case False
    with parts show ?thesis by (simp add: parent_parts)
  qed
qed

lemma mkpath_makes:
  assumes "\<forall>p. creates H p" "is_dir up t" "\<forall>p. prefix p (up @ ns) \<and> \<not> prefix p up \<longrightarrow> dir_or_none p t"
  shows "fst (fs_mkpath H up ns t) \<and> (\<forall>p. prefix p (up @ ns) \<and> \<not> prefix p up \<longrightarrow> is_dir p (snd (fs_mkpath H up ns t)))
    \<and> (\<forall>q. \<not> prefix q (up @ ns) \<longrightarrow> fs_look q (snd (fs_mkpath H up ns t)) = fs_look q t)
    \<and> (\<forall>q. is_dir q t \<longrightarrow> is_dir q (snd (fs_mkpath H up ns t)))"
  using assms
proof (induction ns arbitrary: up t)
  case (Cons n ns)
  let ?p = "up @ [n]" and ?t = "mkdir_unless_dir H (up @ [n]) t"
  have dn: "fs_look ?p t = None \<or> is_dir ?p t" using Cons.prems(3) by (auto simp: dir_or_none_def prefix_def)
  have made: "is_dir ?p ?t" using dn Cons.prems(1,2) by (intro mkdir_unless_dir_makes) simp_all
  have same: "fs_look q ?t = fs_look q t" if "\<not> prefix q ?p" for q using dn that by (rule mkdir_unless_dir_look)
  have dirs: "is_dir q ?t" if "is_dir q t" for q using that by (rule mkdir_unless_dir_dirs)
  have step: "fs_mkpath H up (n # ns) t = fs_mkpath H ?p ns ?t"
    using made by (auto simp: mkdir_unless_dir_def fs_mkdir_def is_dir_def split: option.splits if_splits)
  have rest: "dir_or_none p ?t" if "prefix p (?p @ ns) \<and> \<not> prefix p ?p" for p
    using Cons.prems(3) that same [of p] by (auto simp: dir_or_none_def is_dir_def)
  from Cons.IH [OF Cons.prems(1) made, of] rest
  have IH: "fst (fs_mkpath H ?p ns ?t)" "\<forall>p. prefix p (?p @ ns) \<and> \<not> prefix p ?p \<longrightarrow> is_dir p (snd (fs_mkpath H ?p ns ?t))"
    "\<forall>q. \<not> prefix q (?p @ ns) \<longrightarrow> fs_look q (snd (fs_mkpath H ?p ns ?t)) = fs_look q ?t"
    "\<forall>q. is_dir q ?t \<longrightarrow> is_dir q (snd (fs_mkpath H ?p ns ?t))"
    by blast+
  have "is_dir p (snd (fs_mkpath H ?p ns ?t))" if "prefix p (up @ n # ns)" "\<not> prefix p up" for p
  proof (cases "prefix p ?p")
    case True
    with that(2) have "p = ?p" by (auto simp: prefix_snoc)
    with made IH(4) show ?thesis by blast
  next
    case False
    with IH(2) that(1) show ?thesis by simp
  qed
  moreover have "fs_look q (snd (fs_mkpath H ?p ns ?t)) = fs_look q t" if "\<not> prefix q (up @ n # ns)" for q
  proof -
    have "prefix ?p (up @ n # ns)" by (simp add: prefix_def)
    with that have "\<not> prefix q ?p" using prefix_order.trans by blast
    with IH(3) same that show ?thesis by simp
  qed
  ultimately show ?case unfolding step using IH(1,4) dirs by blast
qed simp

text \<open>A descriptor that can be read to its end, and the data in it.\<close>

definition good_fd :: "fd_info \<Rightarrow> string \<Rightarrow> bool" where
  "good_fd fd data \<longleftrightarrow> fd_valid fd \<and> isRegularFd fd \<and> fd_opens fd \<and> copy_data (fd_reads fd) [] = (True, data)"

text \<open>The data the loop copies for a name: none when there is no usable descriptor.\<close>

definition gives :: "fd_info option \<Rightarrow> string \<Rightarrow> bool" where
  "gives fd data \<longleftrightarrow>
     (case fd of
        None \<Rightarrow> data = []
      | Some f \<Rightarrow> if fd_valid f \<and> isRegularFd f then fd_opens f \<and> copy_data (fd_reads f) [] = (True, data) else data = [])"

lemma good_fd_gives: "good_fd fd data \<Longrightarrow> gives (Some fd) data"
  by (simp add: good_fd_def gives_def)

lemma copy_data_concat:
  "\<forall>c \<in> set cs. c \<noteq> [] \<Longrightarrow> copy_data (map Some cs) out = (True, out @ concat cs)"
  by (induction cs arbitrary: out) simp_all

lemma is_dir_put_file: "fs_put p x t = Some t' \<Longrightarrow> file_or_none p t \<Longrightarrow> is_dir q t \<Longrightarrow> is_dir q t'"
proof (cases "prefix p q")
  case True
  assume f: "file_or_none p t" and d: "is_dir q t"
  obtain r where q: "q = p @ r" using True by (auto simp: prefix_def)
  from d obtain x where x: "fs_look p t = Some x" by (auto simp: is_dir_iff q look_append split: option.splits)
  with f obtain ow s where "x = TFile ow s" by (auto simp: file_or_none_def split: tree.splits)
  with d x have False by (simp add: is_dir_def q look_append look_leaf split: if_splits)
  then show ?thesis ..
next
  case False
  assume "fs_put p x t = Some t'" "is_dir q t"
  with False show ?thesis using is_dir_put by blast
qed

lemma truncate_file:
  assumes "\<forall>p. creates H p" "file_or_none p t" "p \<noteq> []" "is_dir (butlast p) t"
  obtains t' ow where "fs_truncate H p c t = Some t'" "fs_look p t' = Some (TFile ow c)"
    "\<forall>q. \<not> prefix p q \<and> \<not> prefix q p \<longrightarrow> fs_look q t' = fs_look q t" "\<forall>q. is_dir q t \<longrightarrow> is_dir q t'"
proof -
  obtain t' where t': "fs_truncate H p c t = Some t'" "fs_put p (TFile (file_owner H t p) c) t = Some t'"
    using truncate_put [of H p t c] assms by auto
  show thesis
    using that [OF t'(1) store.look_put [OF t'(2)]] store.look_put_other [OF t'(2)] is_dir_put_file [OF t'(2) assms(2)]
    by blast
qed

lemma strict_prefix_snoc: "strict_prefix q (ns @ [x]) \<longleftrightarrow> prefix q ns"
  by (auto simp: strict_prefix_def prefix_snoc dest: prefix_length_le)

lemma save_wallpaper_good:
  assumes "good_name w" "gives (fds w) data" "wraps w" "\<forall>p. creates H p" "is_dir [] t"
    and "\<forall>p. p \<noteq> [] \<and> strict_prefix p (wp_path w) \<longrightarrow> dir_or_none p t" "file_or_none (wp_path w) t"
  obtains t' ow where "save_wallpaper H wraps fds w t = (True, t')" "fs_look (wp_path w) t' = Some (TFile ow data)"
    "\<forall>q. \<not> prefix (wp_path w) q \<and> \<not> prefix q (wp_path w) \<longrightarrow> fs_look q t' = fs_look q t"
    "\<forall>q. is_dir q t \<longrightarrow> is_dir q t'" "\<forall>q. strict_prefix q (wp_path w) \<longrightarrow> is_dir q t'"
proof -
  note good = good_name_parts [OF assms(1)]
  let ?ns = "''wallpapers'' # butlast (path_parts w)"
  have wp: "wp_path w = ?ns @ [last (path_parts w)]" "butlast (wp_path w) = ?ns" "wp_path w \<noteq> []"
    using good(4) by (simp_all add: wp_path_def)
  have sp: "strict_prefix q (wp_path w) \<longleftrightarrow> prefix q ?ns" for q
    unfolding wp(1) by (rule strict_prefix_snoc)
  have mkpre: "\<forall>p. prefix p ([] @ ?ns) \<and> \<not> prefix p [] \<longrightarrow> dir_or_none p t"
    using assms(6) sp by auto
  obtain made t1 where m: "fs_mkpath H [] ?ns t = (made, t1)" by fastforce
  from mkpath_makes [OF assms(4,5) mkpre] m
  have made: made "\<forall>p. prefix p ?ns \<and> p \<noteq> [] \<longrightarrow> is_dir p t1" "\<forall>q. \<not> prefix q ?ns \<longrightarrow> fs_look q t1 = fs_look q t"
    "\<forall>q. is_dir q t \<longrightarrow> is_dir q t1" by auto
  have below: "is_dir q t1" if "prefix q ?ns" for q using made(2,4) assms(5) that by (cases "q = []") auto
  have wpn: "\<not> prefix (wp_path w) ?ns" unfolding wp(1) by (auto simp: prefix_def)
  have file1: "file_or_none (wp_path w) t1" "is_dir (butlast (wp_path w)) t1"
    using assms(7) made(3) wpn below [of ?ns] by (simp_all add: file_or_none_def wp(2))
  obtain t2 ow2 where t2: "fs_truncate H (wp_path w) [] t1 = Some t2" "fs_look (wp_path w) t2 = Some (TFile ow2 [])"
    "\<forall>q. \<not> prefix (wp_path w) q \<and> \<not> prefix q (wp_path w) \<longrightarrow> fs_look q t2 = fs_look q t1" "\<forall>q. is_dir q t1 \<longrightarrow> is_dir q t2"
    using truncate_file [OF assms(4) file1(1) wp(3) file1(2)] by blast
  have file2: "file_or_none (wp_path w) t2" "is_dir (butlast (wp_path w)) t2"
    using t2(2,4) file1(2) by (simp_all add: file_or_none_def)
  obtain t3 ow3 where t3: "fs_truncate H (wp_path w) data t2 = Some t3" "fs_look (wp_path w) t3 = Some (TFile ow3 data)"
    "\<forall>q. \<not> prefix (wp_path w) q \<and> \<not> prefix q (wp_path w) \<longrightarrow> fs_look q t3 = fs_look q t2" "\<forall>q. is_dir q t2 \<longrightarrow> is_dir q t3"
    using truncate_file [OF assms(4) file2(1) wp(3) file2(2)] by blast
  have dots: "\<not> contains_str ''..'' w" using assms(1) by (simp add: good_name_def)
  have open_write: "open_beneath H w t1 = Some t2" "write_beneath H w data t2 = t3"
    using good(1-3) t2(1) t3(1) by (simp_all add: open_beneath_def write_beneath_def wp_path_def)
  let ?usable = "\<exists>f. fds w = Some f \<and> fd_valid f \<and> isRegularFd f"
  have run: "save_wallpaper H wraps fds w t = (True, if ?usable then t3 else t2)"
    using assms(2,3) dots made(1) m open_write unfolding save_wallpaper_def good(5)
    by (auto simp: gives_def split: option.splits)
  have data: "data = []" if "\<not> ?usable" using that assms(2) by (auto simp: gives_def split: option.splits if_splits)
  have other: "fs_look q t3 = fs_look q t" "fs_look q t2 = fs_look q t" if "\<not> prefix (wp_path w) q" "\<not> prefix q (wp_path w)" for q
  proof -
    have "\<not> prefix q ?ns" using that(2) sp by (auto simp: strict_prefix_def)
    with that t2(3) t3(3) made(3) show "fs_look q t3 = fs_look q t" "fs_look q t2 = fs_look q t" by simp_all
  qed
  show thesis
  proof (cases ?usable)
    case True
    show thesis
      by (rule that [OF _ t3(2)]) (use True run other sp below made(4) t2(4) t3(4) in auto)
  next
    case False
    show thesis
      by (rule that [of t2 ow2]) (use False run data t2(2) other sp below made(4) t2(4) in auto)
  qed
qed

text \<open>Names whose files do not lie below each other.\<close>

definition good_names :: "QString list \<Rightarrow> bool" where
  "good_names ws \<longleftrightarrow> (\<forall>w \<in> set ws. good_name w) \<and> distinct (map wp_path ws) \<and> store.apart (map wp_path ws)"

lemma good_names_Cons:
  "good_names (w # ws) \<longleftrightarrow> good_name w \<and> good_names ws
     \<and> (\<forall>v \<in> set ws. \<not> prefix (wp_path w) (wp_path v) \<and> \<not> prefix (wp_path v) (wp_path w))"
  by (auto simp: good_names_def store.apart_def image_iff)

lemma save_wallpapers_good:
  assumes "good_names ws" "\<forall>w \<in> set ws. wraps w \<and> gives (fds w) (data w)"
    and "\<forall>p. creates H p" "is_dir [] t"
    and "\<forall>w \<in> set ws. file_or_none (wp_path w) t \<and> (\<forall>p. p \<noteq> [] \<and> strict_prefix p (wp_path w) \<longrightarrow> dir_or_none p t)"
  shows "fst (save_wallpapers H wraps fds ws t)
    \<and> (\<forall>w \<in> set ws. \<exists>ow. fs_look (wp_path w) (snd (save_wallpapers H wraps fds ws t)) = Some (TFile ow (data w)))
    \<and> (\<forall>q. (\<forall>w \<in> set ws. \<not> prefix (wp_path w) q \<and> \<not> prefix q (wp_path w)) \<longrightarrow>
         fs_look q (snd (save_wallpapers H wraps fds ws t)) = fs_look q t)"
  using assms
proof (induction ws arbitrary: t)
  case (Cons w ws)
  from Cons.prems(2) have fd: "gives (fds w) (data w)" "wraps w" by auto
  have gn: "good_name w" "good_names ws"
    and apart: "\<forall>v \<in> set ws. \<not> prefix (wp_path w) (wp_path v) \<and> \<not> prefix (wp_path v) (wp_path w)"
    using Cons.prems(1) unfolding good_names_Cons by blast+
  obtain t' ow where w: "save_wallpaper H wraps fds w t = (True, t')" "fs_look (wp_path w) t' = Some (TFile ow (data w))"
    "\<forall>q. \<not> prefix (wp_path w) q \<and> \<not> prefix q (wp_path w) \<longrightarrow> fs_look q t' = fs_look q t"
    "\<forall>q. is_dir q t \<longrightarrow> is_dir q t'" "\<forall>q. strict_prefix q (wp_path w) \<longrightarrow> is_dir q t'"
    using save_wallpaper_good [of w fds "data w" wraps H t thesis] gn(1) fd Cons.prems(3-5) by (metis list.set_intros(1))
  have pre: "\<forall>v \<in> set ws. file_or_none (wp_path v) t' \<and> (\<forall>p. p \<noteq> [] \<and> strict_prefix p (wp_path v) \<longrightarrow> dir_or_none p t')"
  proof (intro ballI conjI allI impI)
    fix v assume v: "v \<in> set ws"
    with Cons.prems(5) w(3) apart show "file_or_none (wp_path v) t'" by (simp add: file_or_none_def)
    fix p assume p: "p \<noteq> [] \<and> strict_prefix p (wp_path v)"
    show "dir_or_none p t'"
    proof (cases "prefix p (wp_path w)")
      case True
      with apart v p have "strict_prefix p (wp_path w)" by (auto simp: strict_prefix_def)
      with w(5) show ?thesis by (simp add: dir_or_none_def)
    next
      case False
      moreover have "\<not> prefix (wp_path w) p" using apart v p by (meson prefix_order.trans strict_prefix_def)
      ultimately have "fs_look p t' = fs_look p t" using w(3) by blast
      with Cons.prems(5) v p show ?thesis by (simp add: dir_or_none_def is_dir_def)
    qed
  qed
  have dir': "is_dir [] t'" using w(4) Cons.prems(4) by blast
  have rest: "\<forall>v \<in> set ws. wraps v \<and> gives (fds v) (data v)" using Cons.prems(2) by simp
  have IH: "fst (save_wallpapers H wraps fds ws t')"
    "\<forall>v \<in> set ws. \<exists>ow. fs_look (wp_path v) (snd (save_wallpapers H wraps fds ws t')) = Some (TFile ow (data v))"
    "\<forall>q. (\<forall>v \<in> set ws. \<not> prefix (wp_path v) q \<and> \<not> prefix q (wp_path v)) \<longrightarrow>
         fs_look q (snd (save_wallpapers H wraps fds ws t')) = fs_look q t'"
    using Cons.IH [OF gn(2) rest Cons.prems(3) dir' pre] by blast+
  have "fs_look (wp_path w) (snd (save_wallpapers H wraps fds ws t')) = Some (TFile ow (data w))"
    using IH(3) apart w(2) by simp
  with IH w(1,3) show ?case by simp
qed simp

text \<open>When the kernel refuses nothing, the names are plain relative paths
  none of which lies below another, and every descriptor can be read to its end, the action goes through all of them and each
  file below \<open>wallpapers\<close> holds exactly the data of its descriptor, whatever was in the directory before.\<close>

lemma save_home_good:
  assumes "good_names ws" "\<forall>w \<in> set ws. wraps w \<and> gives (fds w) (data w)"
    and "\<forall>p. creates H p" "\<forall>t. removes H t = None" "is_dir [] home" "dir_or_none [''wallpapers''] home"
  shows "fst (save_home H wraps fds ws home)
    \<and> (\<forall>w \<in> set ws. \<exists>ow. fs_look (wp_path w) (snd (save_home H wraps fds ws home)) = Some (TFile ow (data w)))"
proof -
  let ?h1 = "remove_if_dir H [''wallpapers''] home"
  have n1: "fs_look [''wallpapers''] ?h1 = None"
    using assms(4,6) look_del_below [of "[''wallpapers'']" "[''wallpapers'']" home]
    by (auto simp: remove_if_dir_def remove_dir_def dir_or_none_def is_dir_def split: option.splits)
  have d1: "is_dir [] ?h1" using assms(5) by (intro remove_if_dir_dirs) simp_all
  have h2: "clean_wallpapers H home = mkdir_unless_dir H [''wallpapers''] ?h1"
    using n1 by (simp add: clean_wallpapers_def mkdir_unless_dir_def is_dir_def)
  have w: "is_dir [''wallpapers''] (clean_wallpapers H home)"
    unfolding h2 using n1 d1 assms(3) by (intro mkdir_unless_dir_makes) simp_all
  have r: "is_dir [] (clean_wallpapers H home)" unfolding h2 using d1 by (rule mkdir_unless_dir_dirs)
  have none: "fs_look (''wallpapers'' # n # p) (clean_wallpapers H home) = None" for n p
  proof -
    have "fs_look (''wallpapers'' # n # p) ?h1 = None"
      using look_append [of "[''wallpapers'']" "n # p" ?h1] n1 by simp
    moreover have "fs_look (''wallpapers'' # n # p) (mkdir_unless_dir H [''wallpapers''] ?h1) = fs_look (''wallpapers'' # n # p) ?h1"
      using n1 by (intro mkdir_unless_dir_look) simp_all
    ultimately show ?thesis by (simp add: h2)
  qed
  have pre: "\<forall>v \<in> set ws. file_or_none (wp_path v) (clean_wallpapers H home)
      \<and> (\<forall>p. p \<noteq> [] \<and> strict_prefix p (wp_path v) \<longrightarrow> dir_or_none p (clean_wallpapers H home))"
  proof (intro ballI conjI allI impI)
    fix v assume "v \<in> set ws"
    then have "path_parts v \<noteq> []" using assms(1) good_name_parts(4) by (auto simp: good_names_def)
    then show "file_or_none (wp_path v) (clean_wallpapers H home)"
      using none by (cases "path_parts v") (simp_all add: wp_path_def file_or_none_def)
    fix p assume "p \<noteq> [] \<and> strict_prefix p (wp_path v)"
    then obtain q where "p = ''wallpapers'' # q" by (cases p) (auto simp: wp_path_def)
    then show "dir_or_none p (clean_wallpapers H home)"
      using w none by (cases q) (simp_all add: dir_or_none_def)
  qed
  from save_wallpapers_good [OF assms(1,2,3) r pre] w show ?thesis by (simp add: save_home_def Let_def)
qed

section \<open>From the user's files to the greeter's\<close>

lemma addFile_eq:
  "addFile F (rel, full) (names, fds)
    = (names @ [rel], case uf_open F full of None \<Rightarrow> fds | Some fd \<Rightarrow> fds(rel \<mapsto> fd))"
  by (simp add: addFile_def)

lemma addFile_names: "fst (fold (addFile F) fs (names, fds)) = names @ map fst fs"
  by (induction fs arbitrary: names fds) (auto simp: addFile_eq)

lemma addFile_fds:
  "distinct (map fst fs) \<Longrightarrow> snd (fold (addFile F) fs (names, fds)) n =
      (case map_of fs n of None \<Rightarrow> fds n | Some full \<Rightarrow> (case uf_open F full of None \<Rightarrow> fds n | Some fd \<Rightarrow> Some fd))"
proof (induction fs arbitrary: names fds)
  case (Cons f fs)
  obtain rel full where f: "f = (rel, full)" by fastforce
  with Cons.prems have "map_of fs rel = None" by (simp add: map_of_eq_None_iff)
  with f Cons show ?case by (cases "n = rel") (simp_all add: addFile_eq split: option.splits)
qed simp

lemma picture_saved:
  assumes "imagePath \<noteq> []" "good_names (map fst (wallpaper_files F baseName imagePath))"
    and "\<forall>f \<in> set (wallpaper_files F baseName imagePath). gives (uf_open F (snd f)) (data (snd f))"
    and "\<forall>p. creates H p" "\<forall>t. removes H t = None" "is_dir [] home" "dir_or_none [''wallpapers''] home"
    and "syncWallpaper F baseName imagePath = (ws, fds)"
  shows "fst (save_home H (\<lambda>w. True) fds ws home)
    \<and> (\<forall>f \<in> set (wallpaper_files F baseName imagePath).
         \<exists>ow. fs_look (wp_path (fst f)) (snd (save_home H (\<lambda>w. True) fds ws home)) = Some (TFile ow (data (snd f))))"
proof -
  let ?fs = "wallpaper_files F baseName imagePath"
  note s = assms(8)
  have d: "distinct (map fst ?fs)" using assms(2) unfolding good_names_def by (metis distinct_map)
  have ws: "ws = map fst ?fs" and fds: "fds n = (case map_of ?fs n of None \<Rightarrow> None | Some full \<Rightarrow> uf_open F full)" for n
    using addFile_names [of F ?fs "[]" Map.empty] addFile_fds [OF d, of F "[]" Map.empty] s assms(1)
    by (auto simp: syncWallpaper_def prod_eq_iff split: option.splits)
  have full: "map_of ?fs (fst f) = Some (snd f)" if "f \<in> set ?fs" for f
    using d that by (simp add: map_of_eq_Some_iff)
  have "\<forall>w \<in> set ws. True \<and> gives (fds w) (data (the (map_of ?fs w)))"
    using assms(3) full by (auto simp: ws fds)
  with save_home_good [of ws "\<lambda>w. True" fds "\<lambda>w. data (the (map_of ?fs w))" H home] assms(2,4-7)
  have "fst (save_home H (\<lambda>w. True) fds ws home)"
    "\<forall>w \<in> set ws. \<exists>ow. fs_look (wp_path w) (snd (save_home H (\<lambda>w. True) fds ws home)) = Some (TFile ow (data (the (map_of ?fs w))))"
    by (simp_all add: ws)
  with full show ?thesis by (auto simp: ws)
qed

text \<open>The user's wallpaper reaches the greeter.  The settings page names the files of the picture (one image, or
  the parts of a wallpaper package) and passes their descriptors, and the helper, running as the greeter's user, puts them into
  its home: if the names are plain, the files can be read and the kernel refuses nothing, every file of the picture is
  below \<open>wallpapers\<close> with exactly the data the user's file has, whatever was there before.\<close>

theorem wallpaper_reaches_greeter:
  assumes "imagePath \<noteq> []" "good_names (map fst (wallpaper_files F baseName imagePath))"
    and "\<forall>f \<in> set (wallpaper_files F baseName imagePath). \<exists>fd. uf_open F (snd f) = Some fd \<and> good_fd fd (data (snd f))"
    and "\<forall>p. creates H p" "\<forall>t. removes H t = None" "is_dir [] home" "dir_or_none [''wallpapers''] home"
  shows "case syncWallpaper F baseName imagePath of (ws, fds) \<Rightarrow>
    fst (save_home H (\<lambda>w. True) fds ws home)
    \<and> (\<forall>f \<in> set (wallpaper_files F baseName imagePath).
         \<exists>ow. fs_look (wp_path (fst f)) (snd (save_home H (\<lambda>w. True) fds ws home)) = Some (TFile ow (data (snd f))))"
proof -
  obtain ws fds where s: "syncWallpaper F baseName imagePath = (ws, fds)" by fastforce
  have "\<forall>f \<in> set (wallpaper_files F baseName imagePath). gives (uf_open F (snd f)) (data (snd f))"
    using assms(3) good_fd_gives by metis
  from picture_saved [OF assms(1,2) this assms(4-7) s] show ?thesis by (simp add: s)
qed

definition sample_picture :: user_files where
  "sample_picture = \<lparr>uf_isDir = (\<lambda>p. False), uf_entries = (\<lambda>p. []),
     uf_open = (\<lambda>p. Some \<lparr>fd_valid = True, fd_flags = Some False, fd_stat = Some True, fd_opens = True,
       fd_reads = [Some ''ab'', Some ''c'']\<rparr>)\<rparr>"

lemma wallpaper_reaches_greeter_witness:
  "case syncWallpaper sample_picture ''sea.png'' ''/home/joe/sea.png'' of (ws, fds) \<Rightarrow>
    fst (save_home sample_io (\<lambda>w. True) fds ws sample_home)
    \<and> (\<exists>ow. fs_look (wp_path ''sea.png'') (snd (save_home sample_io (\<lambda>w. True) fds ws sample_home)) = Some (TFile ow ''abc''))"
proof -
  have files: "wallpaper_files sample_picture ''sea.png'' ''/home/joe/sea.png'' = [(''sea.png'', ''/home/joe/sea.png'')]"
    by (simp add: wallpaper_files_def sample_picture_def)
  have name: "good_names [''sea.png'']"
    by (simp add: good_names_def good_name_def starts_with_def store.apart_def path_parts_def)
  have fd: "\<exists>fd. uf_open sample_picture p = Some fd \<and> good_fd fd ''abc''" for p
    by (simp add: sample_picture_def good_fd_def isRegularFd_def)
  have "case syncWallpaper sample_picture ''sea.png'' ''/home/joe/sea.png'' of (ws, fds) \<Rightarrow>
    fst (save_home sample_io (\<lambda>w. True) fds ws sample_home)
    \<and> (\<forall>f \<in> set [(''sea.png'', ''/home/joe/sea.png'')].
        \<exists>ow. fs_look (wp_path (fst f)) (snd (save_home sample_io (\<lambda>w. True) fds ws sample_home)) = Some (TFile ow ''abc''))"
    using wallpaper_reaches_greeter [of "''/home/joe/sea.png''" sample_picture "''sea.png''" "\<lambda>p. ''abc''" sample_io sample_home]
      fd name sample_home_ready(1,2)
    by (simp only: files list.map fst_conv) (simp add: sample_io_def dir_or_none_def sample_home_def)
  then show ?thesis by (simp add: split_def)
qed

text \<open>What the user has of the files that are synchronised.\<close>

definition user_text :: "(QString \<Rightarrow> QString) \<Rightarrow> (QString \<Rightarrow> QString option) \<Rightarrow> QString \<Rightarrow> QString option" where
  "user_text locate read name =
     (let path = (if name = ''fontconfig/fonts.conf''
        then (if locate ''fontconfig'' = [] then [] else locate ''fontconfig'' @ ''/fonts.conf'') else locate name)
      in if path = [] then None else read path)"

lemma addConfigFile_apply:
  "addConfigFile read path key args n =
     (if n = key \<and> path \<noteq> [] \<and> read path \<noteq> None then read path else args n)"
  by (auto simp: addConfigFile_def split: option.splits)

lemma addConfigFile_fold:
  "fold (\<lambda>name. addConfigFile read (locate name) name) names args n =
     (if n \<in> set names \<and> locate n \<noteq> [] \<and> read (locate n) \<noteq> None then read (locate n) else args n)"
  by (induction names arbitrary: args) (auto simp: addConfigFile_apply)

lemma sync_args:
  assumes "a \<noteq> b" "a \<notin> set names" "b \<notin> set names" "n = a \<or> n = b \<or> n \<in> set names"
  shows "addConfigFile read (locate b) b
      (if font \<noteq> [] then addConfigFile read (font @ file) a (fold (\<lambda>name. addConfigFile read (locate name) name) names Map.empty)
       else fold (\<lambda>name. addConfigFile read (locate name) name) names Map.empty) n
    = (let path = (if n = a then (if font = [] then [] else font @ file) else locate n) in if path = [] then None else read path)"
  using assms by (cases "font = []") (auto simp: addConfigFile_apply addConfigFile_fold Let_def)

lemma synchronizeSettings_args:
  assumes "synchronizeSettings user locate read = Some args" "n \<in> set synced_files"
  shows "args n = user_text locate read n"
proof -
  let ?names = "[''kdeglobals'', ''plasmarc'', ''plasma-localerc'', ''kcminputrc'', ''kwinoutputconfig.json'']"
  have keys: "''fontconfig/fonts.conf'' \<noteq> ''kxkbrc''" "''fontconfig/fonts.conf'' \<notin> set ?names" "''kxkbrc'' \<notin> set ?names"
    "n = ''fontconfig/fonts.conf'' \<or> n = ''kxkbrc'' \<or> n \<in> set ?names"
    using assms(2) by (auto simp: synced_files_def)
  have "args = addConfigFile read (locate ''kxkbrc'') ''kxkbrc''
      (if locate ''fontconfig'' \<noteq> []
       then addConfigFile read (locate ''fontconfig'' @ ''/fonts.conf'') ''fontconfig/fonts.conf''
         (fold (\<lambda>name. addConfigFile read (locate name) name) ?names Map.empty)
       else fold (\<lambda>name. addConfigFile read (locate name) name) ?names Map.empty)"
    using assms(1) unfolding synchronizeSettings_def Let_def by (cases "lu_homeDir user = []") (simp_all del: fold_simps)
  then show ?thesis using sync_args [OF keys] unfolding user_text_def by (simp only:)
qed



section \<open>A save that is refused half way\<close>

text \<open>A configuration that is too big is lost.  The helper truncates the file before it looks at the size, so a
  text of more than one MiB leaves the system's configuration empty, and the caller is told of an error.\<close>

theorem oversized_config_lost:
  assumes "utf8_size config > 1024 * 1024"
  shows "helper_save E True wraps config ws fds (file, home) = (False, file\<lparr>cf_text := Some []\<rparr>, home)"
  using assms by (simp add: helper_save_def Let_def)

lemma utf8_size_replicate: "(of_char c :: nat) < 128 \<Longrightarrow> utf8_size (replicate n c) = n"
  by (induction n) (simp_all add: utf8_size_def)

definition sample_helper_env :: helper_env where
  "sample_helper_env = \<lparr>he_user = \<lparr>lu_valid = True, lu_uid = 7, lu_gid = 8, lu_homeDir = ''/h''\<rparr>,
     he_child = \<lparr>ce_fork = True, ce_setgid = True, ce_setuid = True, ce_waitpid = True\<rparr>, he_home_opens = True,
     he_own_io = kind_io, he_home_io = sample_io\<rparr>"

lemma oversized_config_lost_witness:
  "helper_save sample_helper_env True (\<lambda>w. True) (replicate 1048577 CHR ''x'') [] Map.empty
     (\<lparr>cf_text = Some ''[Greeter]'', cf_standardPermissions = True\<rparr>, sample_home)
   = (False, \<lparr>cf_text = Some [], cf_standardPermissions = True\<rparr>, sample_home)"
proof -
  have "utf8_size (replicate 1048577 CHR ''x'') > 1024 * 1024" using utf8_size_replicate [of "CHR ''x''" 1048577] by simp
  from oversized_config_lost [OF this] show ?thesis by simp
qed

text \<open>A picture with two dots in a row in its name cannot be used.  A harmless name such as
  \<open>sea..png\<close> is taken for a path that leads upwards: when the helper gets as far as the wallpapers the
  configuration has already been replaced, the old wallpapers are removed, and then the action fails.\<close>

theorem dotted_wallpaper_refused:
  assumes "contains_str ''..'' w" "utf8_size config \<le> 1024 * 1024"
  shows "case helper_save E True wraps config (w # ws) fds (cfg, home) of (reply, cfg', home') \<Rightarrow>
    \<not> reply \<and> cf_text cfg' = Some config
    \<and> (\<forall>owned. plasmaloginUserHomeDir (he_user E) \<noteq> None
         \<and> adjustPermissionsFromPlasma6_6 (he_user E) (he_home_opens E) (he_own_io E) home = (True, owned)
         \<and> lu_valid (he_user E) \<and> ce_fork (he_child E) \<and> ce_setgid (he_child E) \<and> ce_setuid (he_child E)
         \<longrightarrow> home' = clean_wallpapers (he_home_io E) owned)"
proof -
  have refuse: "save_home (he_home_io E) wraps fds (w # ws) t = (False, clean_wallpapers (he_home_io E) t)" for t
    using assms(1) by (simp add: save_home_def save_wallpaper_def Let_def)
  have no: "\<not> fst (change_home E (save_home (he_home_io E) wraps fds (w # ws)) home)"
    by (auto simp: change_home_def runAsPlasmaLoginUser_def refuse split: option.splits prod.splits)
  have home': "snd (change_home E (save_home (he_home_io E) wraps fds (w # ws)) home) = clean_wallpapers (he_home_io E) owned"
    if "plasmaloginUserHomeDir (he_user E) \<noteq> None"
      "adjustPermissionsFromPlasma6_6 (he_user E) (he_home_opens E) (he_own_io E) home = (True, owned)"
      "lu_valid (he_user E)" "ce_fork (he_child E)" "ce_setgid (he_child E)" "ce_setuid (he_child E)" for owned
    using that by (auto simp: change_home_def runAsPlasmaLoginUser_def refuse split: option.splits)
  show ?thesis
    using no home' assms(2) unfolding helper_save_def by (simp add: split_def Let_def)
qed

lemma dotted_wallpaper_refused_witness:
  "case helper_save sample_helper_env True (\<lambda>w. True) ''[Greeter]'' [''sea..png''] Map.empty
      (\<lparr>cf_text = None, cf_standardPermissions = True\<rparr>, sample_home) of (reply, file', home') \<Rightarrow>
    \<not> reply \<and> cf_text file' = Some ''[Greeter]''"
proof -
  have "contains_str ''..'' ''sea..png''" by (simp add: starts_with_def)
  moreover have "utf8_size ''[Greeter]'' \<le> 1024 * 1024" by (simp add: utf8_size_def)
  ultimately show ?thesis
    using dotted_wallpaper_refused [where w = "''sea..png''" and config = "''[Greeter]''" and E = sample_helper_env
        and wraps = "\<lambda>w. True" and ws = "[]" and fds = Map.empty
        and cfg = "\<lparr>cf_text = None, cf_standardPermissions = True\<rparr>" and home = sample_home]
    by (simp add: split_def)
qed

end
