(* ===== verification/Settings_Module.thy ===== *)
theory Settings_Module
  imports Wallpaper_Save Login_Settings
begin

text \<open>
  The settings page (\<open>src/frontend/kcm/kcm.cpp\<close>, \<open>plasmalogindata.cpp\<close>): what it writes into the
  configuration it hands to the helper, when it tells the base class that something changed, and what it does with the
  helper's reply.

  A configuration is an association list of values by group and key; a group is the list of names that leads to it.
  QUrl and the text KConfig makes of a configuration are parameters.
\<close>

section \<open>The configuration to be saved\<close>

type_synonym kgroup = "QString list"
type_synonym kentries = "((kgroup \<times> QString) \<times> QString) list"

text \<open>An item of a settings object; for an item of the wallpaper only its key counts.\<close>

record setting_item =
  si_group :: QString
  si_key :: QString
  si_isDefault :: bool
  si_property :: QString

record image_url =
  iu_isLocalFile :: bool
  iu_fileName :: QString
  iu_toLocalFile :: QString
  iu_fragment :: QString

text \<open>
  \<open>ke_url\<close> reads a text as a URL, without a slash at its end; \<open>ke_file_url\<close> is the text of a file's URL
  with a fragment; \<open>ke_text\<close> the text of the temporary file after \<open>sync\<close>, \<open>None\<close> when it cannot be opened.
\<close>

record kcm_env =
  ke_tempDir :: bool
  ke_items :: "setting_item list"
  ke_wallpaperItems :: "setting_item list"
  ke_configuration :: "QString \<Rightarrow> QString"
  ke_pluginId :: QString
  ke_url :: "QString \<Rightarrow> image_url"
  ke_file_url :: "QString \<Rightarrow> QString \<Rightarrow> QString"
  ke_user :: login_user
  ke_files :: user_files
  ke_text :: "kentries \<Rightarrow> QString option"

definition writeEntry :: "(kgroup \<times> QString) \<times> QString \<Rightarrow> kentries \<Rightarrow> kentries" where
  "writeEntry e cfg = AList.update (fst e) (snd e) cfg"

definition wallpaper_group :: "QString \<Rightarrow> kgroup" where
  "wallpaper_group pluginId = [''Greeter'', ''Wallpaper'', pluginId, ''General'']"

text \<open>The two loops: the entries written, in order.\<close>

definition settings_entries :: "kcm_env \<Rightarrow> kentries" where
  "settings_entries E =
     map (\<lambda>i. (([si_group i], si_key i), si_property i)) (filter (\<lambda>i. \<not> si_isDefault i) (ke_items E))"

definition wallpaper_entries :: "kcm_env \<Rightarrow> kentries" where
  "wallpaper_entries E =
     map (\<lambda>i. ((wallpaper_group (ke_pluginId E), si_key i), ke_configuration E (si_key i)))
       (filter (\<lambda>i. \<not> si_isDefault i) (ke_wallpaperItems E))"

definition written_config :: "kcm_env \<Rightarrow> kentries" where
  "written_config E = fold writeEntry (settings_entries E @ wallpaper_entries E) []"

text \<open>A group exists when it or a group below it has an entry.\<close>

definition group_exists :: "kgroup \<Rightarrow> kentries \<Rightarrow> bool" where
  "group_exists g cfg \<longleftrightarrow> (\<exists>e \<in> set cfg. take (length g) (fst (fst e)) = g)"

definition image_group :: kgroup where
  "image_group = wallpaper_group ''org.kde.image''"

definition readImage :: "kentries \<Rightarrow> QString" where
  "readImage cfg = (case map_of cfg (image_group, ''Image'') of None \<Rightarrow> [] | Some v \<Rightarrow> v)"

definition greeter_image :: "kcm_env \<Rightarrow> image_url \<Rightarrow> QString" where
  "greeter_image E u = ke_file_url E (adjusted_image_path (ke_user E) (iu_fileName u)) (iu_fragment u)"

definition copy_image :: "kcm_env \<Rightarrow> kentries \<Rightarrow> kentries \<times> QString list \<times> (QString \<rightharpoonup> fd_info)" where
  "copy_image E cfg =
     (if \<not> group_exists (butlast image_group) cfg then (cfg, [], Map.empty)
      else
        let cfg1 = AList.delete (image_group, ''PreviewImage'') cfg;
            imageUri = ke_url E (readImage cfg1)
        in if \<not> iu_isLocalFile imageUri then (cfg1, [], Map.empty)
           else (writeEntry ((image_group, ''Image''), greeter_image E imageUri) cfg1,
                 syncWallpaper (ke_files E) (iu_fileName imageUri) (iu_toLocalFile imageUri)))"

datatype kcm_error = NoTempDir | ConfigUnreadable | NoUser | JobError QString

definition kcm_save :: "kcm_env \<Rightarrow> kcm_error + QString \<times> QString list \<times> (QString \<rightharpoonup> fd_info)" where
  "kcm_save E =
     (if \<not> ke_tempDir E then Inl NoTempDir
      else
        let (cfg, args) = copy_image E (written_config E);
            configHasContent = (settings_entries E @ wallpaper_entries E \<noteq> [])
        in if configHasContent
           then (case ke_text E cfg of None \<Rightarrow> Inl ConfigUnreadable | Some config \<Rightarrow> Inr (config, args))
           else Inr ([], args))"

section \<open>The state of the page\<close>

record Kcm =
  km_wallpaperSettings :: WallpaperSettings
  km_forceUpdateState :: bool

datatype kcm_effect =
    BaseLoad
  | BaseDefaults
  | WallpaperEffect wallpaper_effect
  | SettingsChanged bool bool
  | IsDefaultsWallpaperChanged
  | LoadCalled
  | DefaultsCalled
  | ErrorOccurred kcm_error
  | SetNeedsSave bool
  | ExecuteSync "QString \<rightharpoonup> QString"
  | ExecuteReset
  | SyncAttempted

record skeleton_state =
  sk_isSaveNeeded :: "nat \<Rightarrow> bool"
  sk_isDefaults :: "nat \<Rightarrow> bool"

definition kcm_isSaveNeeded :: "skeleton_state \<Rightarrow> Kcm \<Rightarrow> bool" where
  "kcm_isSaveNeeded sk k \<longleftrightarrow> km_forceUpdateState k \<or> wallpaper_isSaveNeeded (sk_isSaveNeeded sk) (km_wallpaperSettings k)"

definition kcm_isDefaults :: "skeleton_state \<Rightarrow> Kcm \<Rightarrow> bool" where
  "kcm_isDefaults sk k \<longleftrightarrow> wallpaper_isDefaults (sk_isDefaults sk) (km_wallpaperSettings k)"

text \<open>
  \<open>settingsChanged\<close> of the base class asks \<open>isSaveNeeded\<close> and \<open>isDefaults\<close>: the effect holds what they answer.
\<close>

definition settings_changed :: "skeleton_state \<Rightarrow> Kcm \<Rightarrow> kcm_effect list" where
  "settings_changed sk k = [SettingsChanged (kcm_isSaveNeeded sk k) (kcm_isDefaults sk k), IsDefaultsWallpaperChanged]"

definition updateState :: "skeleton_state \<Rightarrow> Kcm \<Rightarrow> Kcm \<times> kcm_effect list" where
  "updateState sk k = (let k1 = k\<lparr>km_forceUpdateState := False\<rparr> in (k1, settings_changed sk k1))"

definition forceUpdateState :: "skeleton_state \<Rightarrow> Kcm \<Rightarrow> Kcm \<times> kcm_effect list" where
  "forceUpdateState sk k = (let k1 = k\<lparr>km_forceUpdateState := True\<rparr> in (k1, settings_changed sk k1))"

definition kcm_load :: "skeleton_state \<Rightarrow> QString \<Rightarrow> Kcm \<Rightarrow> Kcm \<times> kcm_effect list" where
  "kcm_load sk pluginId k =
     (let (w, we) = wallpaper_load pluginId (km_wallpaperSettings k);
          (k1, ue) = updateState sk (k\<lparr>km_wallpaperSettings := w\<rparr>)
      in (k1, BaseLoad # map WallpaperEffect we @ ue @ [LoadCalled]))"

definition kcm_defaults :: "skeleton_state \<Rightarrow> Kcm \<Rightarrow> Kcm \<times> kcm_effect list" where
  "kcm_defaults sk k =
     (let (k1, ue) = updateState sk k
      in (k1, BaseDefaults # map WallpaperEffect (wallpaper_defaults (km_wallpaperSettings k)) @ ue @ [DefaultsCalled]))"

text \<open>The end of the job that saves: \<open>error\<close> is its error text, when it has one.\<close>

definition save_finished :: "skeleton_state \<Rightarrow> QString option \<Rightarrow> Kcm \<Rightarrow> Kcm \<times> kcm_effect list" where
  "save_finished sk error k =
     (case error of
        Some e \<Rightarrow> (k, [ErrorOccurred (JobError e), SetNeedsSave True])
      | None \<Rightarrow> (let (k1, ue) = updateState sk k in (k1, ue @ [SetNeedsSave False])))"

definition synchronize :: "login_user \<Rightarrow> (QString \<Rightarrow> QString) \<Rightarrow> (QString \<Rightarrow> QString option) \<Rightarrow> kcm_effect list" where
  "synchronize user locate read =
     (case synchronizeSettings user locate read of None \<Rightarrow> [ErrorOccurred NoUser] | Some args \<Rightarrow> [ExecuteSync args])"

definition resetSynchronizedSettings :: "login_user \<Rightarrow> kcm_effect list" where
  "resetSynchronizedSettings user = (if lu_homeDir user = [] then [ErrorOccurred NoUser] else [ExecuteReset])"

definition sync_finished :: "QString option \<Rightarrow> kcm_effect list" where
  "sync_finished error = (case error of None \<Rightarrow> [] | Some e \<Rightarrow> [ErrorOccurred (JobError e)]) @ [SyncAttempted]"

definition KDEWalletAvailable :: "(QString \<Rightarrow> QString) \<Rightarrow> bool" where
  "KDEWalletAvailable findExecutable \<longleftrightarrow> findExecutable ''kwalletmanager5'' \<noteq> []"

text \<open>\<open>PlasmaLoginData\<close>: \<open>reply\<close> is the value of the D-Bus reply, empty for an error.\<close>

definition data_relevant :: "QString \<Rightarrow> bool" where
  "data_relevant reply \<longleftrightarrow> reply = ''enabled''"

definition data_isDefaults :: "bool \<Rightarrow> (nat \<Rightarrow> bool) \<Rightarrow> WallpaperSettings \<Rightarrow> bool" where
  "data_isDefaults settings_isDefaults skeleton_isDefaults w \<longleftrightarrow>
     settings_isDefaults \<and> wallpaper_isDefaults skeleton_isDefaults w"

section \<open>What the configuration holds\<close>

lemma written_get: "map_of (fold writeEntry es cfg) = map_of cfg ++ map_of (rev es)"
proof (induction es arbitrary: cfg)
  case (Cons e es)
  have "map_of (writeEntry e cfg) = (map_of cfg)(fst e \<mapsto> snd e)"
    by (simp add: writeEntry_def update_conv')
  then show ?case by (cases e) (simp add: Cons.IH map_add_upd_left [symmetric] map_add_def fun_eq_iff split: option.splits)
qed simp

lemma written_config_get: "map_of (written_config E) = map_of (rev (settings_entries E @ wallpaper_entries E))"
  by (simp only: written_config_def written_get) (simp add: fun_eq_iff)

lemma image_group_entry: "map_of cfg (image_group, k) = Some v \<Longrightarrow> group_exists (butlast image_group) cfg"
  by (auto simp: group_exists_def image_group_def wallpaper_group_def dest!: map_of_SomeD intro!: bexI)

text \<open>The image's URL as the user has set it.\<close>

definition user_image :: "kcm_env \<Rightarrow> image_url" where
  "user_image E = ke_url E (readImage (written_config E))"

lemma readImage_delete [simp]: "readImage (AList.delete (image_group, ''PreviewImage'') cfg) = readImage cfg"
  by (simp add: readImage_def delete_conv')

lemma copy_image_get:
  "map_of (fst (copy_image E (written_config E))) gk =
     (if \<not> group_exists (butlast image_group) (written_config E) then map_of (written_config E) gk
      else if gk = (image_group, ''Image'') \<and> iu_isLocalFile (user_image E) then Some (greeter_image E (user_image E))
      else if gk = (image_group, ''PreviewImage'') then None
      else map_of (written_config E) gk)"
  by (simp add: copy_image_def Let_def user_image_def writeEntry_def update_conv' delete_conv')

text \<open>
  The configuration that is saved is what the user changed.  Every value is the last one written by the items
  that are not at their default, those of the wallpaper after those of the settings, with two exceptions in the group of the
  image wallpaper: the preview is never saved, and a local image is replaced by its copy in the greeter's home.
\<close>

theorem saved_configuration:
  "map_of (fst (copy_image E (written_config E))) (g, k) =
     (if g = image_group \<and> k = ''PreviewImage'' then None
      else if g = image_group \<and> k = ''Image'' \<and> group_exists (butlast image_group) (written_config E) \<and> iu_isLocalFile (user_image E)
      then Some (ke_file_url E (lu_homeDir (ke_user E) @ ''/wallpapers/'' @ iu_fileName (user_image E)) (iu_fragment (user_image E)))
      else map_of (rev (settings_entries E @ wallpaper_entries E)) (g, k))"
proof (cases "group_exists (butlast image_group) (written_config E)")
  case True
  then show ?thesis
    by (simp add: copy_image_get greeter_image_def adjusted_image_path_def written_config_get del: rev_append)
next
  case False
  then have "map_of (written_config E) (image_group, ''PreviewImage'') = None"
    using image_group_entry by (cases "map_of (written_config E) (image_group, ''PreviewImage'')") auto
  with False show ?thesis by (auto simp: copy_image_get written_config_get simp del: rev_append)
qed

lemma kcm_save_image:
  assumes "kcm_save E = Inr (config, ws, fds)" "map_of (written_config E) (image_group, ''Image'') = Some img"
    and "iu_isLocalFile (ke_url E img)"
  shows "syncWallpaper (ke_files E) (iu_fileName (ke_url E img)) (iu_toLocalFile (ke_url E img)) = (ws, fds)"
    "\<exists>cfg. ke_text E cfg = Some config \<and> map_of cfg (image_group, ''Image'') = Some (greeter_image E (ke_url E img))"
proof -
  have ex: "group_exists (butlast image_group) (written_config E)" using assms(2) by (rule image_group_entry)
  have u: "user_image E = ke_url E img" by (simp add: user_image_def readImage_def assms(2))
  have args: "snd (copy_image E (written_config E)) = syncWallpaper (ke_files E) (iu_fileName (ke_url E img)) (iu_toLocalFile (ke_url E img))"
    using ex u assms(3) by (simp add: copy_image_def Let_def user_image_def)
  have ne: "settings_entries E @ wallpaper_entries E \<noteq> []"
    using assms(2) by (auto simp: written_config_def)
  have save: "ke_text E (fst (copy_image E (written_config E))) = Some config \<and> snd (copy_image E (written_config E)) = (ws, fds)"
    using assms(1) ne by (auto simp: kcm_save_def split_def Let_def split: if_splits option.splits)
  then show "syncWallpaper (ke_files E) (iu_fileName (ke_url E img)) (iu_toLocalFile (ke_url E img)) = (ws, fds)"
    by (simp only: args)
  show "\<exists>cfg. ke_text E cfg = Some config \<and> map_of cfg (image_group, ''Image'') = Some (greeter_image E (ke_url E img))"
    using save ex u assms(3) copy_image_get [of E "(image_group, ''Image'')"] by auto
qed


text \<open>An image that cannot be read is saved as an empty file.  The page only logs that it cannot open the file, the
  configuration names the copy all the same, and the helper, which creates the file before it looks at the
  descriptor, leaves it empty and reports success.
\<close>

theorem unreadable_image_saved_empty:
  assumes "kcm_save E = Inr (config, ws, fds)" "map_of (written_config E) (image_group, ''Image'') = Some img"
    and "u = ke_url E img" "iu_isLocalFile u" "iu_toLocalFile u \<noteq> []"
    and "\<not> uf_isDir (ke_files E) (iu_toLocalFile u)" "uf_open (ke_files E) (iu_toLocalFile u) = None" "good_names [iu_fileName u]"
    and "\<forall>p. creates H p" "\<forall>t. removes H t = None" "is_dir [] home" "dir_or_none [''wallpapers''] home"
  shows "(\<exists>cfg. ke_text E cfg = Some config \<and> map_of cfg (image_group, ''Image'')
        = Some (ke_file_url E (lu_homeDir (ke_user E) @ ''/wallpapers/'' @ iu_fileName u) (iu_fragment u)))
    \<and> fst (save_home H (\<lambda>w. True) fds ws home)
    \<and> (\<exists>ow. fs_look (wp_path (iu_fileName u)) (snd (save_home H (\<lambda>w. True) fds ws home)) = Some (TFile ow []))"
proof -
  have files: "wallpaper_files (ke_files E) (iu_fileName u) (iu_toLocalFile u) = [(iu_fileName u, iu_toLocalFile u)]"
    using assms(6) by (simp add: wallpaper_files_def)
  note img = kcm_save_image [OF assms(1,2) assms(4) [unfolded assms(3)], folded assms(3)]
  from picture_saved [OF assms(5) _ _ assms(9-12) img(1), of "\<lambda>f. []"] img(2) assms(7,8)
  show ?thesis by (simp add: files gives_def greeter_image_def adjusted_image_path_def)
qed

definition sample_kcm :: "user_files \<Rightarrow> kcm_env" where
  "sample_kcm F =
     \<lparr>ke_tempDir = True, ke_items = [\<lparr>si_group = ''Greeter'', si_key = ''ShowClock'', si_isDefault = True, si_property = ''true''\<rparr>],
      ke_wallpaperItems = [\<lparr>si_group = [], si_key = ''Image'', si_isDefault = False, si_property = []\<rparr>],
      ke_configuration = (\<lambda>k. ''sea.png''), ke_pluginId = ''org.kde.image'',
      ke_url = (\<lambda>s. \<lparr>iu_isLocalFile = True, iu_fileName = ''sea.png'', iu_toLocalFile = ''/home/joe/sea.png'', iu_fragment = []\<rparr>),
      ke_file_url = (\<lambda>p f. ''file://'' @ p), ke_user = \<lparr>lu_valid = True, lu_uid = 7, lu_gid = 8, lu_homeDir = ''/h''\<rparr>,
      ke_files = F, ke_text = (\<lambda>cfg. Some ''conf'')\<rparr>"

lemma sample_kcm_sel:
  "ke_url (sample_kcm F) s = \<lparr>iu_isLocalFile = True, iu_fileName = ''sea.png'', iu_toLocalFile = ''/home/joe/sea.png'', iu_fragment = []\<rparr>"
  "ke_files (sample_kcm F) = F" "ke_file_url (sample_kcm F) p f = ''file://'' @ p" "lu_homeDir (ke_user (sample_kcm F)) = ''/h''"
  "ke_tempDir (sample_kcm F)" "ke_text (sample_kcm F) cfg = Some ''conf''"
  by (simp_all add: sample_kcm_def)

lemma sample_kcm_written: "written_config (sample_kcm F) = [((image_group, ''Image''), ''sea.png'')]"
  by (simp add: written_config_def settings_entries_def wallpaper_entries_def sample_kcm_def writeEntry_def image_group_def)

lemma sample_kcm_saves: "\<exists>ws fds. kcm_save (sample_kcm F) = Inr (''conf'', ws, fds)"
proof -
  have "settings_entries (sample_kcm F) @ wallpaper_entries (sample_kcm F) \<noteq> []"
    by (simp add: settings_entries_def wallpaper_entries_def sample_kcm_def)
  then show ?thesis by (simp add: kcm_save_def split_def sample_kcm_sel)
qed

lemma sea_name: "good_names [''sea.png'']"
  by (simp add: good_names_def good_name_def starts_with_def store.apart_def path_parts_def)


lemma unreadable_image_saved_empty_witness:
  "\<exists>ws fds. kcm_save (sample_kcm (sample_picture\<lparr>uf_open := \<lambda>p. None\<rparr>)) = Inr (''conf'', ws, fds)
    \<and> (\<exists>ow. fs_look (wp_path ''sea.png'') (snd (save_home sample_io (\<lambda>w. True) fds ws sample_home)) = Some (TFile ow []))"
proof -
  let ?F = "sample_picture\<lparr>uf_open := \<lambda>p. None\<rparr>"
  obtain ws fds where s: "kcm_save (sample_kcm ?F) = Inr (''conf'', ws, fds)" using sample_kcm_saves by blast
  have io: "\<forall>p. creates sample_io p" "\<forall>t. removes sample_io t = None" "is_dir [] sample_home" "dir_or_none [''wallpapers''] sample_home"
    using sample_home_ready(1,2) by (simp_all add: sample_io_def dir_or_none_def sample_home_def)
  from unreadable_image_saved_empty [OF s _ refl _ _ _ _ _ io, of "''sea.png''"]
  show ?thesis using s sea_name by (simp add: sample_kcm_written sample_kcm_sel) (simp add: sample_picture_def)
qed

section \<open>The page from its constructor on\<close>

text \<open>
  The constructor connects the setting of the plugin to \<open>loadWallpaperConfig\<close>.  \<open>load\<close> and \<open>defaults\<close> of the base
  class may change the setting: \<open>plugin\<close> is its value after them.
\<close>

definition kcm_new :: Kcm where
  "kcm_new = \<lparr>km_wallpaperSettings = \<lparr>m_wallpaperIntegration = None, m_wallpaperSettings = None, ws_next = 0\<rparr>,
     km_forceUpdateState = False\<rparr>"

definition kcm_pluginChanged :: "QString \<Rightarrow> Kcm \<Rightarrow> Kcm \<times> kcm_effect list" where
  "kcm_pluginChanged plugin k =
     (let (w, we) = loadWallpaperConfig plugin (km_wallpaperSettings k)
      in (k\<lparr>km_wallpaperSettings := w\<rparr>, map WallpaperEffect we))"

datatype page_event = PluginChosen QString | PageLoaded QString | PageDefaults QString | PageUpdated | PageForced | PageSaved "QString option"

definition set_plugin :: "QString \<Rightarrow> QString \<times> Kcm \<Rightarrow> QString \<times> Kcm" where
  "set_plugin plugin pk = (plugin, if plugin = fst pk then snd pk else fst (kcm_pluginChanged plugin (snd pk)))"

definition page_step :: "skeleton_state \<Rightarrow> page_event \<Rightarrow> QString \<times> Kcm \<Rightarrow> QString \<times> Kcm" where
  "page_step sk e pk =
     (case e of
        PluginChosen plugin \<Rightarrow> set_plugin plugin pk
      | PageLoaded plugin \<Rightarrow> apsnd (\<lambda>k. fst (kcm_load sk plugin k)) (set_plugin plugin pk)
      | PageDefaults plugin \<Rightarrow> apsnd (\<lambda>k. fst (kcm_defaults sk k)) (set_plugin plugin pk)
      | PageUpdated \<Rightarrow> apsnd (\<lambda>k. fst (updateState sk k)) pk
      | PageForced \<Rightarrow> apsnd (\<lambda>k. fst (forceUpdateState sk k)) pk
      | PageSaved error \<Rightarrow> apsnd (\<lambda>k. fst (save_finished sk error k)) pk)"

text \<open>The wallpaper's objects are those of the chosen plugin, or there are none yet.\<close>

definition page_ok :: "QString \<times> Kcm \<Rightarrow> bool" where
  "page_ok pk \<longleftrightarrow>
     (case m_wallpaperIntegration (km_wallpaperSettings (snd pk)) of
        None \<Rightarrow> m_wallpaperSettings (km_wallpaperSettings (snd pk)) = None
      | Some (i, plugin) \<Rightarrow> plugin = fst pk \<and> m_wallpaperSettings (km_wallpaperSettings (snd pk)) = Some i)"

lemma set_plugin_ok: "page_ok pk \<Longrightarrow> page_ok (set_plugin plugin pk)"
  by (auto simp: page_ok_def set_plugin_def kcm_pluginChanged_def loadWallpaperConfig_def Let_def split: option.splits)

lemma kcm_load_settings:
  "km_wallpaperSettings (fst (kcm_load sk plugin k)) = fst (loadWallpaperConfig plugin (km_wallpaperSettings k))"
  by (simp add: kcm_load_def wallpaper_load_def updateState_def Let_def split: prod.splits option.splits)

lemma page_frames:
  "km_wallpaperSettings (fst (updateState sk k)) = km_wallpaperSettings k"
  "km_wallpaperSettings (fst (forceUpdateState sk k)) = km_wallpaperSettings k"
  "km_wallpaperSettings (fst (kcm_defaults sk k)) = km_wallpaperSettings k"
  "km_wallpaperSettings (fst (save_finished sk error k)) = km_wallpaperSettings k"
  by (simp_all add: updateState_def forceUpdateState_def kcm_defaults_def save_finished_def Let_def split: option.splits)

lemma page_ok_same:
  "page_ok pk \<Longrightarrow> fst pk' = fst pk \<Longrightarrow> km_wallpaperSettings (snd pk') = km_wallpaperSettings (snd pk) \<Longrightarrow> page_ok pk'"
  by (auto simp: page_ok_def split: option.splits)

lemma page_step_ok:
  assumes "page_ok pk"
  shows "page_ok (page_step sk e pk)"
proof (cases e)
  case (PageLoaded plugin)
  from set_plugin_ok [OF assms, of plugin] show ?thesis
    by (auto simp: PageLoaded page_step_def page_ok_def kcm_load_settings set_plugin_def loadWallpaperConfig_def Let_def
        split: option.splits if_splits)
next
  case (PageDefaults plugin)
  from set_plugin_ok [OF assms] show ?thesis
    by (rule page_ok_same) (simp_all add: PageDefaults page_step_def page_frames)
qed (auto intro: page_ok_same [OF assms] set_plugin_ok [OF assms] simp: page_step_def page_frames)

text \<open>Whatever happens to the page, the configuration it shows and saves is the chosen plugin's, and after it has been loaded
  there is one.\<close>

theorem page_follows_plugin:
  fixes sk evs plugin0
  defines "pk \<equiv> fold (page_step sk) evs (plugin0, kcm_new)"
  shows "page_ok pk \<and> (\<forall>p. last (PageUpdated # evs) = PageLoaded p \<longrightarrow>
    (\<exists>i. m_wallpaperIntegration (km_wallpaperSettings (snd pk)) = Some (i, p)))"
proof -
  have ok: "page_ok (fold (page_step sk) es pk0)" if "page_ok pk0" for es pk0
    using that by (induction es arbitrary: pk0) (simp_all add: page_step_ok)
  have new: "page_ok (plugin0, kcm_new)" by (simp add: page_ok_def kcm_new_def)
  have "\<exists>i. m_wallpaperIntegration (km_wallpaperSettings (snd pk)) = Some (i, p)" if l: "last (PageUpdated # evs) = PageLoaded p" for p
  proof -
    obtain es where es: "evs = es @ [PageLoaded p]" using l by (cases evs rule: rev_cases) auto
    have "page_ok pk" using ok [OF new, of evs] by (simp only: pk_def)
    moreover have "fst pk = p" by (simp add: pk_def es page_step_def set_plugin_def)
    moreover have "m_wallpaperIntegration (km_wallpaperSettings (snd pk)) \<noteq> None"
      by (auto simp: pk_def es page_step_def kcm_load_settings loadWallpaperConfig_def Let_def split: option.splits)
    ultimately show ?thesis by (auto simp: page_ok_def)
  qed
  with ok [OF new] show ?thesis by (simp add: pk_def)
qed

end
