(* ===== verification/XAuth.thy ===== *)
theory XAuth
  imports Prelude
begin

text \<open>
  The authority file of an X11 session (\<open>src/helper/XAuth.cpp\<close>): its directory, the cookie, and how the cookie is
  written for a display.

  Files are known by name, with their permission bits and their bytes; the file mode mask of the process and the
  number of open streams are part of the state.  libXau's \<open>XauWriteAuth\<close> is a parameter: whether it succeeds on an
  entry, and the bytes it appends.
\<close>

unbundle bit_operations_syntax

section \<open>Entries of an authority file\<close>

record Xauth =
  xa_family :: "16 word"
  xa_address :: string
  xa_number :: string
  xa_name :: string
  xa_data :: string

definition FamilyLocal :: "16 word" where "FamilyLocal = 256"
definition FamilyWild :: "16 word" where "FamilyWild = 65535"

text \<open>The length of a field is an \<open>unsigned short\<close>: the library sees as many bytes as that says.\<close>

definition counted :: "string \<Rightarrow> string" where
  "counted s = take (length s mod 65536) s"

text \<open>\<open>toUtf8\<close>, for the characters a \<open>string\<close> has.\<close>

definition to_utf8 :: "QString \<Rightarrow> QByteArray" where
  "to_utf8 s = concat (map (\<lambda>c. let n = (of_char c :: nat) in
     if n < 128 then [c] else [char_of (192 + n div 64), char_of (128 + n mod 64)]) s)"

section \<open>Files\<close>

record x_file =
  xf_mode :: quint32
  xf_bytes :: string

record x_fs =
  fs_umask :: quint32
  fs_files :: "string \<rightharpoonup> x_file"
  fs_streams :: nat

record xauth_lib =
  xl_fopen :: "string \<Rightarrow> bool"
  xl_hostname :: "string option"
  xl_write :: "Xauth \<Rightarrow> bool \<times> string"
  xl_fflush :: bool

text \<open>\<open>umask\<close> gives the mask there was before.\<close>

definition umask :: "quint32 \<Rightarrow> x_fs \<Rightarrow> quint32 \<times> x_fs" where
  "umask m fs = (fs_umask fs, fs\<lparr>fs_umask := m\<rparr>)"

text \<open>\<open>fopen(name, "wb")\<close>: a new file gets the mode 0666 without the bits of the mask, an old one is emptied.\<close>

definition opened_file :: "quint32 \<Rightarrow> x_file option \<Rightarrow> x_file" where
  "opened_file m old =
     (case old of None \<Rightarrow> \<lparr>xf_mode = 438 AND NOT m, xf_bytes = []\<rparr> | Some f \<Rightarrow> f\<lparr>xf_bytes := []\<rparr>)"

definition fopen_wb :: "xauth_lib \<Rightarrow> string \<Rightarrow> x_fs \<Rightarrow> bool \<times> x_fs" where
  "fopen_wb L name fs =
     (if \<not> xl_fopen L name then (False, fs)
      else (True, fs\<lparr>fs_files := (fs_files fs)(name \<mapsto> opened_file (fs_umask fs) (fs_files fs name)),
            fs_streams := fs_streams fs + 1\<rparr>))"

definition append_bytes :: "string \<Rightarrow> string \<Rightarrow> x_fs \<Rightarrow> x_fs" where
  "append_bytes name bs fs =
     fs\<lparr>fs_files := (fs_files fs)(name := map_option (\<lambda>f. f\<lparr>xf_bytes := xf_bytes f @ bs\<rparr>) (fs_files fs name))\<rparr>"

definition fclose :: "x_fs \<Rightarrow> x_fs" where
  "fclose fs = fs\<lparr>fs_streams := fs_streams fs - 1\<rparr>"

section \<open>Writing the cookie\<close>

definition local_entry :: "string \<Rightarrow> QString \<Rightarrow> QByteArray \<Rightarrow> Xauth" where
  "local_entry localhost display cookie =
     \<lparr>xa_family = FamilyLocal, xa_address = counted localhost, xa_number = counted (to_utf8 (q_mid display 1)),
      xa_name = ''MIT-MAGIC-COOKIE-1'', xa_data = counted cookie\<rparr>"

definition wild_entry :: "Xauth \<Rightarrow> Xauth" where
  "wild_entry auth = auth\<lparr>xa_family := FamilyWild, xa_address := []\<rparr>"

definition write_entries :: "xauth_lib \<Rightarrow> string \<Rightarrow> Xauth \<Rightarrow> x_fs \<Rightarrow> bool \<times> x_fs" where
  "write_entries L fileName auth fs =
     (let (ok, bs) = xl_write L auth; fs1 = append_bytes fileName bs fs in
      if \<not> ok then (False, fs1)
      else let (ok2, bs2) = xl_write L (wild_entry auth); fs2 = append_bytes fileName bs2 fs1 in
        if \<not> ok2 then (False, fs2) else (xl_fflush L, fs2))"

definition writeCookieToFile :: "xauth_lib \<Rightarrow> QString \<Rightarrow> string \<Rightarrow> QByteArray \<Rightarrow> x_fs \<Rightarrow> bool \<times> x_fs" where
  "writeCookieToFile L display fileName cookie fs =
     (if length display < 2 \<or> display ! 0 \<noteq> CHR '':'' \<or> length cookie \<noteq> 16 then (False, fs)
      else
        let (oldumask, fs1) = umask 63 fs;
            (opened, fs2) = fopen_wb L fileName fs1;
            (_, fs3) = umask oldumask fs2
        in if \<not> opened then (False, fs3)
           else
             let localhost = (case xl_hostname L of None \<Rightarrow> ''localhost'' | Some h \<Rightarrow> h);
                 (ok, fs4) = write_entries L fileName (local_entry localhost display cookie) fs3
             in (ok, fclose fs4))"

section \<open>The class\<close>

record XAuth =
  m_setup :: bool
  m_authDir :: QString
  m_authFile :: string
  m_cookie :: QByteArray

definition new_XAuth :: "QString \<Rightarrow> XAuth" where
  "new_XAuth RUNTIME_DIR = \<lparr>m_setup = False, m_authDir = RUNTIME_DIR, m_authFile = [], m_cookie = []\<rparr>"

definition setAuthDirectory :: "QString \<Rightarrow> XAuth \<Rightarrow> XAuth" where
  "setAuthDirectory path x = (if m_setup x then x else x\<lparr>m_authDir := path\<rparr>)"

text \<open>
  \<open>temp\<close> is \<open>QTemporaryFile::open\<close>: the name of a new file for a template, or \<open>None\<close>, on which the process
  aborts (\<open>qFatal\<close>); \<open>rnd\<close> gives the random numbers from 0 to 255.  The temporary file is there with the mode 0600.
\<close>

definition xauth_setup :: "(string \<Rightarrow> string option) \<Rightarrow> (nat \<Rightarrow> nat) \<Rightarrow> XAuth \<times> x_fs \<Rightarrow> (XAuth \<times> x_fs) option" where
  "xauth_setup temp rnd st =
     (let (x, fs) = st in
      if m_setup x then Some (x, fs)
      else case temp (m_authDir x @ ''/xauth_XXXXXX'') of
             None \<Rightarrow> None
           | Some name \<Rightarrow>
               Some (x\<lparr>m_setup := True, m_authFile := name, m_cookie := map (\<lambda>i. char_of (rnd i)) [0..<16]\<rparr>,
                 fs\<lparr>fs_files := (fs_files fs)(name \<mapsto> \<lparr>xf_mode = 384, xf_bytes = []\<rparr>)\<rparr>))"

definition addCookie :: "xauth_lib \<Rightarrow> QString \<Rightarrow> XAuth \<Rightarrow> x_fs \<Rightarrow> bool \<times> x_fs" where
  "addCookie L display x fs =
     (if \<not> m_setup x then (False, fs) else writeCookieToFile L display (m_authFile x) (m_cookie x) fs)"

section \<open>What the file holds\<close>

lemma append_bytes_sel [simp]:
  "fs_umask (append_bytes n bs fs) = fs_umask fs" "fs_streams (append_bytes n bs fs) = fs_streams fs"
  "fs_files (append_bytes n bs fs) n = map_option (\<lambda>f. f\<lparr>xf_bytes := xf_bytes f @ bs\<rparr>) (fs_files fs n)"
  "m \<noteq> n \<Longrightarrow> fs_files (append_bytes n bs fs) m = fs_files fs m"
  by (simp_all add: append_bytes_def)

lemma fclose_sel [simp]:
  "fs_umask (fclose fs) = fs_umask fs" "fs_streams (fclose fs) = fs_streams fs - 1" "fs_files (fclose fs) = fs_files fs"
  by (simp_all add: fclose_def)

lemma write_entries_state [simp]:
  "fs_umask (snd (write_entries L n a fs)) = fs_umask fs" "fs_streams (snd (write_entries L n a fs)) = fs_streams fs"
  "m \<noteq> n \<Longrightarrow> fs_files (snd (write_entries L n a fs)) m = fs_files fs m"
  "map_option xf_mode (fs_files (snd (write_entries L n a fs)) n) = map_option xf_mode (fs_files fs n)"
  by (simp_all add: write_entries_def Let_def split_def option.map_comp comp_def)

lemma write_entries_bytes:
  "fst (write_entries L n a fs) \<Longrightarrow> fs_files fs n = Some f \<Longrightarrow>
    fs_files (snd (write_entries L n a fs)) n = Some (f\<lparr>xf_bytes := xf_bytes f @ snd (xl_write L a) @ snd (xl_write L (wild_entry a))\<rparr>)
    \<and> fst (xl_write L a) \<and> fst (xl_write L (wild_entry a))"
  by (simp add: write_entries_def Let_def split_def split: if_splits)

text \<open>Whatever happens, the mask and the number of open streams are what they were, and no other file is touched.\<close>

lemma writeCookieToFile_frame:
  "fs_umask (snd (writeCookieToFile L d n c fs)) = fs_umask fs"
  "fs_streams (snd (writeCookieToFile L d n c fs)) = fs_streams fs"
  "m \<noteq> n \<Longrightarrow> fs_files (snd (writeCookieToFile L d n c fs)) m = fs_files fs m"
  by (simp_all add: writeCookieToFile_def umask_def fopen_wb_def Let_def split_def)

lemma writeCookieToFile_done:
  assumes "fst (writeCookieToFile L d n c fs)"
  obtains f where "fs_files (snd (writeCookieToFile L d n c fs)) n = Some f"
    "\<exists>h. xf_bytes f = snd (xl_write L (local_entry h d c)) @ snd (xl_write L (wild_entry (local_entry h d c)))
      \<and> fst (xl_write L (local_entry h d c)) \<and> fst (xl_write L (wild_entry (local_entry h d c)))
      \<and> (\<forall>h'. xl_hostname L = Some h' \<longrightarrow> h = h')"
    "xf_mode f = (case fs_files fs n of None \<Rightarrow> 384 | Some f0 \<Rightarrow> xf_mode f0)"
    "2 \<le> length d" "d ! 0 = CHR '':''" "length c = 16"
proof -
  let ?h = "case xl_hostname L of None \<Rightarrow> ''localhost'' | Some h \<Rightarrow> h"
  let ?e = "local_entry ?h d c"
  let ?f = "opened_file 63 (fs_files fs n)"
  let ?fs3 = "fs\<lparr>fs_files := (fs_files fs)(n \<mapsto> ?f), fs_streams := fs_streams fs + 1\<rparr>"
  have ok: "\<not> length d < 2" "d ! 0 = CHR '':''" "length c = 16" "xl_fopen L n"
    using assms by (auto simp: writeCookieToFile_def umask_def fopen_wb_def Let_def split_def split: if_splits)
  then have eq: "writeCookieToFile L d n c fs = (fst (write_entries L n ?e ?fs3), fclose (snd (write_entries L n ?e ?fs3)))"
    by (simp add: writeCookieToFile_def umask_def fopen_wb_def Let_def split_def)
  have w: "fs_files (snd (write_entries L n ?e ?fs3)) n
      = Some (?f\<lparr>xf_bytes := xf_bytes ?f @ snd (xl_write L ?e) @ snd (xl_write L (wild_entry ?e))\<rparr>)
    \<and> fst (xl_write L ?e) \<and> fst (xl_write L (wild_entry ?e))"
    by (rule write_entries_bytes) (use assms in \<open>simp_all add: eq\<close>)
  have b: "xf_bytes ?f = []" by (simp add: opened_file_def split: option.split)
  show thesis
  proof (rule that)
    show "fs_files (snd (writeCookieToFile L d n c fs)) n
      = Some (?f\<lparr>xf_bytes := xf_bytes ?f @ snd (xl_write L ?e) @ snd (xl_write L (wild_entry ?e))\<rparr>)"
      using w by (simp add: eq)
    show "\<exists>h. xf_bytes (?f\<lparr>xf_bytes := xf_bytes ?f @ snd (xl_write L ?e) @ snd (xl_write L (wild_entry ?e))\<rparr>)
          = snd (xl_write L (local_entry h d c)) @ snd (xl_write L (wild_entry (local_entry h d c)))
      \<and> fst (xl_write L (local_entry h d c)) \<and> fst (xl_write L (wild_entry (local_entry h d c)))
      \<and> (\<forall>h'. xl_hostname L = Some h' \<longrightarrow> h = h')"
      by (rule exI [of _ ?h]) (use w b in simp)
  qed (use ok in \<open>auto simp: opened_file_def split: option.split\<close>)
qed

section \<open>What a reader of the file finds\<close>

text \<open>
  What libXau promises: entries written one after the other are the ones a reader (the X server, or \<open>XauReadAuth\<close>)
  finds in the file.
\<close>

locale authority_file =
  fixes wr :: "Xauth \<Rightarrow> bool \<times> string"
    and rdr :: "string \<Rightarrow> Xauth list"
  assumes read_back: "\<forall>e \<in> set es. fst (wr e) \<Longrightarrow> rdr (concat (map (\<lambda>e. snd (wr e)) es)) = es"
begin

lemma read_two: "fst (wr a) \<Longrightarrow> fst (wr b) \<Longrightarrow> rdr (snd (wr a) @ snd (wr b)) = [a, b]"
  using read_back [of "[a, b]"] by simp

end

text \<open>The format libXau documents: the family and four counted strings, lengths first, high byte first.\<close>

definition enc16 :: "nat \<Rightarrow> string" where
  "enc16 n = [char_of (n div 256), char_of (n mod 256)]"

fun dec16 :: "string \<Rightarrow> (nat \<times> string) option" where
  "dec16 (a # b # s) = Some (of_char a * 256 + of_char b, s)"
| "dec16 s = None"

definition enc_field :: "string \<Rightarrow> string" where
  "enc_field s = enc16 (length s) @ s"

definition dec_field :: "string \<Rightarrow> (string \<times> string) option" where
  "dec_field s = (case dec16 s of None \<Rightarrow> None
     | Some (n, s1) \<Rightarrow> if n \<le> length s1 then Some (take n s1, drop n s1) else None)"

definition xau_fits :: "Xauth \<Rightarrow> bool" where
  "xau_fits e \<longleftrightarrow> (\<forall>s \<in> {xa_address e, xa_number e, xa_name e, xa_data e}. length s < 65536)"

definition xau_entry :: "Xauth \<Rightarrow> string" where
  "xau_entry e = enc16 (unat (xa_family e)) @ enc_field (xa_address e) @ enc_field (xa_number e) @ enc_field (xa_name e)
     @ enc_field (xa_data e)"

definition xau_write :: "Xauth \<Rightarrow> bool \<times> string" where
  "xau_write e = (if xau_fits e then (True, xau_entry e) else (False, []))"

definition dec_entry :: "string \<Rightarrow> (Xauth \<times> string) option" where
  "dec_entry s =
     Option.bind (dec16 s) (\<lambda>(f, s1). Option.bind (dec_field s1) (\<lambda>(a, s2). Option.bind (dec_field s2) (\<lambda>(n, s3).
     Option.bind (dec_field s3) (\<lambda>(m, s4). Option.bind (dec_field s4) (\<lambda>(d, s5).
       Some (\<lparr>xa_family = word_of_nat f, xa_address = a, xa_number = n, xa_name = m, xa_data = d\<rparr>, s5))))))"

fun dec_entries :: "nat \<Rightarrow> string \<Rightarrow> Xauth list" where
  "dec_entries 0 s = []"
| "dec_entries (Suc n) s = (case dec_entry s of None \<Rightarrow> [] | Some (e, s1) \<Rightarrow> e # dec_entries n s1)"

definition xau_read :: "string \<Rightarrow> Xauth list" where
  "xau_read s = dec_entries (length s) s"

lemma dec16_enc16 [simp]: "n < 65536 \<Longrightarrow> dec16 (enc16 n @ s) = Some (n, s)"
  by (simp add: enc16_def)

lemma dec_field_enc [simp]: "length f < 65536 \<Longrightarrow> dec_field (enc_field f @ s) = Some (f, s)"
  by (simp add: enc_field_def dec_field_def)

lemma dec_entry_enc: "xau_fits e \<Longrightarrow> dec_entry (xau_entry e @ s) = Some (e, s)"
  using unsigned_less [of "xa_family e", where 'a = nat]
  by (simp add: xau_entry_def dec_entry_def xau_fits_def)

lemma dec_entries_enc: "\<forall>e \<in> set es. xau_fits e \<Longrightarrow> length es \<le> n \<Longrightarrow> dec_entries n (concat (map xau_entry es)) = es"
proof (induction es arbitrary: n)
  case Nil
  then show ?case by (cases n) (simp_all add: dec_entry_def)
next
  case (Cons e es)
  then obtain k where "n = Suc k" by (cases n) simp_all
  with Cons show ?case by (simp add: dec_entry_enc)
qed

lemma xau_entries_length: "length es \<le> length (concat (map xau_entry es))"
  by (induction es) (simp_all add: xau_entry_def enc16_def)

interpretation af: authority_file xau_write xau_read
proof
  fix es :: "Xauth list"
  assume "\<forall>e \<in> set es. fst (xau_write e)"
  then have "\<forall>e \<in> set es. xau_fits e" by (simp add: xau_write_def split: if_splits)
  moreover from this have "concat (map (\<lambda>e. snd (xau_write e)) es) = concat (map xau_entry es)"
    by (induction es) (simp_all add: xau_write_def)
  ultimately show "xau_read (concat (map (\<lambda>e. snd (xau_write e)) es)) = es"
    by (simp add: xau_read_def dec_entries_enc xau_entries_length)
qed

lemma xauth_setup_file:
  "xauth_setup temp rnd (x, fs) = Some (x1, fs1) \<Longrightarrow> \<not> m_setup x \<Longrightarrow>
    m_setup x1 \<and> length (m_cookie x1) = 16 \<and> fs_files fs1 (m_authFile x1) = Some \<lparr>xf_mode = 384, xf_bytes = []\<rparr>
    \<and> fs_umask fs1 = fs_umask fs \<and> fs_streams fs1 = fs_streams fs"
  by (auto simp: xauth_setup_def split: option.splits)

lemma counted_short [simp]: "length s < 65536 \<Longrightarrow> counted s = s"
  by (simp add: counted_def)


definition sample_lib :: xauth_lib where
  "sample_lib = \<lparr>xl_fopen = (\<lambda>n. True), xl_hostname = Some ''host'', xl_write = xau_write, xl_fflush = True\<rparr>"

definition sample_xauth :: "XAuth \<times> x_fs" where
  "sample_xauth =
     (\<lparr>m_setup = True, m_authDir = ''/run'', m_authFile = ''/run/xauth_a'', m_cookie = map (\<lambda>i. char_of (65 + i)) [0..<16]\<rparr>,
      \<lparr>fs_umask = 18, fs_files = [''/run/xauth_a'' \<mapsto> \<lparr>xf_mode = 384, xf_bytes = []\<rparr>], fs_streams = 0\<rparr>)"

lemma sample_setup:
  "xauth_setup (\<lambda>t. Some ''/run/xauth_a'') (\<lambda>i. 65 + i) (new_XAuth ''/run'', \<lparr>fs_umask = 18, fs_files = Map.empty, fs_streams = 0\<rparr>)
    = Some sample_xauth"
  by (simp add: xauth_setup_def new_XAuth_def sample_xauth_def)

lemma sample_addCookie: "fst (addCookie sample_lib '':0'' (fst sample_xauth) (snd sample_xauth))"
  by (simp add: addCookie_def writeCookieToFile_def sample_xauth_def sample_lib_def umask_def fopen_wb_def write_entries_def
      xau_write_def xau_fits_def local_entry_def wild_entry_def q_mid_def to_utf8_def Let_def split_def)


end
