(* ===== verification/X11_Helper.thy ===== *)
theory X11_Helper
  imports XAuth User_Session
begin

text \<open>
  The helper of an X11 session (\<open>src/helper/xorguserhelper.cpp\<close>, \<open>HelperStartX11User.cpp\<close>): it starts an X
  server as the session's user, learns the display's number through a pipe, writes the authority file, and starts the
  session's command on the display.

  \<open>QProcess::splitCommand\<close>, \<open>pipe\<close>, the answers of the processes and the line the server writes are
  parameters.  A process is known by its program and arguments, one list.
\<close>

section \<open>Commands and their parts\<close>

fun join_str :: "string \<Rightarrow> string list \<Rightarrow> string" where
  "join_str s [] = []"
| "join_str s [w] = w"
| "join_str s (w # v # ws) = w @ s @ join_str s (v # ws)"

text \<open>\<open>split(' ', Qt::SkipEmptyParts)\<close>\<close>

definition split_skip :: "char \<Rightarrow> string \<Rightarrow> string list" where
  "split_skip c s = filter (\<lambda>w. w \<noteq> []) (split_on c s)"

text \<open>A word of a command line, in double quotes (first component) or as it is.\<close>

definition token :: "bool \<times> string \<Rightarrow> string" where
  "token t = (if fst t then ''\"'' @ snd t @ ''\"'' else snd t)"

definition token_ok :: "bool \<times> string \<Rightarrow> bool" where
  "token_ok t \<longleftrightarrow> snd t \<noteq> [] \<and> CHR ''\"'' \<notin> set (snd t) \<and> (fst t \<or> (\<forall>c \<in> set (snd t). \<not> is_space c))"

text \<open>What Qt documents of \<open>splitCommand\<close>: words are separated by spaces, and a quoted one may hold spaces.\<close>

locale command_splitter =
  fixes splt :: "string \<Rightarrow> string list"
  assumes split_tokens: "\<forall>t \<in> set ts. token_ok t \<Longrightarrow> splt (join_str '' '' (map token ts)) = map snd ts"
begin

lemma split_words: "\<forall>w \<in> set ws. token_ok (False, w) \<Longrightarrow> splt (join_str '' '' ws) = ws"
proof -
  have m: "map token (map (Pair False) ws) = ws" "map snd (map (Pair False) ws) = ws"
    by (induction ws) (simp_all add: token_def)
  assume "\<forall>w \<in> set ws. token_ok (False, w)"
  then show ?thesis using split_tokens [of "map (Pair False) ws"] unfolding m by simp
qed

lemma split_quoted:
  "token_ok (False, cmd) \<Longrightarrow> token_ok (True, path) \<Longrightarrow> splt (cmd @ '' \"'' @ path @ ''\"'') = [cmd, path]"
  using split_tokens [of "[(False, cmd), (True, path)]"] by (simp add: token_def)

end

text \<open>A splitter that keeps the contract.\<close>

fun split_cmd :: "bool \<Rightarrow> string \<Rightarrow> string \<Rightarrow> string list" where
  "split_cmd q w [] = (if w = [] then [] else [w])"
| "split_cmd q w (c # cs) =
     (if c = CHR ''\"'' then split_cmd (\<not> q) w cs
      else if \<not> q \<and> is_space c then (if w = [] then split_cmd q [] cs else w # split_cmd q [] cs)
      else split_cmd q (w @ [c]) cs)"

lemma split_cmd_word:
  "CHR ''\"'' \<notin> set v \<Longrightarrow> q \<or> (\<forall>c \<in> set v. \<not> is_space c) \<Longrightarrow> split_cmd q w (v @ cs) = split_cmd q (w @ v) cs"
  by (induction v arbitrary: w) auto

lemma split_cmd_token: "token_ok t \<Longrightarrow> split_cmd False [] (token t @ cs) = split_cmd False (snd t) cs"
  by (cases "fst t") (simp_all add: token_def token_ok_def split_cmd_word)

lemma is_space_blank [simp]: "is_space CHR '' ''"
  by (simp add: is_space_def)

interpretation sc: command_splitter "split_cmd False []"
proof
  fix ts :: "(bool \<times> string) list"
  assume "\<forall>t \<in> set ts. token_ok t"
  then show "split_cmd False [] (join_str '' '' (map token ts)) = map snd ts"
  proof (induction ts)
    case (Cons t ts)
    then have t: "token_ok t" "snd t \<noteq> []" by (simp_all add: token_ok_def)
    show ?case
    proof (cases ts)
      case Nil
      with t split_cmd_token [OF t(1), of "[]"] show ?thesis by simp
    next
      case (Cons u us)
      with Cons.IH Cons.prems t split_cmd_token [OF t(1)] show ?thesis by simp
    qed
  qed simp
qed

section \<open>The X server\<close>

record x11_world =
  xw_env :: env
  xw_serverPath :: QString
  xw_serverArguments :: QString
  xw_dataDir :: QString
  xw_split :: "string \<Rightarrow> string list"
  xw_pipe :: "(int \<times> int) option"
  xw_starts :: "string list \<Rightarrow> bool"
  xw_pipe_opens :: bool
  xw_line :: string
  xw_ends :: "string list \<Rightarrow> bool"
  xw_lib :: xauth_lib
  xw_temp :: "string \<Rightarrow> string option"
  xw_rnd :: "nat \<Rightarrow> nat"

datatype x11_effect =
    Cloexec int
  | Started "string list" env
  | NotStarted "string list"
  | KilledProcess "string list"
  | TerminatedProcess "string list"
  | SessionStarted "string list" env

record XOrgUserHelper =
  xo_display :: QString
  xo_xauth :: XAuth
  xo_serverProcess :: "string list option"
  xo_fs :: x_fs
  xo_fds :: "int list"
  xo_out :: "x11_effect list"

definition xo_log :: "x11_effect \<Rightarrow> XOrgUserHelper \<Rightarrow> XOrgUserHelper" where
  "xo_log e h = h\<lparr>xo_out := xo_out h @ [e]\<rparr>"

definition close_fd :: "int \<Rightarrow> XOrgUserHelper \<Rightarrow> XOrgUserHelper" where
  "close_fd fd h = h\<lparr>xo_fds := remove1 fd (xo_fds h)\<rparr>"

definition display_environment :: "x11_world \<Rightarrow> XOrgUserHelper \<Rightarrow> env" where
  "display_environment W h =
     env_insert ''XAUTHORITY'' (m_authFile (xo_xauth h)) (env_insert ''DISPLAY'' (xo_display h) (xw_env W))"

definition sessionEnvironment :: "x11_world \<Rightarrow> XOrgUserHelper \<Rightarrow> env" where
  "sessionEnvironment W h = env_insert ''QT_QPA_PLATFORM'' ''xcb'' (display_environment W h)"

definition startProcess :: "x11_world \<Rightarrow> string \<Rightarrow> env \<Rightarrow> XOrgUserHelper \<Rightarrow> bool \<times> XOrgUserHelper" where
  "startProcess W cmd e h =
     (let args = xw_split W cmd in
      if \<not> xw_starts W args then (False, xo_log (NotStarted args) h) else (True, xo_log (Started args e) h))"

text \<open>The slot of the process's end: whether the application quits.\<close>

definition quits_after :: "int \<Rightarrow> bool \<Rightarrow> bool" where
  "quits_after exitCode normalExit \<longleftrightarrow> exitCode \<noteq> 0 \<or> \<not> normalExit"

text \<open>The setup and the stop script: started, waited for and killed when they take too long.\<close>

definition run_script :: "x11_world \<Rightarrow> string \<Rightarrow> env \<Rightarrow> XOrgUserHelper \<Rightarrow> XOrgUserHelper" where
  "run_script W cmd e h =
     (let (ok, h1) = startProcess W cmd e h in
      if ok \<and> \<not> xw_ends W (xw_split W cmd) then xo_log (KilledProcess (xw_split W cmd)) h1 else h1)"

definition startDisplayCommand :: "x11_world \<Rightarrow> XOrgUserHelper \<Rightarrow> XOrgUserHelper" where
  "startDisplayCommand W h = run_script W (xw_dataDir W @ ''/scripts/Xsetup'') (display_environment W h) h"

definition displayFinished :: "x11_world \<Rightarrow> XOrgUserHelper \<Rightarrow> XOrgUserHelper" where
  "displayFinished W h = run_script W (xw_dataDir W @ ''/scripts/Xstop'') (sessionEnvironment W h) h"

definition server_args :: "x11_world \<Rightarrow> string \<Rightarrow> int \<Rightarrow> env \<Rightarrow> string list" where
  "server_args W authPath wfd serverEnv =
     [''-auth'', authPath, ''-displayfd'', number wfd, ''vt'' @ env_value serverEnv ''XDG_VTNR'']"

text \<open>
  \<open>startServer\<close>: \<open>slot\<close> is what is connected to \<open>displayChanged\<close>, and runs before the cookie is written.
\<close>

definition announce_display ::
  "x11_world \<Rightarrow> (XOrgUserHelper \<Rightarrow> XOrgUserHelper) \<Rightarrow> int \<Rightarrow> XOrgUserHelper \<Rightarrow> bool \<times> XOrgUserHelper" where
  "announce_display W slot rfd h =
     (let displayNumber = '':'' @ xw_line W;
          h1 = slot (h\<lparr>xo_display := butlast displayNumber\<rparr>);
          (ok, fs) = addCookie (xw_lib W) (xo_display h1) (xo_xauth h1) (xo_fs h1);
          h2 = h1\<lparr>xo_fs := fs\<rparr>
      in if \<not> ok then (False, h2) else (True, close_fd rfd h2))"

definition read_display ::
  "x11_world \<Rightarrow> (XOrgUserHelper \<Rightarrow> XOrgUserHelper) \<Rightarrow> int \<Rightarrow> XOrgUserHelper \<Rightarrow> bool \<times> XOrgUserHelper" where
  "read_display W slot rfd h =
     (if \<not> xw_pipe_opens W then (False, close_fd rfd h)
      else if length (xw_line W) < 2 then (False, close_fd rfd h)
      else announce_display W slot rfd h)"

definition startServer ::
  "x11_world \<Rightarrow> (XOrgUserHelper \<Rightarrow> XOrgUserHelper) \<Rightarrow> QString \<Rightarrow> XOrgUserHelper \<Rightarrow> bool \<times> XOrgUserHelper" where
  "startServer W slot cmd h =
     (case xw_pipe W of
        None \<Rightarrow> (False, h)
      | Some (rfd, wfd) \<Rightarrow>
          let h1 = xo_log (Cloexec rfd) (h\<lparr>xo_fds := rfd # wfd # xo_fds h\<rparr>);
              serverEnv = env_insert ''XORG_RUN_AS_USER_OK'' ''1'' (xw_env W);
              serverCmd = cmd @ '' '' @ join_str '' '' (server_args W (m_authFile (xo_xauth h)) wfd serverEnv);
              (started, h2) = startProcess W serverCmd serverEnv h1
          in if \<not> started then (False, close_fd rfd h2)
             else read_display W slot rfd (close_fd wfd (h2\<lparr>xo_serverProcess := Some (xw_split W serverCmd)\<rparr>)))"

definition xorgArgs :: "x11_world \<Rightarrow> string list" where
  "xorgArgs W =
     xw_serverPath W # split_skip CHR '' '' (xw_serverArguments W)
     @ [''-background'', ''none'', ''-seat'', env_value (xw_env W) ''XDG_SEAT'', ''-noreset'', ''-keeptty'', ''-novtswitch'',
        ''-verbose'', ''3'']"

text \<open>\<open>start\<close>: \<open>None\<close> when the authority file cannot be created, which ends the process.\<close>

definition xo_start :: "x11_world \<Rightarrow> (XOrgUserHelper \<Rightarrow> XOrgUserHelper) \<Rightarrow> XOrgUserHelper \<Rightarrow> (bool \<times> XOrgUserHelper) option" where
  "xo_start W slot h =
     (case xauth_setup (xw_temp W) (xw_rnd W) (setAuthDirectory (env_value (xw_env W) ''XDG_RUNTIME_DIR'') (xo_xauth h), xo_fs h) of
        None \<Rightarrow> None
      | Some (x, fs) \<Rightarrow>
          let (ok, h1) = startServer W slot (join_str '' '' (xorgArgs W)) (h\<lparr>xo_xauth := x, xo_fs := fs\<rparr>)
          in Some (if \<not> ok then (False, h1) else (True, startDisplayCommand W h1)))"

definition xo_stop :: "x11_world \<Rightarrow> XOrgUserHelper \<Rightarrow> XOrgUserHelper" where
  "xo_stop W h =
     (case xo_serverProcess h of
        None \<Rightarrow> h
      | Some p \<Rightarrow>
          let h1 = xo_log (TerminatedProcess p) h;
              h2 = (if \<not> xw_ends W p then xo_log (KilledProcess p) h1 else h1)
          in displayFinished W (h2\<lparr>xo_serverProcess := None\<rparr>))"

section \<open>The program\<close>

text \<open>What \<open>displayChanged\<close> is connected to: the session's command starts.\<close>

definition start_session :: "x11_world \<Rightarrow> string \<Rightarrow> XOrgUserHelper \<Rightarrow> XOrgUserHelper" where
  "start_session W arg h = xo_log (SessionStarted (xw_split W arg) (sessionEnvironment W h)) h"

datatype x11_run = Exits int | Aborts | EventLoop XOrgUserHelper

definition x11_main :: "x11_world \<Rightarrow> string list \<Rightarrow> XOrgUserHelper \<Rightarrow> x11_run" where
  "x11_main W argv h =
     (if length argv \<noteq> 2 then Exits 33
      else case xo_start W (start_session W (argv ! 1)) h of
             None \<Rightarrow> Aborts
           | Some (_, h1) \<Rightarrow> EventLoop h1)"

definition new_helper :: "QString \<Rightarrow> x_fs \<Rightarrow> XOrgUserHelper" where
  "new_helper RUNTIME_DIR fs =
     \<lparr>xo_display = '':0'', xo_xauth = new_XAuth RUNTIME_DIR, xo_serverProcess = None, xo_fs = fs, xo_fds = [], xo_out = []\<rparr>"

section \<open>A session on the display\<close>

lemma join_str_append: "xs \<noteq> [] \<Longrightarrow> ys \<noteq> [] \<Longrightarrow> join_str s (xs @ ys) = join_str s xs @ s @ join_str s ys"
proof (induction xs rule: join_str.induct [of _ s])
  case (2 s w)
  then show ?case by (cases ys) simp_all
qed simp_all

lemma server_command_tokens:
  assumes "command_splitter (xw_split W)" "\<forall>w \<in> set (xorgArgs W @ server_args W a wfd e). token_ok (False, w)"
  shows "xw_split W (join_str '' '' (xorgArgs W) @ '' '' @ join_str '' '' (server_args W a wfd e)) = xorgArgs W @ server_args W a wfd e"
proof -
  have "join_str '' '' (xorgArgs W) @ '' '' @ join_str '' '' (server_args W a wfd e) = join_str '' '' (xorgArgs W @ server_args W a wfd e)"
    by (subst join_str_append) (simp_all add: xorgArgs_def server_args_def)
  then show ?thesis using command_splitter.split_words [OF assms] by simp
qed

lemma xo_log_sel [simp]:
  "xo_display (xo_log e h) = xo_display h" "xo_xauth (xo_log e h) = xo_xauth h" "xo_serverProcess (xo_log e h) = xo_serverProcess h"
  "xo_fs (xo_log e h) = xo_fs h" "xo_fds (xo_log e h) = xo_fds h" "xo_out (xo_log e h) = xo_out h @ [e]"
  by (simp_all add: xo_log_def)

lemma close_fd_sel [simp]:
  "xo_display (close_fd fd h) = xo_display h" "xo_xauth (close_fd fd h) = xo_xauth h"
  "xo_serverProcess (close_fd fd h) = xo_serverProcess h" "xo_fs (close_fd fd h) = xo_fs h"
  "xo_fds (close_fd fd h) = remove1 fd (xo_fds h)" "xo_out (close_fd fd h) = xo_out h"
  by (simp_all add: close_fd_def)

lemma start_session_sel [simp]:
  "xo_display (start_session W arg h) = xo_display h" "xo_xauth (start_session W arg h) = xo_xauth h"
  "xo_serverProcess (start_session W arg h) = xo_serverProcess h" "xo_fs (start_session W arg h) = xo_fs h"
  "xo_fds (start_session W arg h) = xo_fds h"
  "xo_out (start_session W arg h) = xo_out h @ [SessionStarted (xw_split W arg) (sessionEnvironment W h)]"
  by (simp_all add: start_session_def)

lemma run_script_sel [simp]:
  "xo_display (run_script W c e h) = xo_display h" "xo_xauth (run_script W c e h) = xo_xauth h"
  "xo_serverProcess (run_script W c e h) = xo_serverProcess h" "xo_fs (run_script W c e h) = xo_fs h"
  "xo_fds (run_script W c e h) = xo_fds h"
  by (simp_all add: run_script_def startProcess_def Let_def split_def)

definition sessions :: "x11_effect list \<Rightarrow> (string list \<times> env) list" where
  "sessions out = concat (map (\<lambda>e. case e of SessionStarted args en \<Rightarrow> [(args, en)] | _ \<Rightarrow> []) out)"

lemma sessions_simps [simp]:
  "sessions [] = []" "sessions (xs @ ys) = sessions xs @ sessions ys"
  "sessions (SessionStarted a e # xs) = (a, e) # sessions xs" "sessions (Started a e # xs) = sessions xs"
  "sessions (NotStarted a # xs) = sessions xs" "sessions (Cloexec n # xs) = sessions xs"
  "sessions (KilledProcess a # xs) = sessions xs" "sessions (TerminatedProcess a # xs) = sessions xs"
  by (simp_all add: sessions_def)

lemma run_script_sessions [simp]: "sessions (xo_out (run_script W c e h)) = sessions (xo_out h)"
  by (simp add: run_script_def startProcess_def Let_def split_def)

lemma run_script_keeps: "x \<in> set (xo_out h) \<Longrightarrow> x \<in> set (xo_out (run_script W c e h))"
  by (simp add: run_script_def startProcess_def Let_def split_def)

text \<open>The server's command, and \<open>start\<close> up to the point where the server writes the display's number.\<close>

definition server_cmd :: "x11_world \<Rightarrow> string \<Rightarrow> int \<Rightarrow> string" where
  "server_cmd W authPath wfd =
     join_str '' '' (xorgArgs W) @ '' ''
       @ join_str '' '' (server_args W authPath wfd (env_insert ''XORG_RUN_AS_USER_OK'' ''1'' (xw_env W)))"

definition with_server :: "x11_world \<Rightarrow> int \<Rightarrow> int \<Rightarrow> XOrgUserHelper \<Rightarrow> XOrgUserHelper" where
  "with_server W rfd wfd h =
     h\<lparr>xo_out := xo_out h @ [Cloexec rfd,
         Started (xw_split W (server_cmd W (m_authFile (xo_xauth h)) wfd)) (env_insert ''XORG_RUN_AS_USER_OK'' ''1'' (xw_env W))],
       xo_serverProcess := Some (xw_split W (server_cmd W (m_authFile (xo_xauth h)) wfd)),
       xo_fds := remove1 wfd (rfd # wfd # xo_fds h)\<rparr>"

lemma startServer_up:
  assumes "xw_pipe W = Some (rfd, wfd)" "xw_starts W (xw_split W (server_cmd W (m_authFile (xo_xauth h)) wfd))"
  shows "startServer W slot (join_str '' '' (xorgArgs W)) h = read_display W slot rfd (with_server W rfd wfd h)"
  using assms by (simp add: startServer_def server_cmd_def with_server_def startProcess_def Let_def xo_log_def close_fd_def)

lemma with_server_sel [simp]:
  "xo_display (with_server W r w h) = xo_display h" "xo_xauth (with_server W r w h) = xo_xauth h"
  "xo_fs (with_server W r w h) = xo_fs h" "xo_fds (with_server W r w h) = remove1 w (r # w # xo_fds h)"
  "xo_out (with_server W r w h) = xo_out h @ [Cloexec r,
     Started (xw_split W (server_cmd W (m_authFile (xo_xauth h)) w)) (env_insert ''XORG_RUN_AS_USER_OK'' ''1'' (xw_env W))]"
  by (simp_all add: with_server_def)

text \<open>The helper after its authority file has been made.\<close>

definition x11_prepared :: "x11_world \<Rightarrow> QString \<Rightarrow> XOrgUserHelper \<Rightarrow> XOrgUserHelper option" where
  "x11_prepared W dir h =
     map_option (\<lambda>(x, fs). h\<lparr>xo_xauth := x, xo_fs := fs\<rparr>)
       (xauth_setup (xw_temp W) (xw_rnd W) (setAuthDirectory dir (xo_xauth h), xo_fs h))"

lemma xo_start_prepared:
  "x11_prepared W (env_value (xw_env W) ''XDG_RUNTIME_DIR'') h = Some h0 \<Longrightarrow>
    xo_start W slot h =
      (let (ok, h1) = startServer W slot (join_str '' '' (xorgArgs W)) h0
       in Some (if \<not> ok then (False, h1) else (True, startDisplayCommand W h1)))"
  by (auto simp: xo_start_def x11_prepared_def Let_def)

lemma read_display_line:
  assumes "xw_pipe_opens W" "xw_line W = n @ [c]" "n \<noteq> []"
  shows "read_display W (start_session W arg) rfd h =
    (let h1 = start_session W arg (h\<lparr>xo_display := CHR '':'' # n\<rparr>);
         (ok, fs) = addCookie (xw_lib W) (CHR '':'' # n) (xo_xauth h) (xo_fs h)
     in if \<not> ok then (False, h1\<lparr>xo_fs := fs\<rparr>) else (True, close_fd rfd (h1\<lparr>xo_fs := fs\<rparr>)))"
  using assms by (cases n) (simp_all add: read_display_def announce_display_def Let_def split_def butlast_append)

lemma sessionEnvironment_get [simp]:
  "env_get (sessionEnvironment W h) ''DISPLAY'' = Some (xo_display h)"
  "env_get (sessionEnvironment W h) ''XAUTHORITY'' = Some (m_authFile (xo_xauth h))"
  by (simp_all add: sessionEnvironment_def display_environment_def env_simps)

lemma us_start_x11:
  "env_value (us_env s) ''XDG_SESSION_TYPE'' = ''x11'' \<Longrightarrow>
    us_arguments (snd (us_start cfg up s)) = [SESSION_COMMAND cfg @ '' \"'' @ us_path s @ ''\"'']"
  by (simp add: us_start_def Let_def)

lemma x11_prepared_new:
  "x11_prepared W dir (new_helper R fs) = Some h0 \<Longrightarrow>
    xo_fds h0 = [] \<and> xo_out h0 = [] \<and> xo_serverProcess h0 = None
    \<and> fs_files (xo_fs h0) (m_authFile (xo_xauth h0)) = Some \<lparr>xf_mode = 384, xf_bytes = []\<rparr> \<and> m_setup (xo_xauth h0)"
  using xauth_setup_file [of "xw_temp W" "xw_rnd W" "setAuthDirectory dir (new_XAuth R)" fs]
  by (auto simp: x11_prepared_def new_helper_def setAuthDirectory_def new_XAuth_def)

lemma x11_main_up:
  assumes "x11_prepared W (env_value (xw_env W) ''XDG_RUNTIME_DIR'') (new_helper dir fs) = Some h0"
    and "xw_pipe W = Some (rfd, wfd)" "\<forall>args. xw_starts W args" "xw_pipe_opens W" "xw_line W = n @ [c]" "n \<noteq> []"
  shows "x11_main W [prog, arg] (new_helper dir fs) = EventLoop
    (let h1 = start_session W arg ((with_server W rfd wfd h0)\<lparr>xo_display := CHR '':'' # n\<rparr>);
         (ok, fs1) = addCookie (xw_lib W) (CHR '':'' # n) (xo_xauth h0) (xo_fs h0)
     in if ok then startDisplayCommand W (close_fd rfd (h1\<lparr>xo_fs := fs1\<rparr>)) else h1\<lparr>xo_fs := fs1\<rparr>)"
  using assms
  by (simp add: x11_main_def xo_start_prepared startServer_up read_display_line Let_def split_def)


definition sample_world :: x11_world where
  "sample_world =
     \<lparr>xw_env = [(''XDG_SEAT'', ''seat0''), (''XDG_RUNTIME_DIR'', ''/run''), (''XDG_VTNR'', ''2'')], xw_serverPath = ''X'',
      xw_serverArguments = ''-dpi 96'', xw_dataDir = ''/d'', xw_split = split_cmd False [], xw_pipe = Some (5, 6),
      xw_starts = (\<lambda>args. True), xw_pipe_opens = True, xw_line = ''0'' @ [CHR 0x0A], xw_ends = (\<lambda>args. True),
      xw_lib = sample_lib, xw_temp = (\<lambda>t. Some ''/run/xauth_a''), xw_rnd = (\<lambda>i. 65 + i)\<rparr>"

definition empty_fs :: x_fs where
  "empty_fs = \<lparr>fs_umask = 18, fs_files = Map.empty, fs_streams = 0\<rparr>"

definition sample_helper :: XOrgUserHelper where
  "sample_helper = (new_helper ''/run'' empty_fs)\<lparr>xo_xauth := fst sample_xauth, xo_fs := snd sample_xauth\<rparr>"

lemma sample_prepared:
  "x11_prepared sample_world (env_value (xw_env sample_world) ''XDG_RUNTIME_DIR'') (new_helper ''/run'' empty_fs) = Some sample_helper"
proof -
  have "env_value (xw_env sample_world) ''XDG_RUNTIME_DIR'' = ''/run''"
    by (simp add: sample_world_def env_value_def env_get_def)
  moreover have "setAuthDirectory ''/run'' (new_XAuth ''/run'') = new_XAuth ''/run''"
    by (simp add: setAuthDirectory_def new_XAuth_def)
  ultimately show ?thesis
    using sample_setup by (simp add: x11_prepared_def sample_helper_def sample_world_def new_helper_def empty_fs_def split_def)
qed

lemma number_6: "number 6 = ''6''"
  by code_simp

lemma sample_tokens:
  "\<forall>w \<in> set (xorgArgs sample_world @ server_args sample_world (m_authFile (xo_xauth sample_helper)) 6
     (env_insert ''XORG_RUN_AS_USER_OK'' ''1'' (xw_env sample_world))). token_ok (False, w)"
  by (simp add: xorgArgs_def server_args_def sample_world_def sample_helper_def sample_xauth_def token_ok_def is_space_def
      split_skip_def env_value_def env_insert_def env_get_def number_6)

definition sample_build :: build_config where
  "sample_build = \<lparr>LIBEXEC_INSTALL_DIR = ''/l'', DATA_INSTALL_DIR = ''/d'', SESSION_COMMAND = ''/etc/Xsession'', WAYLAND_SESSION_COMMAND = ''/etc/W''\<rparr>"

definition sample_x11_session :: session where
  "sample_x11_session = \<lparr>us_path = ''plasma x'', us_env = [(''XDG_SESSION_TYPE'', ''x11'')], us_program = [], us_arguments = [],
     us_running = False\<rparr>"

lemma sample_cookie: "fst (addCookie (xw_lib sample_world) (CHR '':'' # ''0'') (xo_xauth sample_helper) (xo_fs sample_helper))"
  using sample_addCookie by (simp add: sample_world_def sample_helper_def)


text \<open>A cookie that cannot be written does not stop the session.  The session is started when the server
  announces its display, before the cookie is written: when the authority file then cannot be opened, \<open>start\<close> fails,
  but the program ignores that, the session and the server run on, the authority file is empty (a server without access control, as a
  comment in the code says), and the read end of the pipe stays open.
\<close>

theorem session_without_cookie:
  assumes "x11_prepared W (env_value (xw_env W) ''XDG_RUNTIME_DIR'') (new_helper dir fs) = Some h0"
    and "xw_pipe W = Some (rfd, wfd)" "\<forall>args. xw_starts W args" "xw_pipe_opens W" "xw_line W = n @ [c]" "n \<noteq> []"
    and "\<not> xl_fopen (xw_lib W) (m_authFile (xo_xauth h0))" "rfd \<noteq> wfd"
  shows "\<exists>h e. x11_main W [prog, arg] (new_helper dir fs) = EventLoop h \<and> sessions (xo_out h) = [(xw_split W arg, e)]
    \<and> env_get e ''DISPLAY'' = Some (CHR '':'' # n) \<and> xo_serverProcess h \<noteq> None
    \<and> map_option xf_bytes (fs_files (xo_fs h) (m_authFile (xo_xauth h0))) = Some [] \<and> xo_fds h = [rfd]"
proof -
  note new = x11_prepared_new [OF assms(1)]
  have add: "\<not> fst (addCookie (xw_lib W) d (xo_xauth h0) (xo_fs h0))"
    "fs_files (snd (addCookie (xw_lib W) d (xo_xauth h0) (xo_fs h0))) (m_authFile (xo_xauth h0)) = Some \<lparr>xf_mode = 384, xf_bytes = []\<rparr>" for d
    using new assms(7) by (simp_all add: addCookie_def writeCookieToFile_def umask_def fopen_wb_def Let_def)
  show ?thesis
    unfolding x11_main_up [OF assms(1-6)] using new add [of "CHR '':'' # n"] assms(8)
    by (simp add: Let_def split_def with_server_def)
qed

lemma session_without_cookie_witness:
  "\<exists>h e. x11_main (sample_world\<lparr>xw_lib := sample_lib\<lparr>xl_fopen := \<lambda>n. False\<rparr>\<rparr>) [''h'', ''kwin''] (new_helper ''/run'' empty_fs) = EventLoop h
    \<and> sessions (xo_out h) = [(xw_split sample_world ''kwin'', e)] \<and> xo_fds h = [5]"
proof -
  let ?W = "sample_world\<lparr>xw_lib := sample_lib\<lparr>xl_fopen := \<lambda>n. False\<rparr>\<rparr>"
  have prep: "x11_prepared ?W (env_value (xw_env ?W) ''XDG_RUNTIME_DIR'') (new_helper ''/run'' empty_fs) = Some sample_helper"
    using sample_prepared by (simp add: x11_prepared_def)
  have W: "xw_pipe ?W = Some (5, 6)" "\<forall>args. xw_starts ?W args" "xw_pipe_opens ?W" "xw_line ?W = ''0'' @ [CHR 0x0A]"
    "\<not> xl_fopen (xw_lib ?W) (m_authFile (xo_xauth sample_helper))" "xw_split ?W = xw_split sample_world"
    by (simp_all add: sample_world_def)
  from session_without_cookie [OF prep W(1-4) _ W(5), of "''h''" "''kwin''"] show ?thesis unfolding W(6) by auto
qed

text \<open>
  A display server that does not start leaves the program waiting.  When the X server's process does not
  start, no session is started and no process is left that could end the event loop, yet the program enters it; the write
  end of the pipe stays open.
\<close>

theorem unstarted_server_waits:
  assumes "x11_prepared W (env_value (xw_env W) ''XDG_RUNTIME_DIR'') (new_helper dir fs) = Some h0"
    and "xw_pipe W = Some (rfd, wfd)" "rfd \<noteq> wfd" "\<not> xw_starts W (xw_split W (server_cmd W (m_authFile (xo_xauth h0)) wfd))"
  shows "\<exists>h. x11_main W [prog, arg] (new_helper dir fs) = EventLoop h \<and> xo_serverProcess h = None
    \<and> xo_out h = [Cloexec rfd, NotStarted (xw_split W (server_cmd W (m_authFile (xo_xauth h0)) wfd))] \<and> xo_fds h = [wfd]"
  using assms x11_prepared_new [OF assms(1)]
  by (simp add: x11_main_def xo_start_prepared startServer_def startProcess_def server_cmd_def Let_def)

lemma unstarted_server_waits_witness:
  "\<exists>h. x11_main (sample_world\<lparr>xw_starts := \<lambda>args. False\<rparr>) [''h'', ''kwin''] (new_helper ''/run'' empty_fs) = EventLoop h
    \<and> xo_serverProcess h = None \<and> xo_fds h = [6]"
proof -
  let ?W = "sample_world\<lparr>xw_starts := \<lambda>args. False\<rparr>"
  have prep: "x11_prepared ?W (env_value (xw_env ?W) ''XDG_RUNTIME_DIR'') (new_helper ''/run'' empty_fs) = Some sample_helper"
    using sample_prepared by (simp add: x11_prepared_def)
  have W: "xw_pipe ?W = Some (5, 6)" "\<not> xw_starts ?W args" for args
    by (simp_all add: sample_world_def)
  from unstarted_server_waits [OF prep W(1) _ W(2), of "''h''" "''kwin''"] show ?thesis by auto
qed

end
