(* ===== verification/Main_Config.thy ===== *)
theory Main_Config
  imports Login_Settings
begin

text \<open>
  The daemon's configuration (\<open>src/common/MainConfigLoader.cpp\<close>) beside the settings page's
  (\<open>src/frontend/settings/plasmaloginsettings.cpp\<close>, theory Login_Settings): the two programs read the same files in
  two ways.  How KConfig merges its sources is a parameter with the contract its documentation gives.
\<close>

definition directory_sources :: "(QString \<Rightarrow> QString list option) \<Rightarrow> QString \<Rightarrow> QString list" where
  "directory_sources open_dir dir =
     (if dir = [] then [] else case open_dir dir of None \<Rightarrow> [] | Some files \<Rightarrow> files)"

definition main_config_sources :: "QString \<Rightarrow> QString \<Rightarrow> (QString \<Rightarrow> QString list option) \<Rightarrow> QString list" where
  "main_config_sources SYSTEM_CONFIG_DIR CONFIG_DIR open_dir =
     directory_sources open_dir SYSTEM_CONFIG_DIR @ directory_sources open_dir CONFIG_DIR"

text \<open>\<open>PlasmaLogin::config()\<close>: the sources are read once, and every later call gets the same object.\<close>

definition plasmalogin_config :: "QString list \<Rightarrow> QString list option \<Rightarrow> QString list \<times> QString list option" where
  "plasmalogin_config sources inst =
     (case inst of Some c \<Rightarrow> (c, inst) | None \<Rightarrow> (sources, Some sources))"

section \<open>What a key is read as\<close>

fun first_some :: "('a \<Rightarrow> 'b option) \<Rightarrow> 'a list \<Rightarrow> 'b option" where
  "first_some f [] = None"
| "first_some f (x # xs) = (case f x of None \<Rightarrow> first_some f xs | Some y \<Rightarrow> Some y)"

lemma first_some_append:
  "first_some f (xs @ ys) = (case first_some f xs of None \<Rightarrow> first_some f ys | Some y \<Rightarrow> Some y)"
  by (induction xs) (simp_all split: option.split)

text \<open>
  \<open>addConfigSources\<close>: of the files of one call the last one wins, and the files of a call lose to those of any call
  before.
\<close>

locale kconfig_sources =
  fixes rd :: "QString list list \<Rightarrow> 'k \<Rightarrow> QString option"
    and entry :: "QString \<Rightarrow> 'k \<Rightarrow> QString option"
  assumes read_first: "rd calls k = first_some (\<lambda>f. entry f k) (concat (map rev calls))"
begin

lemma read_call: "rd (fs # calls) k = (case first_some (\<lambda>f. entry f k) (rev fs) of None \<Rightarrow> rd calls k | Some v \<Rightarrow> Some v)"
  by (simp add: read_first first_some_append split: option.split)

lemma read_none: "rd [] k = None"
  by (simp add: read_first)

lemma read_joined: "rd [xs @ ys] k = rd [ys, xs] k"
  by (simp add: read_first)

end

definition merge_sources :: "(QString \<Rightarrow> 'k \<Rightarrow> QString option) \<Rightarrow> QString list list \<Rightarrow> 'k \<Rightarrow> QString option" where
  "merge_sources entry calls k = first_some (\<lambda>f. entry f k) (concat (map rev calls))"

interpretation ms: kconfig_sources "merge_sources entry" entry
  by unfold_locales (simp add: merge_sources_def)

lemma read_directory:
  "kconfig_sources rd entry \<Longrightarrow> dir \<noteq> [] \<Longrightarrow>
    rd (addDirectoryToConfig open_dir dir @ calls) k = rd (directory_sources open_dir dir # calls) k"
  by (cases "open_dir dir") (simp_all add: kconfig_sources.read_call addDirectoryToConfig_def directory_sources_def)

text \<open>The settings page shows what the daemon uses, as far as the directories go.  For a key that the file of system
  defaults does not set, both read the same value from the two directories; a key that only this file sets is read by
  the page alone: the daemon does not know the file.
\<close>

theorem page_shows_what_daemon_reads:
  assumes "kconfig_sources rd entry" "PLASMALOGIN_CONFIG_DIR P \<noteq> []" "PLASMALOGIN_SYSTEM_CONFIG_DIR P \<noteq> []"
  shows "let page = rd (config_sources P open_dir) k;
             daemon = rd [main_config_sources (PLASMALOGIN_SYSTEM_CONFIG_DIR P) (PLASMALOGIN_CONFIG_DIR P) open_dir] k;
             dflt = entry (PLASMALOGIN_SYSTEM_CONFIG_FILE P) k
         in (dflt = None \<longrightarrow> page = daemon) \<and> (daemon = None \<longrightarrow> page = dflt)"
proof -
  let ?c = "directory_sources open_dir (PLASMALOGIN_CONFIG_DIR P)" and ?s = "directory_sources open_dir (PLASMALOGIN_SYSTEM_CONFIG_DIR P)"
  have page: "rd (config_sources P open_dir) k = rd [?c, [PLASMALOGIN_SYSTEM_CONFIG_FILE P], ?s] k"
    using read_directory [OF assms(1,2)] read_directory [OF assms(1,3), of open_dir "[]"]
    by (simp add: config_sources_def kconfig_sources.read_call [OF assms(1)] split: option.split)
  have daemon: "rd [main_config_sources (PLASMALOGIN_SYSTEM_CONFIG_DIR P) (PLASMALOGIN_CONFIG_DIR P) open_dir] k = rd [?c, ?s] k"
    by (simp add: main_config_sources_def kconfig_sources.read_joined [OF assms(1)])
  show ?thesis
    unfolding page daemon
    by (simp add: kconfig_sources.read_call [OF assms(1)] kconfig_sources.read_none [OF assms(1)] Let_def split: option.split)
qed

definition sample_paths :: config_paths where
  "sample_paths = \<lparr>PLASMALOGIN_CONFIG_DIR = ''/e.d'', PLASMALOGIN_SYSTEM_CONFIG_FILE = ''/l/defaults.conf'',
     PLASMALOGIN_SYSTEM_CONFIG_DIR = ''/l.d''\<rparr>"

lemma page_shows_what_daemon_reads_witness:
  "merge_sources (\<lambda>f k. if f = ''/l/defaults.conf'' then Some ''joe'' else None)
     [main_config_sources ''/l.d'' ''/e.d'' (\<lambda>d. None)] () = None
   \<and> merge_sources (\<lambda>f k. if f = ''/l/defaults.conf'' then Some ''joe'' else None) (config_sources sample_paths (\<lambda>d. None)) () = Some ''joe''"
proof -
  let ?entry = "\<lambda>f k. if f = ''/l/defaults.conf'' then Some ''joe'' else None"
  have none: "merge_sources ?entry [main_config_sources ''/l.d'' ''/e.d'' (\<lambda>d. None)] () = None"
    by (simp add: merge_sources_def main_config_sources_def directory_sources_def)
  have P: "PLASMALOGIN_CONFIG_DIR sample_paths = ''/e.d''" "PLASMALOGIN_SYSTEM_CONFIG_DIR sample_paths = ''/l.d''"
    "PLASMALOGIN_SYSTEM_CONFIG_FILE sample_paths = ''/l/defaults.conf''"
    by (simp_all add: sample_paths_def)
  from page_shows_what_daemon_reads [OF ms.kconfig_sources_axioms, of sample_paths ?entry "\<lambda>d. None" "()"] none
  show ?thesis by (simp add: P)
qed

end
