(* ===== verification/Log_Output.thy ===== *)
theory Log_Output
  imports Prelude
begin

text \<open>
  Log output of the daemon, the helper and the greeter (\<open>src/common/MessageHandler.h\<close>), and the random names of the
  daemon's sockets (\<open>src/daemon/Utils.h\<close>).

  The journal, the files and the clock are parameters; the two static variables of the functions are the state.
\<close>

section \<open>The journal\<close>

datatype msg_type = QtDebugMsg | QtInfoMsg | QtWarningMsg | QtCriticalMsg | QtFatalMsg

record log_context =
  lc_file :: "string option"
  lc_line :: int
  lc_function :: "string option"

datatype log_output =
    Journal int string string string string
  | ToFile string string
  | ToStderr string

text \<open>The priorities of \<open>syslog.h\<close>.\<close>

definition journal_priority :: "msg_type \<Rightarrow> int" where
  "journal_priority t =
     (case t of QtDebugMsg \<Rightarrow> 7 | QtInfoMsg \<Rightarrow> 6 | QtWarningMsg \<Rightarrow> 4 | QtCriticalMsg \<Rightarrow> 2 | QtFatalMsg \<Rightarrow> 1)"

text \<open>\<open>snprintf\<close> into a buffer of \<open>n\<close> bytes.\<close>

definition snprintf :: "nat \<Rightarrow> string \<Rightarrow> string" where
  "snprintf n s = take (n - 1) s"

definition or_unknown :: "string option \<Rightarrow> string" where
  "or_unknown s = (case s of None \<Rightarrow> ''unknown'' | Some t \<Rightarrow> t)"

definition journaldLogger :: "nat \<Rightarrow> msg_type \<Rightarrow> log_context \<Rightarrow> QString \<Rightarrow> log_output" where
  "journaldLogger PATH_MAX t ctx msg =
     Journal (journal_priority t) (snprintf (PATH_MAX + 11) (''CODE_FILE='' @ or_unknown (lc_file ctx)))
       (snprintf 32 (''CODE_LINE='' @ number (lc_line ctx))) (or_unknown (lc_function ctx)) msg"

section \<open>The log file\<close>

text \<open>
  \<open>le_opens\<close> tells whether a file can be opened (\<open>True\<close>: to append, \<open>False\<close>: truncated), \<open>le_appData\<close> is
  the writable location for the application's data.
\<close>

record log_env =
  le_tty :: bool
  le_user :: string
  le_opens :: "string \<Rightarrow> bool \<Rightarrow> bool"
  le_appData :: string
  le_path_max :: nat

record log_state =
  ls_isInteractive :: "bool option"
  ls_fileName :: string
  ls_isOpen :: bool

definition new_log :: "string \<Rightarrow> log_state" where
  "new_log LOG_FILE = \<lparr>ls_isInteractive = None, ls_fileName = LOG_FILE, ls_isOpen = False\<rparr>"

definition open_log :: "log_env \<Rightarrow> string \<Rightarrow> bool" where
  "open_log E name \<longleftrightarrow> le_opens E name True \<or> le_opens E name False"

definition ensure_log :: "log_env \<Rightarrow> log_state \<Rightarrow> log_state" where
  "ensure_log E s =
     (if ls_isOpen s \<or> le_tty E then s
      else if open_log E (ls_fileName s) then s\<lparr>ls_isOpen := True\<rparr>
      else let name = le_appData E @ ''/plasmalogin.log'' in s\<lparr>ls_fileName := name, ls_isOpen := open_log E name\<rparr>)"

definition log_priority :: "msg_type \<Rightarrow> string" where
  "log_priority t =
     (case t of QtWarningMsg \<Rightarrow> ''(WW)'' | QtCriticalMsg \<Rightarrow> ''(EE)'' | QtFatalMsg \<Rightarrow> ''(EE)'' | _ \<Rightarrow> ''(II)'')"

definition standardLogger :: "log_env \<Rightarrow> string \<Rightarrow> msg_type \<Rightarrow> QString \<Rightarrow> log_state \<Rightarrow> log_output \<times> log_state" where
  "standardLogger E timestamp t msg s =
     (let s1 = ensure_log E s;
          logMessage = ''['' @ timestamp @ ''] '' @ log_priority t @ '' '' @ msg @ [CHR 0x0A]
      in (if ls_isOpen s1 then ToFile (ls_fileName s1) logMessage else ToStderr logMessage, s1))"

definition messageHandler ::
  "log_env \<Rightarrow> string \<Rightarrow> msg_type \<Rightarrow> log_context \<Rightarrow> QString \<Rightarrow> QString \<Rightarrow> log_state \<Rightarrow> log_output \<times> log_state" where
  "messageHandler E timestamp t ctx prefx msg s =
     (let interactive = (case ls_isInteractive s of Some b \<Rightarrow> b | None \<Rightarrow> le_tty E \<and> le_user E \<noteq> ''plasmalogin'');
          s1 = s\<lparr>ls_isInteractive := Some interactive\<rparr>
      in if \<not> interactive then (journaldLogger (le_path_max E) t ctx msg, s1)
         else standardLogger E timestamp t (prefx @ msg) s1)"

definition DaemonMessageHandler ::
  "log_env \<Rightarrow> string \<Rightarrow> msg_type \<Rightarrow> log_context \<Rightarrow> QString \<Rightarrow> log_state \<Rightarrow> log_output \<times> log_state" where
  "DaemonMessageHandler E timestamp t ctx msg = messageHandler E timestamp t ctx ''DAEMON: '' msg"

definition HelperMessageHandler ::
  "log_env \<Rightarrow> string \<Rightarrow> msg_type \<Rightarrow> log_context \<Rightarrow> QString \<Rightarrow> log_state \<Rightarrow> log_output \<times> log_state" where
  "HelperMessageHandler E timestamp t ctx msg = messageHandler E timestamp t ctx ''HELPER: '' msg"

definition GreeterMessageHandler ::
  "log_env \<Rightarrow> string \<Rightarrow> msg_type \<Rightarrow> log_context \<Rightarrow> QString \<Rightarrow> log_state \<Rightarrow> log_output \<times> log_state" where
  "GreeterMessageHandler E timestamp t ctx msg = messageHandler E timestamp t ctx ''GREETER: '' msg"

text \<open>A history of messages.\<close>

fun log_all :: "log_env \<Rightarrow> QString \<Rightarrow> (string \<times> msg_type \<times> log_context \<times> QString) list \<Rightarrow> log_state \<Rightarrow> log_output list" where
  "log_all E prefx [] s = []"
| "log_all E prefx ((timestamp, t, ctx, msg) # ms) s =
     (let (out, s1) = messageHandler E timestamp t ctx prefx msg s in out # log_all E prefx ms s1)"

text \<open>
  All messages of a process go to one place, decided by the first: the journal, or the standard error of a terminal; the
  log file is never written, because it is opened only when the standard error is no terminal, and then the journal is used.
\<close>

lemma log_all_one_place:
  "ls_isOpen s = False \<Longrightarrow> ls_isInteractive s = None \<or> ls_isInteractive s = Some (le_tty E \<and> le_user E \<noteq> ''plasmalogin'') \<Longrightarrow>
    if le_tty E \<and> le_user E \<noteq> ''plasmalogin'' then \<forall>out \<in> set (log_all E prefx ms s). \<exists>l. out = ToStderr l
    else \<forall>out \<in> set (log_all E prefx ms s). \<exists>p f l g m. out = Journal p f l g m"
proof (induction ms arbitrary: s)
  case (Cons x ms)
  obtain timestamp t ctx msg where x: "x = (timestamp, t, ctx, msg)" using prod_cases4 by blast
  let ?r = "messageHandler E timestamp t ctx prefx msg s"
  have s1: "ls_isOpen (snd ?r) = False" "ls_isInteractive (snd ?r) = Some (le_tty E \<and> le_user E \<noteq> ''plasmalogin'')"
    "if le_tty E \<and> le_user E \<noteq> ''plasmalogin'' then \<exists>l. fst ?r = ToStderr l else \<exists>p f l g m. fst ?r = Journal p f l g m"
    using Cons.prems by (auto simp: messageHandler_def standardLogger_def ensure_log_def journaldLogger_def Let_def)
  with Cons.IH [of "snd ?r"] show ?case by (simp add: x split_def Let_def split: if_splits)
qed simp

section \<open>Random names\<close>

definition name_letters :: string where
  "name_letters = ''abcdefghijklmnopqrstuvwxyzABCDEFGHIJKLMNOPQRSTUVWXYZ''"

text \<open>\<open>rnd\<close> gives numbers from 0 to the length of the alphabet less one; a negative length is not asked for.\<close>

definition generateName :: "(nat \<Rightarrow> nat) \<Rightarrow> nat \<Rightarrow> QString" where
  "generateName rnd len = map (\<lambda>i. name_letters ! rnd i) [0..<len]"

lemma generateName_letters:
  "\<forall>i. rnd i < length name_letters \<Longrightarrow> length (generateName rnd len) = len \<and> set (generateName rnd len) \<subseteq> set name_letters"
  by (auto simp: generateName_def)

end
