(* ===== verification/Wallpaper_Integration.thy ===== *)
theory Wallpaper_Integration
  imports Login_Settings
begin

text \<open>
  The object behind a wallpaper plugin's configuration (\<open>src/frontend/settings/wallpaperintegration.cpp\<close>,
  \<open>wallpaperintegration.h\<close>) and how \<open>WallpaperSettings::loadWallpaperConfig\<close> builds it
  (\<open>src/frontend/settings/wallpapersettings.cpp\<close>).  The theory Login_Settings has the same operation over a number and a
  plugin name; here the object is there with its members, and the two are related.

  KPackage is a parameter: whether a package with a path (\<open>None\<close>: no path has been set) is valid, and the path of one of its
  files.  The shared configuration is a number.  A call through a null pointer is the result \<open>None\<close>.
\<close>

record package_files =
  pf_valid :: "QString option \<Rightarrow> bool"
  pf_filePath :: "QString option \<Rightarrow> string \<Rightarrow> string \<Rightarrow> QString"

text \<open>A \<open>KConfigLoader\<close>: the group it reads, in which configuration, and the file with its scheme.\<close>

record config_loader =
  cl_config :: nat
  cl_group :: "string list"
  cl_xml :: "QString option"

record WallpaperIntegration =
  wi_pluginName :: QString
  wi_package :: "QString option"
  wi_config :: "nat option"
  wi_configLoader :: "config_loader option"
  wi_configuration :: "config_loader option"

datatype integration_signal = PackageChanged

definition integration_new :: WallpaperIntegration where
  "integration_new = \<lparr>wi_pluginName = [], wi_package = None, wi_config = None, wi_configLoader = None, wi_configuration = None\<rparr>"

definition setConfig :: "nat \<Rightarrow> WallpaperIntegration \<Rightarrow> WallpaperIntegration" where
  "setConfig config w = w\<lparr>wi_config := Some config\<rparr>"

definition setPluginName :: "QString \<Rightarrow> WallpaperIntegration \<Rightarrow> WallpaperIntegration \<times> integration_signal list" where
  "setPluginName name w =
     (if wi_pluginName w = name then (w, [])
      else (w\<lparr>wi_pluginName := name, wi_package := Some name\<rparr>, [PackageChanged]))"

definition configScheme :: "package_files \<Rightarrow> WallpaperIntegration \<Rightarrow> (config_loader \<times> WallpaperIntegration) option" where
  "configScheme P w =
     (case wi_configLoader w of
        Some l \<Rightarrow> Some (l, w)
      | None \<Rightarrow>
          let xmlPath = pf_filePath P (wi_package w) ''config'' ''main.xml'' in
          case wi_config w of
            None \<Rightarrow> None
          | Some config \<Rightarrow>
              let l = \<lparr>cl_config = config, cl_group = [''Greeter'', ''Wallpaper'', wi_pluginName w],
                       cl_xml = (if xmlPath = [] then None else Some xmlPath)\<rparr>
              in Some (l, w\<lparr>wi_configLoader := Some l\<rparr>))"

definition integration_init :: "package_files \<Rightarrow> WallpaperIntegration \<Rightarrow> WallpaperIntegration option" where
  "integration_init P w =
     (if \<not> pf_valid P (wi_package w) then Some w
      else map_option (\<lambda>(l, w1). w1\<lparr>wi_configuration := Some l\<rparr>) (configScheme P w))"

section \<open>The settings that own it\<close>

record wallpaper_objects =
  wo_integration :: "(nat \<times> WallpaperIntegration) option"
  wo_settings :: "(nat \<times> config_loader) option"
  wo_configFile :: QString
  wo_next :: nat

definition load_wallpaper_objects ::
  "package_files \<Rightarrow> nat \<Rightarrow> QString \<Rightarrow> wallpaper_objects \<Rightarrow> (wallpaper_objects \<times> wallpaper_effect list) option" where
  "load_wallpaper_objects P config pluginId wo =
     (if map_option (wi_pluginName \<circ> snd) (wo_integration wo) = Some pluginId then Some (wo, [])
      else
        let deleted = (case wo_integration wo of None \<Rightarrow> [] | Some (i, _) \<Rightarrow> [DeleteIntegration i]);
            w = fst (setPluginName pluginId (setConfig config integration_new));
            i = wo_next wo
        in case Option.bind (integration_init P w) (configScheme P) of
             None \<Rightarrow> None
           | Some (l, w1) \<Rightarrow>
               Some (\<lparr>wo_integration = Some (i, w1), wo_settings = Some (i, l),
                      wo_configFile = pf_filePath P (wi_package w1) ''ui'' ''config.qml'', wo_next = i + 1\<rparr>,
                     deleted @ [CurrentWallpaperChanged]))"

text \<open>The loader a plugin should have.\<close>

definition package_of :: "QString \<Rightarrow> QString option" where
  "package_of plugin = (if plugin = [] then None else Some plugin)"

definition loader_for :: "package_files \<Rightarrow> nat \<Rightarrow> QString \<Rightarrow> config_loader" where
  "loader_for P config plugin =
     (let xml = pf_filePath P (package_of plugin) ''config'' ''main.xml''
      in \<lparr>cl_config = config, cl_group = [''Greeter'', ''Wallpaper'', plugin], cl_xml = (if xml = [] then None else Some xml)\<rparr>)"

text \<open>
  The live object is for its plugin in all its parts: its package, its loader, its map when the package is valid, the
  skeleton the settings keep and the page's file.
\<close>

definition objects_ok :: "package_files \<Rightarrow> nat \<Rightarrow> wallpaper_objects \<Rightarrow> bool" where
  "objects_ok P config wo =
     (case wo_integration wo of
        None \<Rightarrow> wo_settings wo = None
      | Some (i, w) \<Rightarrow>
          let l = loader_for P config (wi_pluginName w) in
          wi_package w = package_of (wi_pluginName w) \<and> wi_configLoader w = Some l \<and> wo_settings wo = Some (i, l)
          \<and> wi_configuration w = (if pf_valid P (wi_package w) then Some l else None)
          \<and> wo_configFile wo = pf_filePath P (wi_package w) ''ui'' ''config.qml'')"

text \<open>The view of the theory Login_Settings.\<close>

definition settings_view :: "wallpaper_objects \<Rightarrow> WallpaperSettings" where
  "settings_view wo =
     \<lparr>m_wallpaperIntegration = map_option (\<lambda>(i, w). (i, wi_pluginName w)) (wo_integration wo),
      m_wallpaperSettings = map_option fst (wo_settings wo), ws_next = wo_next wo\<rparr>"

lemma fresh_integration:
  "\<exists>w. Option.bind (integration_init P (fst (setPluginName plugin (setConfig config integration_new)))) (configScheme P)
      = Some (loader_for P config plugin, w)
    \<and> wi_pluginName w = plugin \<and> wi_package w = package_of plugin \<and> wi_configLoader w = Some (loader_for P config plugin)
    \<and> wi_configuration w = (if pf_valid P (package_of plugin) then Some (loader_for P config plugin) else None)"
  by (simp add: integration_init_def configScheme_def setPluginName_def setConfig_def integration_new_def
      loader_for_def package_of_def Let_def)

text \<open>Property C31: the wallpaper's configuration is never that of another plugin.  From a consistent state, and there is one
  without any object, loading the configuration of a plugin calls through no null pointer and does what the simpler view of the
  settings says, effect for effect; and afterwards the object, its loader, the skeleton of the settings and the page's file are
  those of that plugin, in the group of its name, although the object keeps the loader it has made first for good.\<close>

theorem wallpaper_objects_refine:
  assumes "objects_ok P config wo"
  shows "\<exists>wo' out. load_wallpaper_objects P config plugin wo = Some (wo', out)
    \<and> loadWallpaperConfig plugin (settings_view wo) = (settings_view wo', out)
    \<and> objects_ok P config wo' \<and> map_option (wi_pluginName \<circ> snd) (wo_integration wo') = Some plugin
    \<and> map_option snd (wo_settings wo') = Some (loader_for P config plugin)"
proof (cases "map_option (wi_pluginName \<circ> snd) (wo_integration wo) = Some plugin")
  case True
  then obtain i w where "wo_integration wo = Some (i, w)" "wi_pluginName w = plugin" by auto
  with assms show ?thesis
    by (simp add: load_wallpaper_objects_def loadWallpaperConfig_def settings_view_def objects_ok_def Let_def)
next
  case False
  obtain w where w: "Option.bind (integration_init P (fst (setPluginName plugin (setConfig config integration_new)))) (configScheme P)
      = Some (loader_for P config plugin, w)" "wi_pluginName w = plugin" "wi_package w = package_of plugin"
    "wi_configLoader w = Some (loader_for P config plugin)"
    "wi_configuration w = (if pf_valid P (package_of plugin) then Some (loader_for P config plugin) else None)"
    using fresh_integration by blast
  with False show ?thesis
    by (cases "wo_integration wo")
      (auto simp: load_wallpaper_objects_def loadWallpaperConfig_def settings_view_def objects_ok_def Let_def)
qed

definition no_objects :: wallpaper_objects where
  "no_objects = \<lparr>wo_integration = None, wo_settings = None, wo_configFile = [], wo_next = 0\<rparr>"

definition sample_packages :: package_files where
  "sample_packages = \<lparr>pf_valid = (\<lambda>p. p \<noteq> None),
     pf_filePath = (\<lambda>p key file. case p of None \<Rightarrow> [] | Some n \<Rightarrow> n @ ''/'' @ key @ ''/'' @ file)\<rparr>"

lemma wallpaper_objects_refine_witness:
  "\<exists>wo1 wo2 out1 out2. load_wallpaper_objects sample_packages 1 ''image'' no_objects = Some (wo1, out1)
     \<and> load_wallpaper_objects sample_packages 1 ''color'' wo1 = Some (wo2, out2)
     \<and> map_option (cl_group \<circ> snd) (wo_settings wo2) = Some [''Greeter'', ''Wallpaper'', ''color'']"
proof -
  have "objects_ok sample_packages 1 no_objects" by (simp add: objects_ok_def no_objects_def)
  from wallpaper_objects_refine [OF this, of "''image''"] obtain wo1 out1 where
    a: "load_wallpaper_objects sample_packages 1 ''image'' no_objects = Some (wo1, out1)" "objects_ok sample_packages 1 wo1"
    by blast
  from wallpaper_objects_refine [OF a(2), of "''color''"] obtain wo2 out2 where
    "load_wallpaper_objects sample_packages 1 ''color'' wo1 = Some (wo2, out2)"
    "map_option snd (wo_settings wo2) = Some (loader_for sample_packages 1 ''color'')"
    by blast
  with a(1) show ?thesis by (auto simp: loader_for_def Let_def)
qed

text \<open>An object whose plugin is changed after its loader has been made keeps reading the configuration of the first.\<close>

lemma changed_plugin_keeps_loader:
  assumes "configScheme P w = Some (l, w1)" "configScheme P (fst (setPluginName plugin w1)) = Some (l2, w2)"
  shows "l2 = l"
  using assms
  by (auto simp: configScheme_def setPluginName_def Let_def split: option.splits if_splits)

end
