(* ===== verification/Daemon_Life.thy ===== *)
theory Daemon_Life
  imports Daemon_App Display_Life
begin

text \<open>
  The whole daemon at work (\<open>src/daemon/DaemonApp.cpp\<close>, \<open>src/daemon/SeatManager.cpp\<close>, \<open>src/daemon/Seat.cpp\<close> and
  \<open>src/daemon/Display.cpp\<close> together): in the theory Daemon_App a display does whatever it likes, here it does what the
  theory Display_Life lets it do.  Seats come and go with logind, displays with their seats, and every display of every
  seat hears from its own event sources in any order; what is proved of one display holds for each of them.
\<close>

section \<open>The system\<close>

text \<open>\<open>dl_delivered i j\<close> counts the queued calls the event loop has made for the display \<open>j\<close> of the seat \<open>i\<close>.\<close>

record daemon_life =
  dl_app :: daemon_app
  dl_delivered :: "nat \<Rightarrow> nat \<Rightarrow> nat"

definition env_at :: "daemon_env \<Rightarrow> QString \<Rightarrow> daemon_env" where
  "env_at E name = E\<lparr>de_seat := name\<rparr>"

text \<open>
  What the displays of a seat see: the same programs for every seat, and the configuration the file holds when a display
  is created.  \<open>C\<close> are the configurations the administrator writes to it in the life of the daemon.
\<close>

definition with_config :: "daemon_config \<Rightarrow> daemon_env \<Rightarrow> daemon_env" where
  "with_config cfg E = E\<lparr>de_config := cfg\<rparr>"

definition same_daemons :: "daemon_config set \<Rightarrow> daemon_env \<Rightarrow> (QString \<Rightarrow> daemon_env) \<Rightarrow> bool" where
  "same_daemons C E0 E \<longleftrightarrow> (\<forall>name. de_config (E name) \<in> C \<and> same_programs (env_at E0 name) (env_at (E name) name))"

definition seat_named :: "daemon_app \<Rightarrow> nat \<Rightarrow> QString \<Rightarrow> bool" where
  "seat_named app i name \<longleftrightarrow> (i, name) \<in> set (sm_objects (da_sm app))"

text \<open>
  One display makes a step of its life and the others stay as they are; the counters of the daemon are shared.  The seat
  manager's events, the two signals of a display to its seat, the switch to the greeter and the signals of the system are
  those of the theory Daemon_App.
\<close>

inductive dl_step :: "qds \<Rightarrow> daemon_config set \<Rightarrow> daemon_env \<Rightarrow> daemon_life \<Rightarrow> daemon_life \<Rightarrow> bool" for c C E0 where
  logind: "da_logind (dl_app w) \<Longrightarrow> sm_step (da_sm (dl_app w)) (f (da_sm (dl_app w))) \<Longrightarrow> same_daemons C E0 E \<Longrightarrow>
     dl_step c C E0 w (w\<lparr>dl_app := daemon_event E S r f (dl_app w)\<rparr>)"
| display: "seat_named (dl_app w) i name \<Longrightarrow> map_of (da_seats (dl_app w)) i = Some st \<Longrightarrow> map_of (st_displays st) j = Some (a, d) \<Longrightarrow>
     life_step c (env_at E0 name)
       \<lparr>lf_delivered = dl_delivered w i j, lf_display = (a, d\<lparr>d_globals := da_globals (dl_app w)\<rparr>)\<rparr> l \<Longrightarrow>
     dl_step c C E0 w \<lparr>dl_app = on_seat (on_display (\<lambda>_. lf_display l) j) i (dl_app w),
       dl_delivered = (dl_delivered w)(i := (dl_delivered w i)(j := lf_delivered l))\<rparr>"
| stopped: "seat_named (dl_app w) i name \<Longrightarrow> de_config E \<in> C \<Longrightarrow> same_programs (env_at E0 name) E \<Longrightarrow>
     dl_step c C E0 w (w\<lparr>dl_app := on_seat (seat_displayStopped E S r j) i (dl_app w)\<rparr>)"
| failed: "dl_step c C E0 w (w\<lparr>dl_app := on_seat (seat_displayServerFailed S j) i (dl_app w)\<rparr>)"
| switch: "same_daemons C E0 E \<Longrightarrow> dl_step c C E0 w (w\<lparr>dl_app := daemon_switchToGreeter E r sessions name (dl_app w)\<rparr>)"
| signal: "dl_step c C E0 w (w\<lparr>dl_app := daemon_signal s (dl_app w)\<rparr>)"

inductive dl_reachable :: "qds \<Rightarrow> daemon_config set \<Rightarrow> daemon_env \<Rightarrow> daemon_life \<Rightarrow> bool" for c C E0 where
  start: "\<forall>l. seats = Some l \<longrightarrow> distinct l \<Longrightarrow> same_daemons C E0 E \<Longrightarrow>
     dl_reachable c C E0 \<lparr>dl_app = daemon_new E r seats, dl_delivered = (\<lambda>_ _. 0)\<rparr>"
| step: "dl_reachable c C E0 w \<Longrightarrow> dl_step c C E0 w w' \<Longrightarrow> dl_reachable c C E0 w'"

section \<open>A daemon of lives is a daemon\<close>

lemma dl_step_daemon: "dl_step c C E0 w w' \<Longrightarrow> daemon_step (dl_app w) (dl_app w')"
  by (induction rule: dl_step.induct) (simp_all add: daemon_step.intros)

lemma dl_reachable_daemon: "dl_reachable c C E0 w \<Longrightarrow> daemon_reachable (dl_app w)"
  by (induction rule: dl_reachable.induct) (auto intro: daemon_reachable.intros dl_step_daemon)

lemma daemon_reachable_ok: "daemon_reachable app \<Longrightarrow> daemon_ok app"
  by (induction rule: daemon_reachable.induct) (auto intro: start_ok step_ok)

section \<open>The displays of a seat\<close>

text \<open>The steps of a display do not depend on the configuration it was created with.\<close>

lemma life_step_programs:
  "life_step c E l l' \<Longrightarrow> same_programs E' = same_programs E \<Longrightarrow> life_step c E' l l'"
  by (induction rule: life_step.induct) (simp_all add: life_step.intros)

lemma life_step_config: "life_step c E l l' \<Longrightarrow> life_step c (with_config cfg E) l l'"
  by (erule life_step_programs) (simp add: fun_eq_iff same_programs_def with_config_def)

text \<open>A display in a state of its life, which began with one of the configurations.\<close>

definition lives :: "qds \<Rightarrow> daemon_config set \<Rightarrow> daemon_env \<Rightarrow> nat \<Rightarrow> disp \<Rightarrow> bool" where
  "lives c C E k ad \<longleftrightarrow> (\<exists>cfg \<in> C. life_reachable c (with_config cfg E) \<lparr>lf_delivered = k, lf_display = ad\<rparr>)"

lemma lives_globals: "lives c C E k (a, d) \<Longrightarrow> lives c C E k (a, d\<lparr>d_globals := g\<rparr>)"
  unfolding lives_def using life_reachable.others [of c _ "\<lparr>lf_delivered = k, lf_display = (a, d)\<rparr>" g] by auto

lemma lives_step:
  "lives c C E k ad \<Longrightarrow> life_step c E \<lparr>lf_delivered = k, lf_display = ad\<rparr> \<lparr>lf_delivered = k', lf_display = ad'\<rparr> \<Longrightarrow> lives c C E k' ad'"
  unfolding lives_def using life_reachable.next_event [OF _ life_step_config] by blast

lemma lives_stopped: "lives c C E k ad \<Longrightarrow> lives c C E k (display_stop S ad)"
  using lives_step [OF _ life_step.stopped [of c E "\<lparr>lf_delivered = k, lf_display = ad\<rparr>" S, simplified]] by simp

lemma lives_begin:
  assumes "de_config E' \<in> C" "same_programs E E'"
  shows "lives c C E 0 (snd (display_start E' (display_new E' r g)))"
proof -
  have "same_daemon (with_config (de_config E') E) E'"
    using assms(2) by (simp add: same_daemon_def same_programs_def with_config_def)
  from life_reachable.begun [OF this this, of c r g] assms(1) show ?thesis by (auto simp: lives_def life_begin_def)
qed

definition seat_lives :: "qds \<Rightarrow> daemon_config set \<Rightarrow> daemon_env \<Rightarrow> (nat \<Rightarrow> nat) \<Rightarrow> Seat \<Rightarrow> bool" where
  "seat_lives c C E n st \<longleftrightarrow> (\<forall>j \<ge> st_next st. n j = 0)
     \<and> (\<forall>(j, ad) \<in> set (st_displays st). j < st_next st \<and> lives c C E (n j) ad)"

lemma seat_lives_simps [simp]:
  "seat_lives c C E n (st\<lparr>st_globals := g\<rparr>) = seat_lives c C E n st" "seat_lives c C E n (st_effect x st) = seat_lives c C E n st"
  "seat_lives c C E (\<lambda>_. 0) (seat_new g)"
  by (simp_all add: seat_lives_def seat_new_def)

text \<open>One display changes, its queued calls included; the others keep theirs.\<close>

lemma seat_lives_on_display:
  assumes "seat_lives c C E n st"
    "\<And>a d. map_of (st_displays st) j = Some (a, d) \<Longrightarrow> lives c C E k (f (a, d\<lparr>d_globals := st_globals st\<rparr>))"
    "map_of (st_displays st) j = None \<Longrightarrow> k = n j"
  shows "seat_lives c C E (n(j := k)) (on_display f j st)"
proof (cases "map_of (st_displays st) j")
  case None
  with assms show ?thesis by (simp add: on_display_def)
next
  case (Some ad)
  obtain a d where ad: "ad = (a, d)" by fastforce
  from Some have "(j, ad) \<in> set (st_displays st)" by (rule map_of_SomeD)
  with assms(1) have "j < st_next st" by (auto simp: seat_lives_def)
  with assms(1) assms(2) Some show ?thesis
    by (auto simp: seat_lives_def on_display_def ad Let_def split: if_splits)
qed

text \<open>A display that is created is constructed and started, so its life begins.\<close>

lemma seat_lives_created:
  assumes "seat_lives c C E n st" "de_config E' \<in> C" "same_programs E E'"
  shows "seat_lives c C E n (seat_createDisplay E' r st)"
proof -
  let ?i = "st_next st"
  obtain a d where ad: "display_new E' r (st_globals st) = (a, d)" by fastforce
  have "map_of (st_displays st) ?i = None"
    using assms(1) by (force simp: seat_lives_def map_of_eq_None_iff)
  then have m: "map_of (st_displays st @ [(?i, a, d)]) ?i = Some (a, d)" by (simp add: map_add_def)
  have b: "lives c C E (n ?i) (snd (display_start E' (a, d)))"
    using lives_begin [OF assms(2,3), of c r "st_globals st"] assms(1) by (simp add: ad seat_lives_def)
  from assms(1) m b show ?thesis
    by (fastforce simp: seat_createDisplay_def ad seat_startDisplay_def seat_display_def on_display_def seat_lives_def Let_def)
qed

lemma seat_lives_removed: "seat_lives c C E n st \<Longrightarrow> seat_lives c C E n (seat_removeDisplay S j st)"
  by (auto simp: seat_removeDisplay_def seat_lives_def Let_def split: option.splits)

lemma seat_lives_stopped:
  assumes "seat_lives c C E n st" "de_config E' \<in> C" "same_programs E E'"
  shows "seat_lives c C E n (seat_displayStopped E' S r j st)"
  using seat_lives_removed [OF assms(1), of S j] seat_lives_created [OF seat_lives_removed [OF assms(1), of S j] assms(2,3), of r]
  by (simp add: seat_displayStopped_def Let_def split: option.splits prod.splits)

lemma seat_lives_failed: "seat_lives c C E n st \<Longrightarrow> seat_lives c C E n (seat_displayServerFailed S j st)"
  by (simp add: seat_displayServerFailed_def seat_lives_removed)

section \<open>The displays of the daemon\<close>

definition daemon_lives :: "qds \<Rightarrow> daemon_config set \<Rightarrow> daemon_env \<Rightarrow> (nat \<Rightarrow> nat \<Rightarrow> nat) \<Rightarrow> daemon_app \<Rightarrow> bool" where
  "daemon_lives c C E0 n app \<longleftrightarrow>
     (\<forall>(i, st) \<in> set (da_seats app). \<forall>name. seat_named app i name \<longrightarrow> seat_lives c C (env_at E0 name) (n i) st)"

text \<open>Numbers of objects that are still to come have no calls delivered.\<close>

definition untouched :: "nat \<Rightarrow> (nat \<Rightarrow> nat \<Rightarrow> nat) \<Rightarrow> bool" where
  "untouched k n \<longleftrightarrow> (\<forall>i \<ge> k. n i = (\<lambda>_. 0))"

lemma named_on_seat [simp]: "seat_named (on_seat f i app) = seat_named app"
  by (simp add: fun_eq_iff seat_named_def)

lemma lives_on_seat:
  assumes "daemon_lives c C E0 n app"
    "\<And>name st. seat_named app i name \<Longrightarrow> map_of (da_seats app) i = Some st \<Longrightarrow> seat_lives c C (env_at E0 name) (n i) st \<Longrightarrow>
       seat_lives c C (env_at E0 name) k (f (st\<lparr>st_globals := da_globals app\<rparr>))"
    "map_of (da_seats app) i = None \<Longrightarrow> k = n i"
  shows "daemon_lives c C E0 (n(i := k)) (on_seat f i app)"
proof (cases "map_of (da_seats app) i")
  case None
  with assms show ?thesis by (simp add: on_seat_def)
next
  case (Some st)
  then have "(i, st) \<in> set (da_seats app)" by (rule map_of_SomeD)
  with assms(1) have "seat_named app i name \<Longrightarrow> seat_lives c C (env_at E0 name) (n i) st" for name
    by (auto simp: daemon_lives_def)
  with assms(1) assms(2) Some show ?thesis
    by (fastforce simp: daemon_lives_def on_seat_def Let_def seat_named_def split: if_splits)
qed

lemma lives_seat:
  assumes "daemon_lives c C E0 n app"
    "\<And>name st. seat_named app i name \<Longrightarrow> seat_lives c C (env_at E0 name) (n i) st \<Longrightarrow> seat_lives c C (env_at E0 name) (n i) (f st)"
  shows "daemon_lives c C E0 n (on_seat f i app)"
proof -
  have "daemon_lives c C E0 (n(i := n i)) (on_seat f i app)"
    by (rule lives_on_seat [OF assms(1)]) (simp_all add: assms(2))
  then show ?thesis by simp
qed

text \<open>Seats that are deleted have no name any more, whatever their displays do last.\<close>

lemma lives_seats_gone:
  assumes "daemon_lives c C E0 n app" "\<And>i name. i \<in> set is \<Longrightarrow> \<not> seat_named app i name"
  shows "daemon_lives c C E0 n (fold (on_seat f) is app)"
  using assms
proof (induction "is" arbitrary: app)
  case (Cons i "is")
  have "daemon_lives c C E0 n (on_seat f i app)" by (rule lives_seat [OF Cons.prems(1)]) (use Cons.prems(2) in auto)
  with Cons.IH Cons.prems(2) show ?case by simp
qed simp

lemma lives_newSeat:
  assumes "daemon_lives c C E0 n app" "n (fst x) = (\<lambda>_. 0)" "same_daemons C E0 E"
    "\<And>name. seat_named app (fst x) name \<Longrightarrow> name = snd x"
  shows "daemon_lives c C E0 n (daemon_newSeat E r x app)"
proof -
  have "daemon_lives c C E0 n (app\<lparr>da_seats := da_seats app @ [(fst x, seat_new (da_globals app))]\<rparr>)"
    using assms(1,2) by (auto simp: daemon_lives_def seat_named_def)
  moreover have "same_programs (env_at E0 (snd x)) ((E (snd x))\<lparr>de_seat := snd x\<rparr>)" "de_config ((E (snd x))\<lparr>de_seat := snd x\<rparr>) \<in> C"
    using assms(3) by (simp_all add: same_daemons_def env_at_def)
  ultimately show ?thesis unfolding daemon_newSeat_def using assms(4)
    by (intro lives_seat) (auto simp: seat_named_def intro: seat_lives_created)
qed

lemma lives_newSeats:
  assumes "daemon_lives c C E0 n app" "same_daemons C E0 E" "\<And>x. x \<in> set objs \<Longrightarrow> n (fst x) = (\<lambda>_. 0)"
    "\<And>x name. x \<in> set objs \<Longrightarrow> seat_named app (fst x) name \<Longrightarrow> name = snd x"
  shows "daemon_lives c C E0 n (fold (daemon_newSeat E r) objs app)"
  using assms
proof (induction objs arbitrary: app)
  case (Cons x objs)
  have "daemon_lives c C E0 n (daemon_newSeat E r x app)"
    using Cons.prems by (intro lives_newSeat) auto
  moreover have "seat_named (daemon_newSeat E r x app) = seat_named app" by (simp add: fun_eq_iff seat_named_def)
  ultimately show ?case using Cons.IH [of "daemon_newSeat E r x app"] Cons.prems by simp
qed simp

lemma lives_sync:
  assumes "daemon_lives c C E0 n app" "same_daemons C E0 E" "distinct (map fst (sm_objects (da_sm app)))"
    "\<And>i name. seat_named app i name \<Longrightarrow> i \<notin> fst ` set (da_seats app) \<Longrightarrow> n i = (\<lambda>_. 0)"
  shows "daemon_lives c C E0 n (daemon_sync E S r app)"
proof -
  let ?objs = "sm_objects (da_sm app)"
  let ?alive = "\<lambda>x. fst x \<in> fst ` set ?objs"
  let ?app1 = "fold (on_seat (seat_destroy S)) (map fst (filter (\<lambda>x. \<not> ?alive x) (da_seats app))) app"
  let ?app2 = "?app1\<lparr>da_seats := filter ?alive (da_seats ?app1)\<rparr>"
  have "daemon_lives c C E0 n ?app1"
    by (rule lives_seats_gone [OF assms(1)]) (force simp: seat_named_def)
  moreover have named: "seat_named ?app2 = seat_named app" "seat_named ?app1 = seat_named app"
    by (simp_all add: fun_eq_iff seat_named_def)
  ultimately have two: "daemon_lives c C E0 n ?app2" by (simp add: daemon_lives_def)
  have "name = snd x" if "x \<in> set ?objs" "(fst x, name) \<in> set ?objs" for x name
    using eq_key_imp_eq_value [OF assms(3), of "fst x" name "snd x"] that by simp
  then show ?thesis unfolding daemon_sync_def Let_def
    using assms(4) by (intro lives_newSeats [OF two assms(2)]) (auto simp: named seat_named_def)
qed

section \<open>Every step keeps the lives\<close>

text \<open>An object of the seat manager was there before, under the same name, or has a new number.\<close>

definition objects_grow :: "SeatManager \<Rightarrow> SeatManager \<Rightarrow> bool" where
  "objects_grow sm sm' \<longleftrightarrow> sm_next sm \<le> sm_next sm'
     \<and> (\<forall>x \<in> set (sm_objects sm'). x \<in> set (sm_objects sm) \<or> sm_next sm \<le> fst x)"

lemma objects_grow_refl: "sm_next sm \<le> sm_next sm' \<Longrightarrow> set (sm_objects sm') \<subseteq> set (sm_objects sm) \<Longrightarrow> objects_grow sm sm'"
  by (auto simp: objects_grow_def)

lemma objects_grow_changed:
  "sm_next sm' = sm_next sm \<Longrightarrow> sm_objects sm' = sm_objects sm \<Longrightarrow> objects_grow sm (sm_canGraphicalChanged l sm')"
  by (auto simp: objects_grow_def sm_canGraphicalChanged_def sm_createSeat_def sm_removeSeat_def split: option.splits)

lemma objects_grow_step: "sm_step sm sm' \<Longrightarrow> objects_grow sm sm'"
proof (induction rule: sm_step.induct)
  case (added sm name)
  show ?case by (rule objects_grow_refl) (simp_all add: sm_logindSeatAdded_def)
next
  case (removed sm name)
  show ?case
    by (rule objects_grow_refl) (auto simp: sm_logindSeatRemoved_def sm_removeSeat_def Let_def split: option.splits)
next
  case (reply sm i r)
  show ?case by (auto simp: sm_canGraphicalReply_def Let_def objects_grow_changed intro: objects_grow_refl split: option.splits)
next
  case (properties sm i l changed interface)
  then show ?case
    by (auto simp: sm_propertiesChanged_def Let_def objects_grow_changed intro: objects_grow_refl split: option.splits)
qed

lemma event_lives:
  assumes "daemon_ok app" "daemon_lives c C E0 n app" "untouched (sm_next (da_sm app)) n" "same_daemons C E0 E"
    "objects_grow (da_sm app) (f (da_sm app))" "objects_match (f (da_sm app))"
  shows "daemon_lives c C E0 n (daemon_event E S r f app) \<and> untouched (sm_next (f (da_sm app))) n"
proof
  let ?app = "app\<lparr>da_sm := f (da_sm app)\<rparr>"
  have ids: "fst ` set (da_seats app) = fst ` set (sm_objects (da_sm app))" "\<forall>x \<in> set (sm_objects (da_sm app)). fst x < sm_next (da_sm app)"
    using assms(1) by (auto simp: daemon_ok_def objects_match_def)
  have da_seats_sm: "da_seats ?app = da_seats app" by simp
  have old: "x \<in> set (sm_objects (da_sm app))" if x: "x \<in> set (sm_objects (f (da_sm app)))" "fst x \<in> fst ` set (da_seats app)" for x
  proof -
    obtain y where "y \<in> set (sm_objects (da_sm app))" "fst y = fst x" using x(2) ids(1) by (metis imageE)
    with ids(2) have "fst x < sm_next (da_sm app)" by auto
    with assms(5) x(1) show ?thesis unfolding objects_grow_def by (meson leD)
  qed
  have "daemon_lives c C E0 n ?app"
    unfolding daemon_lives_def
  proof clarify
    fix i st name assume i: "(i, st) \<in> set (da_seats ?app)" "seat_named ?app i name"
    then have "i \<in> fst ` set (da_seats app)" by force
    with old [of "(i, name)"] i(2) have "seat_named app i name" by (simp add: seat_named_def)
    with assms(2) i(1) show "seat_lives c C (env_at E0 name) (n i) st" by (auto simp: daemon_lives_def)
  qed
  moreover have "n i = (\<lambda>_. 0)" if "seat_named ?app i name" "i \<notin> fst ` set (da_seats ?app)" for i name
  proof -
    have "(i, name) \<notin> set (sm_objects (da_sm app))"
      using that(2) ids(1) by (metis da_seats_sm fst_conv imageI)
    with that(1) assms(5) have "sm_next (da_sm app) \<le> i" by (auto simp: seat_named_def objects_grow_def)
    with assms(3) show ?thesis by (simp add: untouched_def)
  qed
  ultimately show "daemon_lives c C E0 n (daemon_event E S r f app)"
    unfolding daemon_event_def using assms(4,6) by (intro lives_sync) (auto simp: objects_match_def)
  show "untouched (sm_next (f (da_sm app))) n" using assms(3,5) by (simp add: untouched_def objects_grow_def)
qed

lemma untouched_display: "untouched k n \<Longrightarrow> i < k \<Longrightarrow> untouched k (n(i := m))"
  by (simp add: untouched_def)

definition dl_ok :: "qds \<Rightarrow> daemon_config set \<Rightarrow> daemon_env \<Rightarrow> daemon_life \<Rightarrow> bool" where
  "dl_ok c C E0 w \<longleftrightarrow> daemon_ok (dl_app w) \<and> daemon_lives c C E0 (dl_delivered w) (dl_app w)
     \<and> untouched (sm_next (da_sm (dl_app w))) (dl_delivered w)"

lemma switch_lives:
  assumes "daemon_ok app" "daemon_lives c C E0 n app" "same_daemons C E0 E"
  shows "daemon_lives c C E0 n (daemon_switchToGreeter E r sessions name app)"
proof (cases "sm_switchToGreeter sessions name (da_sm app)")
  case (CreateDisplayOn i)
  then have "sm_seats (da_sm app) name = Some i" by (auto simp: sm_switchToGreeter_def split: option.splits)
  with assms(1) have m: "distinct (map fst (sm_objects (da_sm app)))" "(i, name) \<in> set (sm_objects (da_sm app))"
    by (simp_all add: daemon_ok_def objects_match_def)
  have "same_programs (env_at E0 name) ((E name)\<lparr>de_seat := name\<rparr>)" "de_config ((E name)\<lparr>de_seat := name\<rparr>) \<in> C"
    using assms(3) by (simp_all add: same_daemons_def env_at_def)
  with eq_key_imp_eq_value [OF m] have "daemon_lives c C E0 n (on_seat (seat_createDisplay ((E name)\<lparr>de_seat := name\<rparr>) r) i app)"
    by (intro lives_seat [OF assms(2)]) (auto simp: seat_named_def intro: seat_lives_created)
  with CreateDisplayOn show ?thesis by (simp add: daemon_switchToGreeter_def)
qed (simp_all add: daemon_switchToGreeter_def assms(2))

lemma dl_step_lives:
  assumes "dl_step c C E0 w w'" "dl_ok c C E0 w"
  shows "daemon_lives c C E0 (dl_delivered w') (dl_app w') \<and> untouched (sm_next (da_sm (dl_app w'))) (dl_delivered w')"
  using assms
proof (induction rule: dl_step.induct)
  case (logind w f E S r)
  then have ok: "daemon_ok (dl_app w)" "objects_match (f (da_sm (dl_app w)))"
    by (auto simp: dl_ok_def daemon_ok_def intro: objects_match_step)
  let ?app = "(dl_app w)\<lparr>da_sm := f (da_sm (dl_app w))\<rparr>"
  have "da_sm (daemon_event E S r f (dl_app w)) = f (da_sm (dl_app w))"
    using sync_shown [of ?app E S r] ok by (simp add: daemon_event_def daemon_ok_def all_shown_def objects_match_def)
  with event_lives [where f = f and app = "dl_app w" and n = "dl_delivered w", OF ok(1) _ _ logind(3) objects_grow_step [OF logind(2)] ok(2), of c S r] logind
  show ?case by (simp add: dl_ok_def)
next
  case (display w i name st j a d l)
  let ?n = "(dl_delivered w i)(j := lf_delivered l)"
  have m: "distinct (map fst (sm_objects (da_sm (dl_app w))))" "i < sm_next (da_sm (dl_app w))"
    using display by (auto simp: dl_ok_def daemon_ok_def objects_match_def seat_named_def)
  have "seat_lives c C (env_at E0 nm) ?n (on_display (\<lambda>_. lf_display l) j (st\<lparr>st_globals := da_globals (dl_app w)\<rparr>))"
    if "seat_named (dl_app w) i nm" "seat_lives c C (env_at E0 nm) (dl_delivered w i) st" for nm
  proof -
    have nm: "nm = name" using that(1) display(1) m(1) by (auto simp: seat_named_def dest: eq_key_imp_eq_value)
    from display(3) have "(j, a, d) \<in> set (st_displays st)" by (rule map_of_SomeD)
    with that(2) have "lives c C (env_at E0 name) (dl_delivered w i j) (a, d)"
      by (auto simp: seat_lives_def nm)
    from lives_step [OF lives_globals [OF this], of "da_globals (dl_app w)" "lf_delivered l" "lf_display l"] display(4) that(2)
    show ?thesis by (cases l) (auto intro!: seat_lives_on_display simp: nm display(3))
  qed
  then have "daemon_lives c C E0 ((dl_delivered w)(i := ?n)) (on_seat (on_display (\<lambda>_. lf_display l) j) i (dl_app w))"
    using display(2,5) by (intro lives_on_seat) (auto simp: dl_ok_def)
  moreover have "untouched (sm_next (da_sm (dl_app w))) ((dl_delivered w)(i := ?n))"
    using display(5) m(2) by (intro untouched_display) (simp_all add: dl_ok_def)
  ultimately show ?case by (simp del: fun_upd_apply)
next
  case (stopped w i name E S r j)
  then have d: "distinct (map fst (sm_objects (da_sm (dl_app w))))" "daemon_lives c C E0 (dl_delivered w) (dl_app w)"
    "untouched (sm_next (da_sm (dl_app w))) (dl_delivered w)"
    by (simp_all add: dl_ok_def daemon_ok_def objects_match_def)
  have nm: "nm = name" if "seat_named (dl_app w) i nm" for nm
    using eq_key_imp_eq_value [OF d(1), of i nm name] that stopped(1) by (simp add: seat_named_def)
  have "daemon_lives c C E0 (dl_delivered w) (on_seat (seat_displayStopped E S r j) i (dl_app w))"
    by (rule lives_seat [OF d(2)]) (use nm stopped(2,3) in \<open>blast intro: seat_lives_stopped\<close>)
  with d(3) show ?case by simp
next
  case (failed w S j i)
  then show ?case by (simp add: dl_ok_def lives_seat seat_lives_failed)
next
  case (switch E w r sessions name)
  have "da_sm (daemon_switchToGreeter E r sessions name (dl_app w)) = da_sm (dl_app w)"
    by (simp add: daemon_switchToGreeter_def split: switch_effect.split)
  with switch show ?case by (simp add: dl_ok_def switch_lives)
next
  case (signal w s)
  then show ?case by (simp add: dl_ok_def daemon_signal_def daemon_lives_def seat_named_def)
qed

lemma listed_objects: "sm_objects (fold sm_logindSeatAdded l sm) = sm_objects sm"
  by (induction l arbitrary: sm) (simp_all add: sm_logindSeatAdded_def)

lemma start_lives:
  assumes "same_daemons C E0 E"
  shows "daemon_lives c C E0 (\<lambda>_ _. 0) (daemon_new E r seats)"
proof -
  have "distinct (map fst (sm_objects (sm_initialize seats sm_init)))"
    by (cases seats) (simp_all add: sm_initialize_def listed_objects sm_createSeat_def sm_init_def)
  with assms show ?thesis unfolding daemon_new_def daemon_event_def
    by (intro lives_sync) (simp_all add: daemon_lives_def)
qed

lemma dl_invariant: "dl_reachable c C E0 w \<Longrightarrow> dl_ok c C E0 w"
proof (induction rule: dl_reachable.induct)
  case (start seats E r)
  then show ?case by (simp add: dl_ok_def start_ok start_lives untouched_def)
next
  case (step w w')
  have "daemon_ok (dl_app w')"
    using dl_reachable_daemon [OF dl_reachable.step [OF step(1,2)]] by (rule daemon_reachable_ok)
  with dl_step_lives [OF step(2,3)] show ?case by (simp add: dl_ok_def)
qed

section \<open>What holds of one display holds of all of them\<close>

text \<open>The display \<open>j\<close> of the seat \<open>i\<close>.\<close>

definition daemon_display :: "daemon_app \<Rightarrow> nat \<Rightarrow> nat \<Rightarrow> disp option" where
  "daemon_display app i j = (case map_of (da_seats app) i of None \<Rightarrow> None | Some st \<Rightarrow> seat_display st j)"


lemma display_lives:
  assumes "dl_reachable c C E0 w" "daemon_display (dl_app w) i j = Some ad"
  shows "\<exists>name. seat_named (dl_app w) i name \<and> lives c C (env_at E0 name) (dl_delivered w i j) ad"
proof -
  from assms(2) obtain st where st: "(i, st) \<in> set (da_seats (dl_app w))" "(j, ad) \<in> set (st_displays st)"
    by (auto simp: daemon_display_def seat_display_def split: option.splits dest!: map_of_SomeD)
  from dl_invariant [OF assms(1)] have ok: "daemon_ok (dl_app w)" "daemon_lives c C E0 (dl_delivered w) (dl_app w)"
    by (simp_all add: dl_ok_def)
  from st(1) have "i \<in> fst ` set (da_seats (dl_app w))" by force
  with ok(1) have "i \<in> fst ` set (sm_objects (da_sm (dl_app w)))" by (simp only: daemon_ok_def)
  then obtain name where "seat_named (dl_app w) i name" by (auto simp: seat_named_def)
  moreover from this ok(2) st have "lives c C (env_at E0 name) (dl_delivered w i j) ad"
    by (fastforce simp: daemon_lives_def seat_lives_def)
  ultimately show ?thesis by blast
qed


text \<open>What \<open>passwordless_only_configured\<close> says of one display does not depend on its seat.\<close>

lemma allowed_env_at:
  "launch_allowed (with_config cfg (env_at E name)) = launch_allowed (with_config cfg E)"
  "effect_allowed (with_config cfg (env_at E name)) = effect_allowed (with_config cfg E)"
proof -
  show l: "launch_allowed (with_config cfg (env_at E name)) = launch_allowed (with_config cfg E)"
    by (simp add: fun_eq_iff launch_allowed_def env_at_def with_config_def)
  then show "effect_allowed (with_config cfg (env_at E name)) = effect_allowed (with_config cfg E)"
    by (simp add: fun_eq_iff effect_allowed_def split: display_effect.split) (simp add: env_at_def with_config_def)
qed

lemma lives_launch:
  assumes "lives c C (env_at E0 name) k ad" "Launch program args \<in> set (d_log (snd ad))"
  shows "\<exists>cfg \<in> C. effect_allowed (with_config cfg E0) (d_autologinSession (snd ad)) (Launch program args)"
proof -
  from assms(1) obtain cfg where cfg: "cfg \<in> C"
      "life_reachable c (with_config cfg (env_at E0 name)) \<lparr>lf_delivered = k, lf_display = ad\<rparr>"
    by (auto simp: lives_def)
  from life_invariant [OF cfg(2)]
  have "effect_allowed (with_config cfg (env_at E0 name)) (d_autologinSession (snd ad)) (Launch program args)"
    using assms(2) by (simp add: display_inv_def case_prod_beta list_all_iff)
  with cfg(1) show ?thesis by (auto simp: allowed_env_at)
qed

lemma display_states_live:
  assumes "dl_reachable c C E0 w" "daemon_display (dl_app w) i j = Some ad"
    "ad' = ad \<or> (\<exists>S g. ad' = display_stop S (fst ad, (snd ad)\<lparr>d_globals := g\<rparr>))"
  shows "\<exists>name. lives c C (env_at E0 name) (dl_delivered w i j) ad'"
proof -
  from display_lives [OF assms(1,2)] obtain name where l: "lives c C (env_at E0 name) (dl_delivered w i j) ad" by blast
  with assms(3) lives_stopped [OF lives_globals, of c C "env_at E0 name" "dl_delivered w i j" "fst ad" "snd ad"]
  show ?thesis by (intro exI [of _ name]) (elim disjE exE, simp_all)
qed


text \<open>A daemon without logind whose display starts its greeter.\<close>

definition sample_seats :: daemon_life where
  "sample_seats = \<lparr>dl_app = daemon_new (\<lambda>_. sample_denv []) None None, dl_delivered = (\<lambda>_ _. 0)\<rparr>"

definition sample_seats_greeter :: daemon_life where
  "sample_seats_greeter =
     \<lparr>dl_app = on_seat (on_display (\<lambda>_. lf_display sample_life_greeter) 0) 0 (dl_app sample_seats),
       dl_delivered = (\<lambda>_ _. 0)(0 := (\<lambda>_. 0)(0 := 1))\<rparr>"

lemma sample_seat0 [simp]: "(sample_denv [])\<lparr>de_seat := ''seat0''\<rparr> = sample_denv []"
  by (simp add: sample_denv_def)

lemma sample_first_display:
  "\<exists>st. map_of (da_seats (dl_app sample_seats)) 0 = Some st \<and> map_of (st_displays st) 0 = Some (lf_display sample_life)
     \<and> da_globals (dl_app sample_seats) = d_globals (snd (lf_display sample_life))"
proof -
  obtain a d where ad: "display_new (sample_denv []) None sample_globals = (a, d)" by fastforce
  obtain a' d' where st: "snd (display_start (sample_denv []) (a, d)) = (a', d')" by fastforce
  show ?thesis
    by (simp add: sample_seats_def daemon_new_def daemon_event_def daemon_sync_def sm_initialize_def sm_createSeat_def sm_init_def
      daemon_newSeat_def on_seat_def seat_new_def seat_createDisplay_def seat_startDisplay_def seat_display_def on_display_def
      sample_globals_def [symmetric] ad st sample_life_def life_begin_def Let_def)
qed

lemma sample_seats_reachable: "dl_reachable c {de_config (sample_denv [])} (sample_denv []) sample_seats_greeter"
proof -
  have e: "same_daemons {de_config (sample_denv [])} (sample_denv []) (\<lambda>_. sample_denv [])" "same_programs (sample_denv []) (sample_denv [])"
    by (simp_all add: same_daemons_def same_programs_def env_at_def)
  have "dl_reachable c {de_config (sample_denv [])} (sample_denv []) sample_seats"
    unfolding sample_seats_def by (rule dl_reachable.start [OF _ e(1)]) simp
  moreover obtain st a d where st: "map_of (da_seats (dl_app sample_seats)) 0 = Some st" "map_of (st_displays st) 0 = Some (a, d)"
      "lf_display sample_life = (a, d)" "da_globals (dl_app sample_seats) = d_globals d"
    using sample_first_display by (metis prod.collapse snd_conv)
  have l: "sample_life = \<lparr>lf_delivered = 0, lf_display = (a, d)\<rparr>"
    using st(3) sample_life_sel(2) by (metis life.surjective old.unit.exhaust)
  have g: "d\<lparr>d_globals := da_globals (dl_app sample_seats)\<rparr> = d" by (simp add: st(4))
  have n: "dl_delivered sample_seats = (\<lambda>_ _. 0)" by (simp add: sample_seats_def)
  have "life_step c (env_at (sample_denv []) ''seat0'')
      \<lparr>lf_delivered = dl_delivered sample_seats 0 0, lf_display = (a, d\<lparr>d_globals := da_globals (dl_app sample_seats)\<rparr>)\<rparr> sample_life_greeter"
    using life_step.server_started [of sample_life, OF _ e(2), of c] sample_life_sel
    by (simp add: g n env_at_def sample_life_greeter_def queued_def l)
  from dl_step.display [OF _ st(1,2) this] have "dl_step c {de_config (sample_denv [])} (sample_denv []) sample_seats sample_seats_greeter"
    by (simp add: sample_seats_greeter_def sample_life_greeter_def seat_named_def)
       (simp add: sample_seats_def daemon_new_def daemon_event_def daemon_sync_def sm_initialize_def sm_createSeat_def sm_init_def
         daemon_newSeat_def on_seat_def seat_new_def Let_def)
  ultimately show ?thesis by (rule dl_reachable.step)
qed

lemma sample_greeter_display:
  "\<exists>st. map_of (da_seats (dl_app sample_seats_greeter)) 0 = Some st \<and> map_of (st_displays st) 0 = Some (lf_display sample_life_greeter)"
proof -
  obtain st where st: "map_of (da_seats (dl_app sample_seats)) 0 = Some st" "map_of (st_displays st) 0 = Some (lf_display sample_life)"
    using sample_first_display by blast
  have m: "map_of (map (\<lambda>(j, x). if j = 0 then (j, y) else (j, x)) xs) 0 = (case map_of xs 0 of None \<Rightarrow> None | Some _ \<Rightarrow> Some y)"
    for y and xs :: "(nat \<times> 'b) list"
    by (induction xs) auto
  obtain a d where ad: "lf_display sample_life = (a, d)" by fastforce
  with st show ?thesis by (simp add: sample_seats_greeter_def on_seat_def on_display_def m Let_def)
qed



end
