(* ===== verification/Auth_Registry.thy ===== *)
theory Auth_Registry
  imports Handover
begin

text \<open>
  The table of authentication objects (\<open>helpers\<close> and \<open>lastId\<close> of \<open>src/auth/Auth.cpp\<close>) over the life of the
  daemon: displays and greeters create objects and delete them, helpers connect at any time, and a connection must end up
  with the object that started the helper, however late it comes.
\<close>

section \<open>Operations keep the id\<close>

text \<open>An owner's slots do not touch the id of the object; it is set once, in the constructor.\<close>

definition keeps_id :: "'d auth_owner \<Rightarrow> bool" where
  "keeps_id own \<longleftrightarrow> (\<forall>s a d. au_id (fst (own_signal own s (a, d))) = au_id a)"

lemma setters_id [simp]:
  "au_id (auth_setUser u a) = au_id a" "au_id (auth_setAutologin b a) = au_id a" "au_id (auth_setGreeter b a) = au_id a"
  "au_id (auth_setSession p a) = au_id a" "au_id (auth_setVerbose b a) = au_id a" "au_id (auth_insertEnvironment e a) = au_id a"
  "au_id (auth_insertVariable k v a) = au_id a" "au_id (auth_setSocket ch a) = au_id a" "au_id (snd (auth_start B server a)) = au_id a"
  by (simp_all add: auth_setters auth_insertVariable_def auth_setSocket_def auth_start_def)

text \<open>Whatever a helper writes: the contract of a steady owner, for the id.\<close>

lemma same_but_answer_id: "same_but_answer a b \<Longrightarrow> au_id b = au_id a"
  unfolding same_but_answer_def by (metis Auth.select_convs(11) Auth.surjective Auth.update_convs(1,5))

lemma steady_id:
  assumes "keeps_id own"
  shows "steady_owner own (\<lambda>ad. au_id (fst ad) = k)"
proof unfold_locales
  show "au_id (fst (own_signal own s ad)) = k" if "au_id (fst ad) = k" for s ad
    using assms that by (cases ad) (simp add: keeps_id_def)
qed (simp_all add: same_but_answer_id)

lemma dataPending_id:
  assumes "keeps_id own"
  shows "au_id (fst (auth_dataPending c own (a, d))) = au_id a"
proof -
  have "apfst (helper_wrote (ch_in (au_chan a))) (a, d) = (a, d)" by (simp add: helper_wrote_def)
  with steady_owner.keeps_data [OF steady_id [OF assms], of "(a, d)" "au_id a" c "ch_in (au_chan a)"] show ?thesis by simp
qed

lemma childExited_id: "keeps_id own \<Longrightarrow> au_id (fst (auth_childExited code normal text own (a, d))) = au_id a"
  unfolding auth_childExited_def Let_def keeps_id_def by (simp, metis Auth.select_convs(11) Auth.surjective Auth.update_convs(2) prod.collapse)

text \<open>The two owners of the program, the display and the greeter.\<close>

lemma greeter_stop_id:
  "(\<And>ad. au_id (fst (stop ad)) = au_id (fst ad)) \<Longrightarrow> au_id (fst (greeter_stop_with stop S ad)) = au_id (fst ad)"
  by (cases ad) (simp add: greeter_stop_with_def greeter_exited_def Let_def split: option.split)

lemma session_stop_id:
  "(\<And>ad. au_id (fst (stop ad)) = au_id (fst ad)) \<Longrightarrow> au_id (fst (session_stop_with stop S ad)) = au_id (fst ad)"
  by (cases ad) (simp add: session_stop_with_def Let_def split: option.split)

lemma display_stop_id [simp]: "au_id (fst (display_stop S ad)) = au_id (fst ad)"
proof -
  have "au_id (fst (display_stop_n k S ad)) = au_id (fst ad)" for k
    by (induction k arbitrary: ad)
      (simp_all add: display_stop_n.simps(2) stop_tail_def session_stop_id greeter_stop_id)
  then show ?thesis by (simp add: display_stop_def)
qed

lemma display_keeps_id: "keeps_id (display_owner c S)"
  by (simp add: keeps_id_def display_owner_def display_signal_def slotAuthenticationFinished_def slotHelperFinished_def
      slotSessionStarted_def slotAuthInfo_def slotAuthError_def handleAutologinFailure_def Let_def split: auth_signal.split)

lemma greeter_keeps_id: "keeps_id (greeter_owner S)"
  by (simp add: keeps_id_def greeter_owner_def greeter_signal_def Let_def split: auth_signal.split prod.split)

section \<open>The table over time\<close>

text \<open>
  Objects come and go, connections are taken, and in between an object is worked on by its owner and by the event loop,
  which never changes its id (the lemmas above).  \<open>fst R\<close> is the table, \<open>snd R\<close> the next id.
\<close>

type_synonym 'd registry = "(qint64 \<rightharpoonup> Auth \<times> 'd) \<times> int"

inductive registry_step :: "qds \<Rightarrow> 'd auth_owner \<Rightarrow> 'd registry \<Rightarrow> 'd registry \<Rightarrow> bool" for c own where
  created: "registry_step c own R (auth_created locale_lines child_env d R)"
| destroyed: "fst R i = Some (a, d) \<Longrightarrow> registry_step c own R (snd (auth_destroyed in_time a (fst R)), snd R)"
| connected: "registry_step c own R (auth_handleNewConnection c own pending (fst R), snd R)"
| worked: "fst R i = Some (a, d) \<Longrightarrow> au_id a' = au_id a \<Longrightarrow> registry_step c own R ((fst R)(i \<mapsto> (a', d')), snd R)"

inductive registry_steps :: "qds \<Rightarrow> 'd auth_owner \<Rightarrow> 'd registry \<Rightarrow> 'd registry \<Rightarrow> bool" for c own R where
  none: "registry_steps c own R R"
| more: "registry_steps c own R R1 \<Longrightarrow> registry_step c own R1 R2 \<Longrightarrow> registry_steps c own R R2"

definition registry_start :: "'d registry" where
  "registry_start = (Map.empty, 1)"

text \<open>As long as the ids fit into the 64 bits of their type, every object is found under its own, which is positive.\<close>

definition registry_ok :: "'d registry \<Rightarrow> bool" where
  "registry_ok R \<longleftrightarrow> 1 \<le> snd R
     \<and> (snd R \<le> 2 ^ 63 \<longrightarrow> (\<forall>i a d. fst R i = Some (a, d) \<longrightarrow> 0 < au_id a \<and> au_id a < snd R \<and> i = word_of_int (au_id a)))"

text \<open>Taking connections changes what the table says of an object, but neither the ids nor who is in it.\<close>

definition same_ids :: "(qint64 \<rightharpoonup> Auth \<times> 'd) \<Rightarrow> (qint64 \<rightharpoonup> Auth \<times> 'd) \<Rightarrow> bool" where
  "same_ids h h' \<longleftrightarrow> (\<forall>i. map_option (\<lambda>ad. au_id (fst ad)) (h' i) = map_option (\<lambda>ad. au_id (fst ad)) (h i))"

lemma same_ids_trans: "same_ids h h1 \<Longrightarrow> same_ids h1 h2 \<Longrightarrow> same_ids h h2"
  by (simp add: same_ids_def)

lemma same_ids_upd: "h i = Some (a, d) \<Longrightarrow> au_id (fst x) = au_id a \<Longrightarrow> same_ids h (h(i \<mapsto> x))"
  by (simp add: same_ids_def)

lemma newConnection_ids:
  assumes "keeps_id own"
  shows "same_ids h (auth_newConnection c own ch h)"
proof -
  have "same_ids h h" by (simp add: same_ids_def)
  then show ?thesis unfolding auth_newConnection_def Let_def
    by (auto simp: dataPending_id [OF assms] intro!: same_ids_upd split: prod.split option.split)
qed

lemma handleNewConnection_ids:
  assumes "keeps_id own"
  shows "same_ids h (auth_handleNewConnection c own pending h)"
proof -
  have "same_ids h (fold (auth_newConnection c own) pending h)"
    by (induction pending arbitrary: h) (auto simp: same_ids_def [of h h for h] intro: same_ids_trans newConnection_ids [OF assms])
  then show ?thesis by (simp add: auth_handleNewConnection_def)
qed

lemma same_ids_look:
  assumes "same_ids h h'" "h' i = Some (a', d')"
  shows "\<exists>a d. h i = Some (a, d) \<and> au_id a = au_id a'"
proof -
  have "map_option (\<lambda>ad. au_id (fst ad)) (h' i) = map_option (\<lambda>ad. au_id (fst ad)) (h i)"
    using assms(1) unfolding same_ids_def by (rule spec)
  with assms(2) show ?thesis by (cases "h i") auto
qed

lemma registry_ok_ids: "same_ids (fst R) h \<Longrightarrow> registry_ok R \<Longrightarrow> registry_ok (h, snd R)"
  unfolding registry_ok_def by (metis fst_conv same_ids_look snd_conv)

lemma registry_ok_step:
  assumes "registry_step c own R R'" "keeps_id own" "registry_ok R"
  shows "registry_ok R' \<and> snd R \<le> snd R'"
  using assms
proof (induction rule: registry_step.induct)
  case (created R locale_lines child_env d)
  then show ?case by (cases R) (auto simp: auth_created_def auth_new_def registry_ok_def split: if_splits; force)
next
  case (destroyed R i a d in_time)
  then show ?case by (auto simp: registry_ok_def auth_destroyed_def)
next
  case (connected R pending)
  then show ?case using registry_ok_ids [OF handleNewConnection_ids] by simp
next
  case (worked R i a d a' d')
  have "same_ids (fst R) ((fst R)(i \<mapsto> (a', d')))" by (rule same_ids_upd) (simp_all add: worked)
  from registry_ok_ids [OF this] worked show ?case by simp
qed

lemma sint_id: "0 \<le> k \<Longrightarrow> k < 2 ^ 63 \<Longrightarrow> sint (word_of_int k :: qint64) = k"
  by (simp add: signed_of_int signed_take_bit_int_eq_self)

text \<open>An id that has been given out and is not in the table any more never comes back.\<close>

lemma gone_step:
  assumes "registry_step c own R R'" "keeps_id own" "snd R' \<le> 2 ^ 63" "0 < k" "k < snd R" "fst R (word_of_int k) = None"
  shows "fst R' (word_of_int k) = None"
  using assms
proof (induction rule: registry_step.induct)
  case (created R locale_lines child_env d)
  have "(word_of_int k :: qint64) \<noteq> word_of_int (snd R)"
  proof
    assume "(word_of_int k :: qint64) = word_of_int (snd R)"
    then have "sint (word_of_int k :: qint64) = sint (word_of_int (snd R) :: qint64)" by simp
    with created show False by (cases R) (simp add: auth_created_def auth_new_def sint_id)
  qed
  with created show ?case by (cases R) (simp add: auth_created_def auth_new_def)
next
  case (connected R pending)
  show ?case
  proof (cases "fst (auth_handleNewConnection c own pending (fst R), snd R) (word_of_int k)")
    case (Some x)
    with same_ids_look [OF handleNewConnection_ids [OF connected(1)], of c pending "fst R" "word_of_int k" "fst x" "snd x"] connected(5)
    show ?thesis by simp
  qed simp
qed (auto simp: auth_destroyed_def)

lemma registry_ok_steps: "registry_steps c own R R' \<Longrightarrow> keeps_id own \<Longrightarrow> registry_ok R \<Longrightarrow> registry_ok R' \<and> snd R \<le> snd R'"
proof (induction rule: registry_steps.induct)
  case (more R1 R2)
  then show ?case using registry_ok_step [OF more(2)] by fastforce
qed simp

lemma gone_steps:
  assumes "registry_steps c own R R'" "keeps_id own" "registry_ok R" "snd R' \<le> 2 ^ 63" "0 < k" "k < snd R" "fst R (word_of_int k) = None"
  shows "fst R' (word_of_int k) = None"
  using assms
proof (induction rule: registry_steps.induct)
  case (more R1 R2)
  have "registry_ok R1" "snd R \<le> snd R1" "snd R1 \<le> snd R2"
    using registry_ok_steps [OF more(1,4,5)] registry_ok_step [OF more(2,4)] by simp_all
  with more gone_step [OF more(2,4)] show ?case by simp
qed simp

lemma registry_start_ok: "registry_ok registry_start"
  by (simp add: registry_ok_def registry_start_def)

section \<open>A helper reaches its object, or nobody\<close>

text \<open>The connection of a helper that was started with the arguments \<open>args\<close>: it says hello with the id it was given.\<close>

definition helper_connection :: "qds \<Rightarrow> QStringList \<Rightarrow> 'p \<Rightarrow> channel" where
  "helper_connection c args p =
     (let h = fst (helper_setUp args (init_helper p \<lparr>ch_out = [], ch_in = []\<rparr>))
      in \<lparr>ch_out = [], ch_in = ch_out (helper_hello c (word_of_int (h_id h)) \<lparr>ch_out = [], ch_in = []\<rparr>)\<rparr>)"

lemma helper_connection_eq:
  assumes "server \<noteq> []" "0 < au_id a" "au_id a < 2 ^ 63"
    and "server \<notin> helper_options" "au_sessionPath a \<notin> helper_options" "au_user a \<notin> helper_options - {''--autologin''}"
  shows "helper_connection c (auth_args server a) p
    = \<lparr>ch_out = [], ch_in = [put_msg c HELLO @ enc_i64 c (word_of_int (au_id a))]\<rparr>"
  using setUp_args [OF assms(1-5), of p "\<lparr>ch_out = [], ch_in = []\<rparr>"] assms(6)
  by (auto simp: helper_connection_def helper_hello_def ch_send_def Let_def)

lemma registry_entry:
  assumes "registry_ok R" "snd R \<le> 2 ^ 63" "fst R i = Some (a, d)"
  shows "0 < au_id a" "au_id a < snd R" "i = word_of_int (au_id a)" "i \<noteq> 0" "sint i = au_id a"
proof -
  show a: "0 < au_id a" "au_id a < snd R" "i = word_of_int (au_id a)" using assms by (auto simp: registry_ok_def)
  with assms(2) show s: "sint i = au_id a" by (simp add: sint_id)
  with a(1) show "i \<noteq> 0" by auto
qed

text \<open>Property C12: a helper is connected to the object that started it, or to nothing.  Over any life of the table (objects
  made and deleted, connections taken, objects worked on), with any helper that was started for an object in it: whenever
  its hello arrives, with the id from its command line, it gives the connection to that very object if it is still there, and
  to no other; if the object is gone, the table stays as it is, and the id is never given out again.\<close>

theorem helper_reaches_its_auth:
  assumes "qds_ok c" "keeps_id own" "registry_steps c own registry_start R" "fst R i = Some (a0, d0)"
    and "server \<noteq> []" "server \<notin> helper_options" "au_sessionPath a0 \<notin> helper_options" "au_user a0 \<notin> helper_options"
    and "registry_steps c own R R'" "snd R' \<le> 2 ^ 63"
  shows "auth_handleNewConnection c own [helper_connection c (auth_args server a0) p] (fst R') =
      (case fst R' i of None \<Rightarrow> fst R' | Some (a, d) \<Rightarrow> (fst R')(i \<mapsto> (auth_setSocket \<lparr>ch_out = [], ch_in = []\<rparr> a, d)))
    \<and> (\<forall>a d. fst R' i = Some (a, d) \<longrightarrow> au_id a = au_id a0)
    \<and> (fst R' i = None \<longrightarrow> (\<forall>R2. registry_steps c own R' R2 \<and> snd R2 \<le> 2 ^ 63 \<longrightarrow> fst R2 i = None))"
proof (intro conjI allI impI)
  have ok: "registry_ok R" using registry_ok_steps [OF assms(3,2) registry_start_ok] by simp
  with registry_ok_steps [OF assms(9,2)] have ok': "registry_ok R'" "snd R \<le> snd R'" by simp_all
  with assms(10) have "snd R \<le> 2 ^ 63" by simp
  note a0 = registry_entry [OF ok this assms(4)]
  have "au_id a0 < 2 ^ 63" using a0(2) ok'(2) assms(10) by simp
  with assms(5-8) a0(1) have h: "helper_connection c (auth_args server a0) p
      = \<lparr>ch_out = [], ch_in = ch_out (helper_hello c i \<lparr>ch_out = [], ch_in = []\<rparr>)\<rparr>"
    by (subst helper_connection_eq) (auto simp: helper_hello_def ch_send_def a0(3))
  show "auth_handleNewConnection c own [helper_connection c (auth_args server a0) p] (fst R') =
      (case fst R' i of None \<Rightarrow> fst R' | Some (a, d) \<Rightarrow> (fst R')(i \<mapsto> (auth_setSocket \<lparr>ch_out = [], ch_in = []\<rparr> a, d)))"
    using hello_finds_its_auth [OF assms(1) a0(4), of own "fst R'"] by (simp add: auth_handleNewConnection_def h)
  show "au_id a = au_id a0" if "fst R' i = Some (a, d)" for a d
    using registry_entry(5) [OF ok'(1) assms(10) that] a0(5) by simp
  show "fst R2 i = None" if "fst R' i = None" "registry_steps c own R' R2 \<and> snd R2 \<le> 2 ^ 63" for R2
    using gone_steps [of c own R' R2 "au_id a0"] that assms(2) ok' a0(1-3) by simp
qed

text \<open>The first object of a daemon, whose helper connects; and the same helper when the object is gone.\<close>

definition sample_registry :: "unit registry" where
  "sample_registry = auth_created None [] () registry_start"

definition sample_registry_gone :: "unit registry" where
  "sample_registry_gone = (snd (auth_destroyed True (fst (auth_new None [] 1)) (fst sample_registry)), snd sample_registry)"

lemma sample_registry_eq: "sample_registry = ([1 \<mapsto> (fst (auth_new None [] 1), ())], 2)"
  by (simp add: sample_registry_def auth_created_def registry_start_def auth_new_def)

lemma helper_reaches_its_auth_witness:
  "map_option (\<lambda>ad. au_id (fst ad)) (auth_handleNewConnection sd_qds quiet_owner
      [helper_connection sd_qds (auth_args ''s'' (fst (auth_new None [] 1))) (0 :: nat)] (fst sample_registry) 1) = Some 1
   \<and> auth_handleNewConnection sd_qds quiet_owner
      [helper_connection sd_qds (auth_args ''s'' (fst (auth_new None [] 1))) (0 :: nat)] (fst sample_registry_gone) = fst sample_registry_gone"
proof -
  have k: "keeps_id quiet_owner" by (simp add: keeps_id_def quiet_owner_def)
  have r: "registry_steps sd_qds quiet_owner registry_start sample_registry"
    unfolding sample_registry_def by (rule registry_steps.more [OF registry_steps.none registry_step.created])
  have f: "fst sample_registry 1 = Some (fst (auth_new None [] 1), ())" by (simp add: sample_registry_eq)
  have g: "registry_steps sd_qds quiet_owner sample_registry sample_registry_gone"
    unfolding sample_registry_gone_def by (rule registry_steps.more [OF registry_steps.none registry_step.destroyed [OF f]])
  have n: "snd sample_registry \<le> 2 ^ 63" "snd sample_registry_gone \<le> 2 ^ 63" "fst sample_registry_gone 1 = None"
    by (simp_all add: sample_registry_eq sample_registry_gone_def auth_destroyed_def auth_new_def)
  have o: "''s'' \<noteq> []" "''s'' \<notin> helper_options" "au_sessionPath (fst (auth_new None [] 1)) \<notin> helper_options"
    "au_user (fst (auth_new None [] 1)) \<notin> helper_options"
    by (simp_all add: helper_options_def auth_new_def)
  note t = helper_reaches_its_auth [OF sd_qds_ok k r f o]
  from t [OF registry_steps.none n(1), of "0 :: nat"] t [OF g n(2), of "0 :: nat"] show ?thesis
    by (simp add: f n(3)) (simp add: auth_new_def)
qed

end
