(* ===== verification/Daemon_Ids.thy ===== *)
theory Daemon_Ids
  imports Daemon_Life Auth_Registry
begin

text \<open>
  The ids of the authentication objects over the whole daemon (\<open>lastId\<close> of \<open>src/auth/Auth.cpp\<close>): the displays of all
  seats and their greeters create such objects, and the table of the theory Auth_Registry tells them apart by their ids.
\<close>

section \<open>What a display does to its ids\<close>

definition greeter_id :: "Display \<Rightarrow> int option" where
  "greeter_id d = map_option au_id (g_auth (d_greeter d))"

definition last_id :: "Display \<Rightarrow> int" where
  "last_id d = gl_lastAuthId (d_globals d)"

text \<open>The display keeps its object, and its greeter the one it has, unless it lets go of it; no id is given out.\<close>

definition keeps_ids :: "disp \<Rightarrow> disp \<Rightarrow> bool" where
  "keeps_ids ad ad' \<longleftrightarrow> au_id (fst ad') = au_id (fst ad) \<and> last_id (snd ad') = last_id (snd ad)
     \<and> greeter_id (snd ad') \<in> {None, greeter_id (snd ad)}"

lemma keeps_ids_refl [simp]: "keeps_ids ad ad"
  by (simp add: keeps_ids_def)

lemma keeps_ids_trans: "keeps_ids ad ad1 \<Longrightarrow> keeps_ids ad1 ad2 \<Longrightarrow> keeps_ids ad ad2"
  by (auto simp: keeps_ids_def)

lemma keeps_ids_display:
  "greeter_id d' = greeter_id d \<Longrightarrow> last_id d' = last_id d \<Longrightarrow> au_id a' = au_id a \<Longrightarrow> keeps_ids (a, d) (a', d')"
  by (simp add: keeps_ids_def)

lemma ids_frames [simp]:
  "greeter_id (log_effect x d) = greeter_id d" "last_id (log_effect x d) = last_id d"
  "greeter_id (stop_auth exit b d) = greeter_id d" "last_id (stop_auth exit b d) = last_id d"
  "greeter_id (greeter_gone d) = None" "last_id (greeter_gone d) = last_id d"
  "greeter_id (tty_failed d) = greeter_id d" "last_id (tty_failed d) = last_id d"
  "greeter_id (on_client f s d) = greeter_id d" "last_id (on_client f s d) = last_id d"
  "greeter_id (emit_loginFailed c d) = greeter_id d" "last_id (emit_loginFailed c d) = last_id d"
  "greeter_id (emit_loginSucceeded c d) = greeter_id d" "last_id (emit_loginSucceeded c d) = last_id d"
  "greeter_id (greeter_onSessionStarted ok d) = greeter_id d" "last_id (greeter_onSessionStarted ok d) = last_id d"
  by (simp_all add: greeter_id_def last_id_def log_effect_def stop_auth_def greeter_gone_def tty_failed_def on_client_def
      emit_loginFailed_def emit_loginSucceeded_def greeter_onSessionStarted_def Let_def split: option.split)

lemma ids_greeter_exited:
  assumes "\<And>x. keeps_ids x (stop x)"
  shows "keeps_ids (a, d) (greeter_exited stop code (a, d))"
proof -
  have g: "keeps_ids (a, d) (a, greeter_gone d)" "keeps_ids (a, d) (a, tty_failed (greeter_gone d))"
    by (simp_all add: keeps_ids_def)
  from this [THEN keeps_ids_trans, OF assms] g show ?thesis
    by (simp add: greeter_exited_def Let_def) (simp add: keeps_ids_def)
qed

lemma ids_greeter_stop:
  assumes "\<And>x. keeps_ids x (stop x)"
  shows "keeps_ids ad (greeter_stop_with stop S ad)"
proof (cases ad)
  case (Pair a d)
  let ?d = "case g_auth (d_greeter d) of None \<Rightarrow> d | Some ga \<Rightarrow> stop_auth (se_greeter_exit S) ga d"
  have k: "keeps_ids (a, d) (a, ?d)" by (rule keeps_ids_display) (simp_all split: option.split)
  with keeps_ids_trans [OF k ids_greeter_exited [OF assms]] Pair show ?thesis
    by (simp add: greeter_stop_with_def Let_def split: option.split)
qed

lemma ids_session_stop:
  assumes "\<And>x. keeps_ids x (stop x)"
  shows "keeps_ids ad (session_stop_with stop S ad)"
proof (cases ad)
  case (Pair a d)
  have k: "keeps_ids (a, d) (a, stop_auth e a d)" "keeps_ids (a, d) (a\<lparr>au_running := False\<rparr>, stop_auth e a d)" for e
    by (simp_all add: keeps_ids_def)
  from keeps_ids_trans [OF k(2) assms] k Pair show ?thesis
    by (simp add: session_stop_with_def Let_def split: option.split)
qed

lemma ids_display_stop_n: "keeps_ids ad (display_stop_n k S ad)"
proof (induction k arbitrary: ad)
  case (Suc k)
  have t: "keeps_ids x (stop_tail x)" for x
    by (cases x) (simp add: stop_tail_def keeps_ids_def greeter_id_def last_id_def)
  show ?case
    using keeps_ids_trans [OF ids_greeter_stop [OF Suc.IH] keeps_ids_trans [OF ids_session_stop [OF Suc.IH] t]]
    by (simp add: display_stop_n.simps(2))
qed simp

lemma ids_display_stop: "keeps_ids ad (display_stop S ad)"
  by (simp add: display_stop_def ids_display_stop_n)

lemma ids_startAuth: "keeps_ids (a, d) (snd (startAuth E user password session (a, d)))"
  by (simp add: startAuth_def auth_start_def newSessionId_def keeps_ids_def greeter_id_def last_id_def log_effect_def Let_def)

lemma ids_login: "keeps_ids ad (display_login c E socket user password session ad)"
proof (cases ad)
  case (Pair a d)
  have "keeps_ids (a, d) (a, d\<lparr>d_socket := Some socket\<rparr>)" by (rule keeps_ids_display) (simp_all add: greeter_id_def last_id_def)
  from keeps_ids_trans [OF this ids_startAuth] this Pair show ?thesis
    by (simp add: display_login_def Let_def) (simp add: keeps_ids_def)
qed

lemma ids_readyRead: "keeps_ids ad (display_readyRead c E socket bytes ad)"
proof -
  have r: "keeps_ids x (display_request c E socket ev x)" for ev x
    by (simp add: display_request_def ids_login split: greeter_event.split)
  have "keeps_ids ad (fold (display_request c E socket) evs ad)" for evs
  proof (induction evs arbitrary: ad)
    case (Cons ev evs)
    show ?case using keeps_ids_trans [OF r Cons.IH] by simp
  qed simp
  then show ?thesis by (simp add: display_readyRead_def)
qed

lemma ids_display_signal: "keeps_ids ad (display_signal c S s ad)"
proof (cases ad)
  case (Pair a d)
  have e: "greeter_id (d\<lparr>d_socket := so\<rparr>) = greeter_id d" "last_id (d\<lparr>d_socket := so\<rparr>) = last_id d"
    "greeter_id (d\<lparr>d_socket := so, d_passPhrase := p\<rparr>) = greeter_id d" for d so p
    by (simp_all add: greeter_id_def last_id_def)
  show ?thesis unfolding Pair
    by (cases s) (simp_all add: display_signal_def slotAuthenticationFinished_def slotHelperFinished_def slotSessionStarted_def
        slotAuthInfo_def slotAuthError_def handleAutologinFailure_def ids_display_stop keeps_ids_display e Let_def
        split: option.split)
qed

interpretation display_ids: steady_owner "display_owner c S" "keeps_ids ad0" for c S ad0
proof unfold_locales
  fix s ad assume "keeps_ids ad0 ad"
  then show "keeps_ids ad0 (own_signal (display_owner c S) s ad)"
    by (simp add: display_owner_def keeps_ids_trans [OF _ ids_display_signal])
qed (simp_all add: keeps_ids_def same_but_answer_id)

text \<open>The greeter's object is the greeter's as long as the greeter holds it.\<close>

definition greeter_keeps :: "disp \<Rightarrow> int \<Rightarrow> Auth \<times> disp \<Rightarrow> bool" where
  "greeter_keeps ad0 k gad \<longleftrightarrow> keeps_ids ad0 (snd gad) \<and> au_id (fst gad) = k"

lemma ids_greeter_signal: "greeter_keeps ad0 k gad \<Longrightarrow> greeter_keeps ad0 k (greeter_signal S s gad)"
proof -
  assume k: "greeter_keeps ad0 k gad"
  obtain g a d where gad: "gad = (g, a, d)" by (metis prod_cases3)
  have "keeps_ids (a, d) (greeter_onHelperFinished S n (a, d))" for n
    unfolding greeter_onHelperFinished_def by (rule ids_greeter_exited [OF ids_display_stop])
  moreover have "keeps_ids (a, d) (a, greeter_onSessionStarted ok d)" for ok
    by (rule keeps_ids_display) simp_all
  ultimately show ?thesis using k keeps_ids_trans [of ad0 "(a, d)"]
    by (cases s) (auto simp: gad greeter_keeps_def greeter_signal_def)
qed

interpretation greeter_ids: steady_owner "greeter_owner S" "greeter_keeps ad0 k" for S ad0 k
  by unfold_locales (simp_all add: greeter_owner_def ids_greeter_signal, simp_all add: greeter_keeps_def same_but_answer_id)

lemma ids_with_greeter_auth:
  assumes "\<And>g. greeter_keeps ad (au_id g) (g, ad) \<Longrightarrow> greeter_keeps ad (au_id g) (f (g, ad))"
  shows "keeps_ids ad (with_greeter_auth f ad)"
proof (cases "g_auth (d_greeter (snd ad))")
  case None
  then show ?thesis by (simp add: with_greeter_auth_def)
next
  case (Some g)
  obtain g' a d where r: "f (g, ad) = (g', a, d)" by (metis prod_cases3)
  with assms [of g] have "keeps_ids ad (a, d)" "au_id g' = au_id g" by (simp_all add: greeter_keeps_def)
  with Some r show ?thesis
    by (auto simp: with_greeter_auth_def keeps_ids_def greeter_id_def last_id_def)
qed

text \<open>Only a greeter that is started is given an id, the next one.\<close>

definition steps_ids :: "disp \<Rightarrow> disp \<Rightarrow> bool" where
  "steps_ids ad ad' \<longleftrightarrow> keeps_ids ad ad'
     \<or> au_id (fst ad') = au_id (fst ad) \<and> last_id (snd ad') = last_id (snd ad) + 1 \<and> greeter_id (snd ad') = Some (last_id (snd ad))"

lemma ids_server_started: "steps_ids ad (displayServerStarted E ad)"
proof -
  have k: "keeps_ids (a, d) (a, d\<lparr>d_socketServer := srv\<rparr>)" for a d srv
    by (rule keeps_ids_display) (simp_all add: greeter_id_def last_id_def)
  show ?thesis
  proof (cases ad)
    case (Pair a d)
    show ?thesis
    proof (cases "de_plasmalogin_user E \<and> \<not> de_chown E \<or> g_started (d_greeter d)")
      case True
      with k [of a d] show ?thesis
        by (auto simp: Pair steps_ids_def displayServerStarted_def startSocketServerAndGreeter_def greeter_start_def
            greeter_setSocket_def keeps_ids_def greeter_id_def last_id_def Let_def split: prod.split)
    next
      case False
      then show ?thesis
        by (auto simp: Pair steps_ids_def displayServerStarted_def startSocketServerAndGreeter_def greeter_start_def
            greeter_setSocket_def auth_new_def newSessionId_def auth_start_def auth_setters greeter_id_def last_id_def
            log_effect_def Let_def split: prod.split)
    qed
  qed
qed

lemma ids_childExited: "keeps_ids ad (auth_childExited code normal text (display_owner c S) ad)"
proof -
  have "keeps_ids ad ((fst ad)\<lparr>au_running := False\<rparr>, snd ad)" by (simp add: keeps_ids_def)
  note k = keeps_ids_trans [OF this ids_display_signal]
  from k keeps_ids_trans [OF k ids_display_signal] show ?thesis
    by (simp add: auth_childExited_def display_owner_def Let_def)
qed

lemma ids_greeter_exit_event:
  assumes "greeter_keeps ad0 k gad"
  shows "greeter_keeps ad0 k (auth_childExited code normal text (greeter_owner S) gad)"
proof -
  have "greeter_keeps ad0 k ((fst gad)\<lparr>au_running := False\<rparr>, snd gad)" using assms by (simp add: greeter_keeps_def)
  from ids_greeter_signal [OF this] ids_greeter_signal [OF ids_greeter_signal [OF this]] show ?thesis
    by (simp add: auth_childExited_def greeter_owner_def Let_def)
qed

lemma life_step_ids: "life_step c E0 l l' \<Longrightarrow> steps_ids (lf_display l) (lf_display l')"
proof (induction rule: life_step.induct)
  case (server_started l E)
  show ?case by (simp add: ids_server_started)
next
  case (helper_connected l ch)
  show ?case by (simp add: steps_ids_def keeps_ids_def)
next
  case (helper_data l S ps)
  show ?case by (simp add: steps_ids_def display_ids.keeps_data)
next
  case (helper_error l msg S)
  show ?case by (simp add: steps_ids_def display_ids.keeps_error)
next
  case (greeter_connected l ch)
  show ?case unfolding steps_ids_def by (rule disjI1, simp, rule ids_with_greeter_auth, simp add: greeter_keeps_def)
next
  case (greeter_data l S ps)
  show ?case unfolding steps_ids_def by (rule disjI1, simp, rule ids_with_greeter_auth, erule greeter_ids.keeps_data)
next
  case (greeter_exited l code normal msg S)
  show ?case unfolding steps_ids_def by (rule disjI1, simp, rule ids_with_greeter_auth, erule ids_greeter_exit_event)
next
  case (greeter_error l msg S)
  show ?case unfolding steps_ids_def by (rule disjI1, simp, rule ids_with_greeter_auth, erule greeter_ids.keeps_error)
next
  case (greeter_timer t l S)
  show ?case by (simp add: steps_ids_def greeter_stop_def ids_greeter_stop ids_display_stop)
qed (simp_all add: steps_ids_def ids_readyRead ids_childExited ids_display_stop)

section \<open>Giving out ids\<close>

text \<open>From the next id \<open>g\<close> to the next id \<open>g'\<close>: the ids in use afterwards were in use before or have been given out
  since, and no two are the same if no two were.\<close>

definition ids_next :: "int \<Rightarrow> int list \<Rightarrow> int \<Rightarrow> int list \<Rightarrow> bool" where
  "ids_next g ks g' ks' \<longleftrightarrow> g \<le> g' \<and> (distinct ks \<longrightarrow> (\<forall>k \<in> set ks. k < g) \<longrightarrow> distinct ks')
     \<and> (\<forall>k \<in> set ks'. k \<in> set ks \<or> g \<le> k \<and> k < g')"

lemma ids_next_refl [simp]: "ids_next g ks g ks"
  by (simp add: ids_next_def)

lemma ids_next_trans:
  assumes "ids_next g ks g1 ks1" "ids_next g1 ks1 g2 ks2"
  shows "ids_next g ks g2 ks2"
  unfolding ids_next_def
proof (intro conjI impI ballI)
  have m: "g \<le> g1" "g1 \<le> g2" using assms by (simp_all add: ids_next_def)
  then show "g \<le> g2" by simp
  have n1: "k \<in> set ks \<or> g \<le> k \<and> k < g1" if "k \<in> set ks1" for k using assms(1) that by (simp add: ids_next_def)
  have n2: "k \<in> set ks1 \<or> g1 \<le> k \<and> k < g2" if "k \<in> set ks2" for k using assms(2) that by (simp add: ids_next_def)
  show "k \<in> set ks \<or> g \<le> k \<and> k < g2" if "k \<in> set ks2" for k
    using n2 [OF that] n1 [of k] m by (cases "k \<in> set ks1") auto
  assume d: "distinct ks" "\<forall>k \<in> set ks. k < g"
  then have "distinct ks1" using assms(1) by (simp add: ids_next_def)
  moreover have "k < g1" if "k \<in> set ks1" for k using n1 [OF that] d(2) m(1) by auto
  ultimately show "distinct ks2" using assms(2) by (simp add: ids_next_def)
qed

lemma ids_next_within:
  assumes "ids_next g ks g' ks'"
  shows "ids_next g (xs @ ks @ ys) g' (xs @ ks' @ ys)"
proof -
  have "distinct (xs @ ks' @ ys)" if "distinct (xs @ ks @ ys)" "\<forall>k \<in> set (xs @ ks @ ys). k < g"
  proof -
    from that assms have "distinct ks'" by (simp add: ids_next_def)
    moreover have "k \<notin> set xs \<union> set ys" if k: "k \<in> set ks'" for k
    proof
      assume x: "k \<in> set xs \<union> set ys"
      with \<open>\<forall>k \<in> set (xs @ ks @ ys). k < g\<close> have "k < g" by auto
      moreover have "k \<in> set ks \<or> g \<le> k" using assms k by (auto simp: ids_next_def)
      ultimately show False using x \<open>distinct (xs @ ks @ ys)\<close> by auto
    qed
    ultimately show ?thesis using that(1) by auto
  qed
  with assms show ?thesis by (auto simp: ids_next_def)
qed

lemma ids_next_append: "ids_next g [] g' ks' \<Longrightarrow> ids_next g ks g' (ks @ ks')"
  using ids_next_within [of g "[]" g' ks' ks "[]"] by simp

lemma ids_next_drop: "ids_next g (xs @ ks @ ys) g (xs @ ys)"
  by (auto simp: ids_next_def)

definition disp_ids :: "disp \<Rightarrow> int list" where
  "disp_ids ad = au_id (fst ad) # (case greeter_id (snd ad) of None \<Rightarrow> [] | Some k \<Rightarrow> [k])"

lemma disp_ids_next:
  "steps_ids ad ad' \<Longrightarrow> ids_next (last_id (snd ad)) (disp_ids ad) (last_id (snd ad')) (disp_ids ad')"
  by (auto simp: steps_ids_def keeps_ids_def ids_next_def disp_ids_def)

lemma disp_ids_globals [simp]: "disp_ids (a, d\<lparr>d_globals := g\<rparr>) = disp_ids (a, d)" "last_id (d\<lparr>d_globals := g\<rparr>) = gl_lastAuthId g"
  by (simp_all add: disp_ids_def greeter_id_def last_id_def)

text \<open>The entry under a key, and what becomes of the list when it is changed or taken out.\<close>

lemma assoc_entry:
  assumes "distinct (map fst xs)" "map_of xs i = Some y"
  obtains ys zs where "xs = ys @ (i, y) # zs" "\<And>z. map (\<lambda>(j, x). if j = i then (j, z) else (j, x)) xs = ys @ (i, z) # zs"
    "filter (\<lambda>x. fst x \<noteq> i) xs = ys @ zs"
proof -
  from assms(2) have "(i, y) \<in> set xs" by (rule map_of_SomeD)
  then obtain ys zs where xs: "xs = ys @ (i, y) # zs" by (meson split_list)
  with assms(1) have n: "i \<notin> fst ` set ys" "i \<notin> fst ` set zs" by auto
  have "map (\<lambda>(j, x). if j = i then (j, z) else (j, x)) ws = ws" if "i \<notin> fst ` set ws" for z and ws :: "('a \<times> 'b) list"
    using that by (induction ws) auto
  moreover have "filter (\<lambda>x. fst x \<noteq> i) ws = ws" if "i \<notin> fst ` set ws" for ws :: "('a \<times> 'b) list"
    using that by (auto simp: filter_id_conv)
  ultimately show thesis using n by (intro that [OF xs]) (simp_all add: xs)
qed

section \<open>The ids of a seat\<close>

definition seat_ids :: "Seat \<Rightarrow> int list" where
  "seat_ids st = concat (map (\<lambda>x. disp_ids (snd x)) (st_displays st))"

definition seat_keyed :: "Seat \<Rightarrow> bool" where
  "seat_keyed st \<longleftrightarrow> distinct (map fst (st_displays st)) \<and> (\<forall>j \<in> set (map fst (st_displays st)). j < st_next st)"

definition seat_next_ids :: "Seat \<Rightarrow> Seat \<Rightarrow> bool" where
  "seat_next_ids st st' \<longleftrightarrow> (seat_keyed st \<longrightarrow> seat_keyed st'
     \<and> ids_next (gl_lastAuthId (st_globals st)) (seat_ids st) (gl_lastAuthId (st_globals st')) (seat_ids st'))"

lemma seat_next_refl [simp]: "seat_next_ids st st"
  by (simp add: seat_next_ids_def)

lemma seat_next_trans: "seat_next_ids st st1 \<Longrightarrow> seat_next_ids st1 st2 \<Longrightarrow> seat_next_ids st st2"
  using ids_next_trans unfolding seat_next_ids_def by blast

lemma seat_next_effect [simp]: "seat_next_ids st (st_effect x st') = seat_next_ids st st'"
  by (simp add: seat_next_ids_def seat_keyed_def seat_ids_def st_effect_def)

lemma seat_next_on_display:
  assumes "\<And>a d. map_of (st_displays st) j = Some (a, d) \<Longrightarrow>
    steps_ids (a, d\<lparr>d_globals := st_globals st\<rparr>) (f (a, d\<lparr>d_globals := st_globals st\<rparr>))"
  shows "seat_next_ids st (on_display f j st)"
proof (cases "map_of (st_displays st) j")
  case None
  then show ?thesis by (simp add: on_display_def)
next
  case (Some ad)
  obtain a d where ad: "ad = (a, d)" by fastforce
  show ?thesis unfolding seat_next_ids_def
  proof
    assume k: "seat_keyed st"
    have "seat_keyed (on_display f j st)" using k by (simp add: seat_keyed_def del: set_map)
    have d: "distinct (map fst (st_displays st))" using k by (simp only: seat_keyed_def)
    obtain ys zs where l: "st_displays st = ys @ (j, ad) # zs"
        "\<And>z. map (\<lambda>(i, x). if i = j then (i, z) else (i, x)) (st_displays st) = ys @ (j, z) # zs"
        "filter (\<lambda>x. fst x \<noteq> j) (st_displays st) = ys @ zs"
      by (rule assoc_entry [OF d Some]) blast
    from disp_ids_next [OF assms [OF Some [unfolded ad]]] ids_next_within
    have "ids_next (gl_lastAuthId (st_globals st)) (seat_ids st) (gl_lastAuthId (st_globals (on_display f j st))) (seat_ids (on_display f j st))"
      by (simp add: on_display_def Some ad l(2) [unfolded ad] Let_def seat_ids_def) (simp add: l(1) ad last_id_def)
    with \<open>seat_keyed (on_display f j st)\<close> show "seat_keyed (on_display f j st)
        \<and> ids_next (gl_lastAuthId (st_globals st)) (seat_ids st) (gl_lastAuthId (st_globals (on_display f j st))) (seat_ids (on_display f j st))"
      by blast
  qed
qed

lemma ids_display_start: "keeps_ids ad (snd (display_start E ad))"
proof (cases ad)
  case (Pair a d)
  have k: "keeps_ids (a, d) (auth_setAutologin b a, d\<lparr>d_started := True\<rparr>)" for b
    by (rule keeps_ids_display) (simp_all add: greeter_id_def last_id_def)
  have q: "keeps_ids x (snd (handleAutologinFailure x))" for x
    by (cases x) (simp add: handleAutologinFailure_def keeps_ids_display)
  have s: "keeps_ids (a, d) (snd (startAuth E u p se (auth_setAutologin True a, d\<lparr>d_started := True\<rparr>)))" for u p se
    by (rule keeps_ids_trans [OF k ids_startAuth])
  have t: "keeps_ids (a, d) (a, log_effect QueueServerStarted (d\<lparr>d_started := True\<rparr>))"
    by (rule keeps_ids_display) (simp_all, simp_all add: greeter_id_def last_id_def)
  obtain ok ad2 where r: "startAuth E (cfg_autologinUser (de_config E)) [] (d_autologinSession d) (auth_setAutologin True a, d\<lparr>d_started := True\<rparr>) = (ok, ad2)"
    by (meson surj_pair)
  with s [of "cfg_autologinUser (de_config E)" "[]" "d_autologinSession d"] have "keeps_ids (a, d) ad2" by simp
  with keeps_ids_trans [OF this q] r t show ?thesis by (simp add: Pair display_start_def Let_def)
qed

lemma display_new_ids:
  assumes "display_new E r g = (a, d)"
  shows "ids_next (gl_lastAuthId g) [] (last_id d) (disp_ids (a, d))"
proof -
  have "au_id a = gl_lastAuthId g" "last_id d = gl_lastAuthId g + 1" "greeter_id d = None"
    using assms by (auto simp: display_new_def auth_new_def auth_setVerbose_def tryLockFirstLogin_def last_id_def greeter_id_def Let_def
        split: prod.splits if_splits)
  then show ?thesis by (simp add: ids_next_def disp_ids_def)
qed

lemma seat_next_created: "seat_next_ids st (seat_createDisplay E r st)"
proof -
  obtain a d where ad: "display_new E r (st_globals st) = (a, d)" by fastforce
  let ?st = "st\<lparr>st_displays := st_displays st @ [(st_next st, a, d)], st_next := st_next st + 1, st_globals := d_globals d\<rparr>"
  have one: "seat_next_ids st ?st" unfolding seat_next_ids_def
  proof
    assume k: "seat_keyed st"
    then have "seat_keyed ?st" by (auto simp: seat_keyed_def)
    moreover from ids_next_append [OF display_new_ids [OF ad], of "seat_ids st"]
    have "ids_next (gl_lastAuthId (st_globals st)) (seat_ids st) (gl_lastAuthId (st_globals ?st)) (seat_ids ?st)"
      by (simp add: seat_ids_def last_id_def)
    ultimately show "seat_keyed ?st
      \<and> ids_next (gl_lastAuthId (st_globals st)) (seat_ids st) (gl_lastAuthId (st_globals ?st)) (seat_ids ?st)" by blast
  qed
  have "seat_next_ids s (on_display (\<lambda>ad. snd (display_start E ad)) j s)" for s j
    by (rule seat_next_on_display) (simp add: steps_ids_def ids_display_start)
  then have "seat_next_ids ?st (seat_startDisplay E (st_next st) 1 ?st)"
    by (simp add: seat_startDisplay_def Let_def split: option.split)
  with one show ?thesis by (simp add: seat_createDisplay_def ad Let_def seat_next_trans)
qed

lemma seat_next_removed: "seat_next_ids st (seat_removeDisplay S j st)"
proof (cases "map_of (st_displays st) j")
  case None
  then show ?thesis by (simp add: seat_removeDisplay_def seat_display_def)
next
  case (Some ad)
  obtain a d where ad: "ad = (a, d)" by fastforce
  show ?thesis unfolding seat_next_ids_def
  proof
    assume k: "seat_keyed st"
    then have d: "distinct (map fst (st_displays st))" by (simp only: seat_keyed_def)
    obtain ys zs where l: "st_displays st = ys @ (j, ad) # zs"
        "\<And>z. map (\<lambda>(i, x). if i = j then (i, z) else (i, x)) (st_displays st) = ys @ (j, z) # zs"
        "filter (\<lambda>x. fst x \<noteq> j) (st_displays st) = ys @ zs"
      by (rule assoc_entry [OF d Some]) blast
    have s: "seat_removeDisplay S j st = st\<lparr>st_displays := ys @ zs,
        st_globals := d_globals (snd (display_stop S (a, d\<lparr>d_globals := st_globals st\<rparr>)))\<rparr>"
      by (simp add: seat_removeDisplay_def seat_display_def Some ad l(3) Let_def)
    have "gl_lastAuthId (d_globals (snd (display_stop S (a, d\<lparr>d_globals := st_globals st\<rparr>)))) = gl_lastAuthId (st_globals st)"
      using ids_display_stop [of "(a, d\<lparr>d_globals := st_globals st\<rparr>)" S] by (simp add: keeps_ids_def) (simp add: last_id_def)
    moreover have "seat_keyed (seat_removeDisplay S j st)" using k by (auto simp: s seat_keyed_def l(1))
    ultimately show "seat_keyed (seat_removeDisplay S j st) \<and> ids_next (gl_lastAuthId (st_globals st)) (seat_ids st)
        (gl_lastAuthId (st_globals (seat_removeDisplay S j st))) (seat_ids (seat_removeDisplay S j st))"
      using ids_next_drop [of "gl_lastAuthId (st_globals st)" "concat (map (\<lambda>x. disp_ids (snd x)) ys)" "disp_ids ad"]
      by (simp add: s seat_ids_def l(1))
  qed
qed

lemma seat_next_stopped: "seat_next_ids st (seat_displayStopped E S r j st)"
  using seat_next_removed [of st S j] seat_next_trans [OF seat_next_removed [of st S j] seat_next_created [of _ E r]]
  by (simp add: seat_displayStopped_def Let_def split: option.split prod.split)

lemma seat_next_failed: "seat_next_ids st (seat_displayServerFailed S j st)"
  by (simp add: seat_displayServerFailed_def seat_next_removed)

lemma seat_next_destroy: "seat_next_ids st (seat_destroy S st)"
proof -
  have o: "seat_next_ids s (on_display (display_destroy S) j s)" for s j
    by (rule seat_next_on_display) (simp add: steps_ids_def display_destroy_def ids_display_stop)
  have "seat_next_ids st (fold (on_display (display_destroy S)) js st)" for js
  proof (induction js arbitrary: st)
    case (Cons j js)
    show ?case using seat_next_trans [OF o Cons.IH] by simp
  qed simp
  then show ?thesis by (simp add: seat_destroy_def)
qed

section \<open>The ids of the daemon\<close>

definition app_ids :: "daemon_app \<Rightarrow> int list" where
  "app_ids app = concat (map (\<lambda>x. seat_ids (snd x)) (da_seats app))"

definition app_keyed :: "daemon_app \<Rightarrow> bool" where
  "app_keyed app \<longleftrightarrow> distinct (map fst (da_seats app)) \<and> (\<forall>x \<in> set (da_seats app). seat_keyed (snd x))"

definition app_next_ids :: "daemon_app \<Rightarrow> daemon_app \<Rightarrow> bool" where
  "app_next_ids app app' \<longleftrightarrow> (app_keyed app \<longrightarrow> app_keyed app'
     \<and> ids_next (gl_lastAuthId (da_globals app)) (app_ids app) (gl_lastAuthId (da_globals app')) (app_ids app'))"

lemma app_next_refl [simp]: "app_next_ids app app"
  by (simp add: app_next_ids_def)

lemma app_next_trans: "app_next_ids app app1 \<Longrightarrow> app_next_ids app1 app2 \<Longrightarrow> app_next_ids app app2"
  using ids_next_trans unfolding app_next_ids_def by blast

lemma app_next_frame:
  "da_seats app' = da_seats app \<Longrightarrow> da_globals app' = da_globals app \<Longrightarrow> app_next_ids app app'"
  by (simp add: app_next_ids_def app_keyed_def app_ids_def)

lemma app_next_on_seat:
  assumes "\<And>st. map_of (da_seats app) i = Some st \<Longrightarrow> seat_next_ids (st\<lparr>st_globals := da_globals app\<rparr>) (f (st\<lparr>st_globals := da_globals app\<rparr>))"
  shows "app_next_ids app (on_seat f i app)"
proof (cases "map_of (da_seats app) i")
  case None
  then show ?thesis by (simp add: on_seat_def)
next
  case (Some st)
  let ?st = "st\<lparr>st_globals := da_globals app\<rparr>"
  show ?thesis unfolding app_next_ids_def
  proof
    assume k: "app_keyed app"
    then have d: "distinct (map fst (da_seats app))" by (simp only: app_keyed_def)
    obtain ys zs where l: "da_seats app = ys @ (i, st) # zs"
        "\<And>z. map (\<lambda>(j, s). if j = i then (j, z) else (j, s)) (da_seats app) = ys @ (i, z) # zs"
        "filter (\<lambda>x. fst x \<noteq> i) (da_seats app) = ys @ zs"
      by (rule assoc_entry [OF d Some]) blast
    have ks: "seat_keyed ?st" using k l(1) by (auto simp: app_keyed_def seat_keyed_def)
    with assms [OF Some] have n: "seat_keyed (f ?st)"
        "ids_next (gl_lastAuthId (da_globals app)) (seat_ids ?st) (gl_lastAuthId (st_globals (f ?st))) (seat_ids (f ?st))"
      by (simp_all add: seat_next_ids_def)
    have e: "da_seats (on_seat f i app) = ys @ (i, f ?st) # zs" "da_globals (on_seat f i app) = st_globals (f ?st)"
      by (simp_all add: on_seat_def Some Let_def l(2))
    have "app_keyed (on_seat f i app)" using k n(1) by (auto simp: app_keyed_def e(1) l(1))
    moreover have "ids_next (gl_lastAuthId (da_globals app)) (app_ids app) (gl_lastAuthId (da_globals (on_seat f i app))) (app_ids (on_seat f i app))"
      using ids_next_within [OF n(2)] by (simp add: app_ids_def e l(1)) (simp add: seat_ids_def)
    ultimately show "app_keyed (on_seat f i app)
        \<and> ids_next (gl_lastAuthId (da_globals app)) (app_ids app) (gl_lastAuthId (da_globals (on_seat f i app))) (app_ids (on_seat f i app))"
      by blast
  qed
qed

lemma app_next_on_seats:
  assumes "\<And>st. seat_next_ids st (f st)"
  shows "app_next_ids app (fold (on_seat f) is app)"
proof (induction "is" arbitrary: app)
  case (Cons i "is")
  show ?case using app_next_trans [OF app_next_on_seat Cons.IH] assms by simp
qed simp

lemma app_next_filter: "app_next_ids app (app\<lparr>da_seats := filter P (da_seats app)\<rparr>)"
proof -
  have "ids_next g (concat (map (\<lambda>x. seat_ids (snd x)) xs)) g (concat (map (\<lambda>x. seat_ids (snd x)) (filter P xs)))"
    for g and xs :: "(nat \<times> Seat) list"
  proof (induction xs)
    case (Cons x xs)
    from ids_next_within [OF Cons.IH, of "seat_ids (snd x)" "[]"]
    have c: "ids_next g (concat (map (\<lambda>x. seat_ids (snd x)) (x # xs))) g (seat_ids (snd x) @ concat (map (\<lambda>x. seat_ids (snd x)) (filter P xs)))"
      by simp
    with ids_next_trans [OF this ids_next_drop [of g "[]" "seat_ids (snd x)", simplified]] show ?case by simp
  qed simp
  then show ?thesis by (auto simp: app_next_ids_def app_ids_def app_keyed_def distinct_map_filter)
qed

lemma app_next_newSeat:
  assumes "fst x \<notin> fst ` set (da_seats app)"
  shows "app_next_ids app (daemon_newSeat E r x app)"
proof -
  let ?app = "app\<lparr>da_seats := da_seats app @ [(fst x, seat_new (da_globals app))]\<rparr>"
  have "app_next_ids app ?app"
    using assms by (auto simp: app_next_ids_def app_keyed_def app_ids_def seat_new_def seat_ids_def seat_keyed_def)
  moreover have "app_next_ids ?app (on_seat (seat_createDisplay ((E (snd x))\<lparr>de_seat := snd x\<rparr>) r) (fst x) ?app)"
    by (rule app_next_on_seat) (rule seat_next_created)
  ultimately show ?thesis unfolding daemon_newSeat_def by (rule app_next_trans)
qed

lemma app_next_newSeats:
  "distinct (map fst objs) \<Longrightarrow> fst ` set objs \<inter> fst ` set (da_seats app) = {} \<Longrightarrow>
     app_next_ids app (fold (daemon_newSeat E r) objs app)"
proof (induction objs arbitrary: app)
  case (Cons x objs)
  have "app_next_ids (daemon_newSeat E r x app) (fold (daemon_newSeat E r) objs (daemon_newSeat E r x app))"
    using Cons.prems by (intro Cons.IH) auto
  moreover have "app_next_ids app (daemon_newSeat E r x app)"
    using Cons.prems by (intro app_next_newSeat) auto
  ultimately show ?case using app_next_trans by simp
qed simp

lemma app_next_sync:
  assumes "distinct (map fst (sm_objects (da_sm app)))"
  shows "app_next_ids app (daemon_sync E S r app)"
proof -
  let ?objs = "sm_objects (da_sm app)"
  let ?alive = "\<lambda>x. fst x \<in> fst ` set ?objs"
  let ?app1 = "fold (on_seat (seat_destroy S)) (map fst (filter (\<lambda>x. \<not> ?alive x) (da_seats app))) app"
  let ?app2 = "?app1\<lparr>da_seats := filter ?alive (da_seats ?app1)\<rparr>"
  let ?fresh = "filter (\<lambda>x. fst x \<notin> fst ` set (da_seats app)) ?objs"
  have two: "app_next_ids app ?app2"
    by (rule app_next_trans [OF app_next_on_seats [OF seat_next_destroy] app_next_filter])
  have "fst ` set (da_seats ?app2) = fst ` set ?objs \<inter> fst ` set (da_seats app)"
    by (simp add: alive_ids Int_commute del: set_filter)
  then have d: "distinct (map fst ?fresh)" "fst ` set ?fresh \<inter> fst ` set (da_seats ?app2) = {}"
    using distinct_map_filter [OF assms] by auto
  have "daemon_sync E S r app = fold (daemon_newSeat E r) ?fresh ?app2" by (simp add: daemon_sync_def Let_def)
  with app_next_trans [OF two app_next_newSeats [OF d]] show ?thesis by simp
qed

lemma app_next_event:
  assumes "distinct (map fst (sm_objects (f (da_sm app))))"
  shows "app_next_ids app (daemon_event E S r f app)"
  unfolding daemon_event_def
  by (rule app_next_trans [OF app_next_frame app_next_sync]) (simp_all add: assms)

lemma dl_step_ids:
  assumes "dl_step c C E0 w w'" "daemon_ok (dl_app w)"
  shows "app_next_ids (dl_app w) (dl_app w')"
  using assms
proof (induction rule: dl_step.induct)
  case (logind w f E S r)
  then have "objects_match (f (da_sm (dl_app w)))" by (auto simp: daemon_ok_def intro: objects_match_step)
  then show ?case by (simp add: objects_match_def app_next_event)
next
  case (display w i name st j a d l)
  from life_step_ids [OF display(4)]
  have s: "steps_ids (a, d\<lparr>d_globals := da_globals (dl_app w)\<rparr>) (lf_display l)" by simp
  have "seat_next_ids (st\<lparr>st_globals := da_globals (dl_app w)\<rparr>) (on_display (\<lambda>_. lf_display l) j (st\<lparr>st_globals := da_globals (dl_app w)\<rparr>))"
    by (rule seat_next_on_display) (use s display(3) in simp)
  with display(2) have "app_next_ids (dl_app w) (on_seat (on_display (\<lambda>_. lf_display l) j) i (dl_app w))"
    by (intro app_next_on_seat) simp
  then show ?case by simp
next
  case (stopped w i name E S r j)
  show ?case by (simp add: app_next_on_seat seat_next_stopped)
next
  case (failed w S j i)
  show ?case by (simp add: app_next_on_seat seat_next_failed)
next
  case (switch E w r sessions name)
  show ?case by (auto simp: daemon_switchToGreeter_def app_next_on_seat seat_next_created split: switch_effect.split)
next
  case (signal w s)
  show ?case by (simp add: daemon_signal_def app_next_frame)
qed

definition app_ids_ok :: "daemon_app \<Rightarrow> bool" where
  "app_ids_ok app \<longleftrightarrow> app_keyed app \<and> distinct (app_ids app) \<and> 1 \<le> gl_lastAuthId (da_globals app)
     \<and> (\<forall>k \<in> set (app_ids app). 1 \<le> k \<and> k < gl_lastAuthId (da_globals app))"

lemma app_ids_ok_next:
  assumes "app_next_ids app app'" "app_ids_ok app"
  shows "app_ids_ok app'"
proof -
  from assms have n: "app_keyed app'"
      "ids_next (gl_lastAuthId (da_globals app)) (app_ids app) (gl_lastAuthId (da_globals app')) (app_ids app')"
    by (simp_all add: app_next_ids_def app_ids_ok_def)
  have "1 \<le> k \<and> k < gl_lastAuthId (da_globals app')" if k: "k \<in> set (app_ids app')" for k
    using n(2) assms(2) k by (fastforce simp: ids_next_def app_ids_ok_def)
  moreover have "distinct (app_ids app')" "1 \<le> gl_lastAuthId (da_globals app')"
    using n(2) assms(2) by (auto simp: ids_next_def app_ids_ok_def)
  ultimately show ?thesis using n(1) by (simp add: app_ids_ok_def)
qed

lemma new_ids_ok: "app_ids_ok (daemon_new E r seats)"
proof -
  have "distinct (map fst (sm_objects (sm_initialize seats sm_init)))"
    by (cases seats) (simp_all add: sm_initialize_def listed_objects sm_createSeat_def sm_init_def)
  then show ?thesis unfolding daemon_new_def
    by (intro app_ids_ok_next [OF app_next_event]) (simp_all add: app_ids_ok_def app_keyed_def app_ids_def)
qed

lemma dl_ids: "dl_reachable c C E0 w \<Longrightarrow> app_ids_ok (dl_app w)"
proof (induction rule: dl_reachable.induct)
  case (start seats E r)
  show ?case by (simp add: new_ids_ok)
next
  case (step w w')
  from dl_invariant [OF step(1)] have "daemon_ok (dl_app w)" by (simp add: dl_ok_def)
  from app_ids_ok_next [OF dl_step_ids [OF step(2) this] step(3)] show ?case .
qed



end
