(* ===== verification/Spec2Isabelle.thy ===== *)
theory Spec2Isabelle
  imports Safe_Stream Handover Session_End DBus_Objects Daemon_App Helper_Life User_Model Settings_Module X11_Helper Main_Config Log_Output Wallpaper_Integration Daemon_Life
    Auth_Registry Daemon_Ids
begin

text \<open>
  A verification development of the Plasma login manager (the \<open>meo\<close> fork): the C++ programs under
  \<open>src/\<close> that show the login screen, authenticate a user through PAM and start a session.  Paths in
  this development are relative to the root of the repository.

  The program and its parts.  The daemon \<open>plasmalogin\<close> keeps a \<open>Seat\<close> for every seat that can show
  graphics, a seat keeps a \<open>Display\<close>, and a display runs a greeter, a process of the unprivileged user
  \<open>plasmalogin\<close>.  The greeter sends login requests to the display over a local socket.  For a login the
  display's \<open>Auth\<close> object starts a helper process, which talks to PAM; the helper sends PAM's questions
  to the daemon over a second socket, gets the answers, and on success forks the session's process, gives up its
  privileges and executes the session.  Greeters are started by the same helper.

  Theories and what they model, in the order of their dependencies:
  \<^item> Prelude: Qt's value types (strings, lists, process environments) as HOL types, the string functions of
    Qt that the code calls, and the collections of simplification rules.
  \<^item> Wire: \<open>src/auth/AuthMessages.h\<close>, \<open>AuthPrompt.h\<close>, the enumerations of \<open>Auth.h\<close>.
    Prompts, requests and the stream operators of the helper's protocol.  \<open>QDataStream\<close> is a record of
    encoders and decoders with the contract \<open>qds_ok\<close>; \<open>sd_qds\<close> is a concrete instance.
  \<^item> Safe_Stream: \<open>src/common/SafeDataStream.cpp\<close>, length-prefixed messages over a device that takes
    and delivers bytes in pieces.
  \<^item> Helper_Channel, Pam_Data, Pam_Backend, User_Session, Helper_App, Helper_Args: the helper
    (\<open>src/helper/\<close>).  The slots of \<open>HelperApp\<close> that talk to the daemon; the prompts of a PAM
    conversation; PamHandle and PamBackend over a parameter \<open>pam_lib\<close>; the child process as a sequence of
    system calls; \<open>doAuth\<close> and the command line.
  \<^item> Helper_Life: the helper process from its command line to its destructor, with PAM's library wrapped in one that writes
    its calls down, and the order PAM asks for as an automaton.
  \<^item> Auth_Request, Auth_Daemon: \<open>src/auth/\<close>, the daemon's end of an authentication.
  \<^item> Session_File, Socket_Server: \<open>src/common/Session.cpp\<close>; both ends of the greeter's socket
    (\<open>src/daemon/SocketServer.cpp\<close>, \<open>src/frontend/greeter/backend/\<close>).
  \<^item> Virtual_Terminal: \<open>src/common/VirtualTerminal.cpp\<close> over the kernel's answers.
  \<^item> Display_Manager, Display, Seat, Seat_Manager: \<open>src/daemon/\<close>, from the D-Bus lists to the
    display with its greeter and its authentication, the seat with its displays and logind's seats.
  \<^item> DBus_Objects: the display manager's objects on the bus, when they are registered and when they are deleted.
  \<^item> Display_Life: everything that can happen to a display, as a step relation: what its greeter and its helpers write, in
    whatever order, their ends, the timer and the seat.
  \<^item> Daemon_App: \<open>src/daemon/DaemonApp.cpp\<close>, the seat manager with the \<open>Seat\<close> objects it creates and deletes, the
    shared counters and the ways the daemon ends, as a step relation.
  \<^item> Daemon_Life: Daemon_App and Display_Life together, the daemon in which every display of every seat lives its own
    life, created with the configuration the file holds at that time.
  \<^item> Auth_Registry: the table of \<open>Auth\<close> objects over the life of the daemon, and the helpers that connect to it.
  \<^item> Daemon_Ids: the ids of these objects in the daemon of the theory Daemon_Life.
  \<^item> Logind_Types: \<open>src/daemon/LogindDBusTypes.h\<close>, the structures of logind's D-Bus interface and their
    operators over a marshalling interface.
  \<^item> X11_Helper, XAuth: \<open>src/helper/xorguserhelper.cpp\<close>, \<open>HelperStartX11User.cpp\<close>, \<open>XAuth.cpp\<close>; the
    X server of an X11 session, its authority file and the process of the session.
  \<^item> Startup: \<open>src/frontend/startkde/\<close>, the environment of the greeter's session and what systemd and D-Bus get of it.
  \<^item> Session_Model, User_Model, Login_Settings: \<open>src/frontend/settings/\<close>, the lists of sessions and users
    the greeter shows, and the settings they depend on.
  \<^item> Screens: the windows of \<open>src/frontend/greeter/\<close> and \<open>src/frontend/wallpaper/\<close> on the screens, as one
    system of two programs that exchange D-Bus calls.
  \<^item> Greeter_App: the greeter's \<open>main\<close> and its proxy of the daemon (\<open>src/frontend/greeter/main.cpp\<close>,
    \<open>backend/GreeterProxy.cpp\<close>), with the events of its socket.
  \<^item> Wallpaper_Integration: \<open>src/frontend/settings/wallpaperintegration.cpp\<close>, the objects behind the wallpaper's configuration.
  \<^item> Session_End: what follows the end of a session, from the exit of its helper to the next greeter.
  \<^item> Handover: the way from the daemon through the helper and PAM to the session or the greeter, across the theories above.
  \<^item> File_Tree, Settings_Helper, Wallpaper_Save, Settings_Module: \<open>src/frontend/kcm/\<close>.  A home directory as a
    tree; the helper that runs as root for the settings page, with its actions sync, reset and save; the page itself.
  \<^item> Main_Config, Log_Output: \<open>src/common/MainConfigLoader.cpp\<close>, \<open>MessageHandler.h\<close>, \<open>src/daemon/Utils.h\<close>.
  \<^item> Spec2Isabelle (this theory): the properties that cross these components.

  How state corresponds.  A class is a record with the names of its members (\<open>m_user\<close> of \<open>HelperApp\<close> is
  \<open>h_user\<close>, \<open>m_started\<close> of \<open>Display\<close> is \<open>d_started\<close>, and so on); an operation takes and
  returns the record.  Calls that leave the process (a signal to another object, a system call, a D-Bus call) are
  written down in order in a list of effects.  Qt delivers signals to slots at once, so a slot that calls back into
  its sender is a function applied inside the sender's operation.

  Interfaces.  The locale \<open>qt_stream\<close> states the contract of a data stream and holds the round-trip
  lemmas of every message; it is interpreted on \<open>sd_qds\<close>.  In the same way \<open>dbus_argument\<close> states what marshalling
  promises, \<open>std_sort\<close> what a sorting routine does with a strict weak order, \<open>path_store\<close> the laws of looking up and
  putting files, \<open>systemd_manager\<close> the documented calls of systemd, \<open>authority_file\<close> what a reader of an
  authority file finds, \<open>command_splitter\<close> how a command line is taken apart, and \<open>kconfig_sources\<close> how
  configuration files are merged; each is interpreted on a concrete instance.  \<open>launching_manager\<close> extends
  \<open>systemd_manager\<close> by what starting the greeter's unit needs.  \<open>steady_owner\<close> is what the owner of an \<open>Auth\<close>
  keeps when a signal reaches it, interpreted on the display and on the greeter, once for what may be started and once for the ids; \<open>seat_operation\<close> is what every operation on a
  seat keeps, interpreted on each of them.  What Qt, PAM, logind and the kernel do is an
  argument of the definitions (\<open>qds\<close>, \<open>pam_lib\<close>, \<open>vt_os\<close>, \<open>daemon_env\<close>,
  \<open>stop_env\<close>, \<open>session_fs\<close>), constrained only where a property names a hypothesis.

  What the lemmas show.  Round trips of messages, environments and command lines; that a denied login opens nothing
  and a session child gives up root before it runs anything; the bookkeeping of prompts in every reachable state of
  a conversation; which logins start a helper; that stopping a display ends, that seats keep a display and that the
  daemon's seats are the graphical ones; that descriptors do not leak.  Over whole lives: that a helper is started without a
  password only for the greeter and the configured automatic login, whatever greeter and helpers write, proved of one display and carried over
  to all displays of all seats, because each of them is in a state of its own life whatever the others do; that a helper is
  connected to the object that started it or to nothing, since no id is given out twice; that the greeter is
  started once; that every seat is shown something as long as the daemon runs; that the helper keeps to PAM's order however it
  ends; that the session the user chose is the one that runs, and that the greeter's proxy finds the socket of its own
  display; that after a session the greeter comes back.  For the greeter's surroundings: that the
  settings helper repairs ownership, writes nothing outside its directory and gives the greeter the user's settings and
  wallpaper, and that the wallpaper's configuration is the one of its plugin; that the lists of sessions and users are the ones they should be, in order and told apart; that no variable of an
  old session reaches the new one; that an X11 session gets the display and the cookie of its server; that the blur
  follows the active window whatever the order of events.  Several theorems state faults of the code as it is: the
  conversation function's undefined reply loop, options taken from values, unanswered logins, the user name sent as
  a new password, a header that is lost when it arrives in pieces, a configuration emptied before its size is checked, session
  texts that are not distinct, a session that runs although its cookie could not be written, an unreadable image
  saved as an empty file, a new screen that stays sharp, a desktop name that an earlier login leaves behind, a seat that is
  announced and listed, a returning seat that is not on the bus, credentials that are not removed, an inhibitor
  that is not declared as logind sends it.

  Bounds and loops.  \<open>Display::stop\<close> may run itself again from its slots; \<open>display_stop_n\<close> takes the
  number of levels, and \<open>display_stop\<close> takes three, which \<open>display_stop_completes\<close> proves to be a
  fixed point.  The readers of the greeter's socket take as many rounds as there are bytes, enough because a round
  takes at least one.  The switching loop of \<open>jumpToVt\<close> is a \<open>partial_function\<close>: its result is
  \<open>None\<close> exactly when the kernel interrupts it for ever.  Integers are words where they are sent or wrap
  (message numbers, lengths, ids), and \<open>int\<close> where the code only counts.

  The recursion of \<open>adjustOwnershipRecursively\<close> is structural on the tree.  The ids of \<open>Auth\<close> objects are
  64 bits wide where they are sent and looked up; what is said of the table of objects is said as long as fewer than
  2^63 have been made.

  Not modelled.  Translations and debug output; the constant D-Bus properties of seats and sessions; the
  start of the wallet manager and the registration of types of the settings page; functions that return a member or whose body is
  empty; slots that nothing is connected to (\<open>Greeter::finished\<close> and its two readers of a process that is never made); the QML
  scenes: these are calls into Qt and KDE with no state of the program's own.  Symbolic links in the greeter's home are not followed in the model of the settings
  helper, and characters beyond the eighth bit do not occur in strings.
\<close>

section \<open>From the greeter to PAM\<close>

lemma no_prediction:
  assumes "pd_prompts d = []" "detectPrompt msg \<notin> {LOGIN_USER, CHANGE_CURRENT, CHANGE_NEW}"
  shows "insertPrompt msg True d = insertPrompt msg False d"
  using assms by (simp add: insertPrompt_def findPrompt_def Let_def)

context qt_stream begin

lemma single_prompt_answer:
  assumes "\<not> ar_finishAutomatically (au_request a)"
  shows "ch_out (au_chan (fst (snd (auth_message c (display_owner c S) (put_msg c REQUEST @ put_request c \<lparr>r_prompts = [p]\<rparr>) (prev, a, d)))))
    = ch_out (au_chan a) @ [put_msg c REQUEST @ put_request c \<lparr>r_prompts = [p\<lparr>p_response := c_str (d_passPhrase d)\<rparr>]\<rparr>]"
  using auth_message_request [of "\<lparr>r_prompts = [p]\<rparr>" "display_owner c S" prev a d]
    display_request_answered [of a d "\<lparr>r_prompts = [p]\<rparr>" _ c S] assms
  by (simp add: display_answers_def with_responses_def)

end

lemma ar_finishAutomatically_session [simp]:
  "au_request (session_auth E u s sid t a) = au_request a" "au_chan (session_auth E u s sid t a) = au_chan a"
  by (simp_all add: session_auth_def auth_setters Let_def)

lemma login_accepted:
  assumes "display_login c E s user password session (a, d) = (a1, d1)" "au_running a1" "\<not> au_running a"
  shows "d_passPhrase d1 = password" "au_request a1 = au_request a" "au_chan a1 = au_chan a" "au_user a1 = user"
proof -
  let ?d = "d\<lparr>d_socket := Some s\<rparr>"
  have u: "user \<noteq> ''plasmalogin''" using assms by (auto simp: display_login_def)
  have ok: "\<not> (auth_isActive a \<or> \<not> session_valid session \<or> xdgSessionType session = [] \<or> session_exec session = [])"
  proof
    assume "auth_isActive a \<or> \<not> session_valid session \<or> xdgSessionType session = [] \<or> session_exec session = []"
    from startAuth_refused [OF this, of E user password ?d] assms u show False by (auto simp: display_login_def)
  qed
  with startAuth_started [of a session E user password ?d] assms(1) u
  show "d_passPhrase d1 = password" "au_request a1 = au_request a" "au_chan a1 = au_chan a" "au_user a1 = user"
    by (auto simp: display_login_def)
qed

text \<open>Property C1: the password typed in the greeter is the password PAM gets.  The greeter's login message
  is read by the daemon; the login it starts, once its helper asks PAM's question for the password, is answered by
  the display; and the conversation function hands PAM exactly the typed password (up to its first NUL), with
  success.  The question travels to the daemon and the answer back over the wire in between.\<close>

theorem password_reaches_pam:
  assumes "qds_ok c"
    and typed: "ss_readyRead c (de_fs E) (gp_login c user password type file []) = [LoginRequest u p session]"
    and login: "display_login c E s u p session (a, d) = (a1, d1)" "au_running a1" "\<not> au_running a"
      "\<not> ar_finishAutomatically (au_request a)"
    and question: "msg_style msg = PAM_PROMPT_ECHO_OFF" "detectPrompt msg \<notin> {LOGIN_USER, CHANGE_CURRENT, CHANGE_NEW}"
    and helper: "pd_prompts (b_data b) = []" "\<not> m_sent (b_data b)" "b_mem b = []"
    and asked: "request = put_msg c REQUEST @ put_request c (getRequest (snd (insertPrompt msg True (b_data b))))"
    and reply: "ch_in (b_chan b) = [last (ch_out (au_chan (fst (snd (auth_message c (display_owner c S) request (prev, a1, d1))))))]"
  shows "\<exists>b'. converse c [msg] b = (ConvReturn PAM_SUCCESS [c_str password], b')
    \<and> ch_out (b_chan b') = ch_out (b_chan b) @ [request]"
proof -
  have q: "qt_stream c" using assms(1) by (rule qt_stream.intro)
  have "p = password"
    using typed qt_stream.ss_readyRead_all [OF q, of "de_fs E" "[CallLogin user password type file]"] by simp
  then have pass: "d_passPhrase d1 = password" using login_accepted(1) [OF login(1-3)] by simp
  let ?p = "mk_prompt (detectPrompt msg) (msg_text msg) True"
  have i: "insertPrompt msg True (b_data b) = insertPrompt msg False (b_data b)"
    using no_prediction helper(1) question(2) by simp
  have r: "request = put_msg c REQUEST @ put_request c \<lparr>r_prompts = [?p]\<rparr>"
    unfolding asked i single_question_steps(1) [OF helper(1,2)]
    using helper(2) question(1) by (simp add: getRequest_def set_prompts_def)
  have "\<not> ar_finishAutomatically (au_request a1)" using login(4) login_accepted(2) [OF login(1-3)] by simp
  from qt_stream.single_prompt_answer [OF q this, of S ?p prev d1]
  have "ch_in (b_chan b) = (put_msg c REQUEST @ put_request c \<lparr>r_prompts = [?p\<lparr>p_response := c_str password\<rparr>]\<rparr>) # []"
    using reply r pass by simp
  from qt_stream.converse_single [OF q helper(1,2) question(1) i helper(3) this] r
  show ?thesis by simp
qed

lemma password_reaches_pam_witness:
  "\<exists>a1 d1 b b'. display_login sd_qds (sample_denv []) 7 ''joe'' ''secret'' sample_session sample_disp = (a1, d1)
     \<and> converse sd_qds [\<lparr>msg_style = PAM_PROMPT_ECHO_OFF, msg_text = ''Password: ''\<rparr>] b
         = (ConvReturn PAM_SUCCESS [''secret''], b' :: nat backend)"
proof -
  let ?msg = "\<lparr>msg_style = PAM_PROMPT_ECHO_OFF, msg_text = ''Password: ''\<rparr>"
  let ?S = "\<lparr>se_greeter_exit = None, se_session_exit = None\<rparr>"
  obtain a d where ad: "sample_disp = (a, d)" by fastforce
  obtain a1 d1 where l: "display_login sd_qds (sample_denv []) 7 ''joe'' ''secret'' sample_session (a, d) = (a1, d1)" by fastforce
  have fs: "de_fs (sample_denv []) = sample_fs" by (simp add: sample_denv_def)
  have na: "\<not> au_running a" "\<not> ar_finishAutomatically (au_request a)" using sample_disp_sel by (simp_all add: ad)
  have "xdgSessionType sample_session \<noteq> []"
    using sample_session_sel session_create_xdg [of sample_fs WaylandSession "''plasma''"] by (auto simp: sample_session_def)
  with startAuth_started [of a sample_session "sample_denv []" "''joe''" "''secret''" "d\<lparr>d_socket := Some 7\<rparr>"] l na
    sample_session_sel have run: "au_running a1" by (auto simp: display_login_def auth_isActive_def)
  have typed: "ss_readyRead sd_qds (de_fs (sample_denv [])) (gp_login sd_qds ''joe'' ''secret'' WaylandSession ''plasma'' [])
      = [LoginRequest ''joe'' ''secret'' sample_session]"
    using sd.ss_readyRead_all [of sample_fs "[CallLogin ''joe'' ''secret'' WaylandSession ''plasma'']"]
    by (simp add: fs sample_session_def)
  define request where "request = put_msg sd_qds REQUEST @ put_request sd_qds (getRequest (snd (insertPrompt ?msg True init_pam_data)))"
  define b :: "nat backend" where "b = (init_backend 0 \<lparr>ch_out = [], ch_in =
      [last (ch_out (au_chan (fst (snd (auth_message sd_qds (display_owner sd_qds ?S) request (MSG_UNKNOWN, a1, d1))))))]\<rparr>)"
  have b: "b_data b = init_pam_data" "b_mem b = []"
    "ch_in (b_chan b) = [last (ch_out (au_chan (fst (snd (auth_message sd_qds (display_owner sd_qds ?S) request (MSG_UNKNOWN, a1, d1))))))]"
    by (simp_all add: b_def init_backend_def)
  have "\<exists>b'. converse sd_qds [?msg] b = (ConvReturn PAM_SUCCESS [c_str ''secret''], b') \<and> ch_out (b_chan b') = ch_out (b_chan b) @ [request]"
    by (rule password_reaches_pam [OF sd_qds_ok typed l run na(1,2), where S = ?S and prev = MSG_UNKNOWN])
      (simp_all add: b request_def init_pam_data_def empty_request_def prompt_type_defs)
  with l ad show ?thesis by (auto simp: c_str_def)
qed

text \<open>The environment the display prepares is the one the session gets.  When the helper
  reports the authenticated user, the daemon's reply, read by the helper, gives every variable the value it has in
  the \<open>Auth\<close> object's environment, and no others.\<close>

theorem environment_reaches_helper:
  assumes "qds_ok c" "user \<noteq> []"
    and "env_ok (au_environment a)" "\<forall>k \<in> set (env_keys (au_environment a)). CHR ''='' \<notin> set k"
    and "auth_message c (display_owner c S) (last (ch_out (snd (helper_authenticated c user \<lparr>ch_out = [], ch_in = []\<rparr>)))) (prev, a, d) = (m, a', d')"
    and "ch_in ch = [last (ch_out (au_chan a'))]"
  shows "env_get (fst (helper_authenticated c user ch)) k = env_get (au_environment a) k"
proof -
  have q: "qt_stream c" using assms(1) by (rule qt_stream.intro)
  have out: "last (ch_out (snd (helper_authenticated c user \<lparr>ch_out = [], ch_in = []\<rparr>))) = put_msg c AUTHENTICATED @ enc_str c user"
    using assms(2) by (simp add: helper_authenticated_def ch_send_def Let_def case_prod_beta)
  obtain a1 d1 where s: "own_signal (display_owner c S) (SigAuthentication user True) (auth_setUser user a, d) = (a1, d1)"
    by fastforce
  have "au_environment a1 = au_environment a"
    using s by (auto simp: display_owner_def display_signal_def slotAuthenticationFinished_def auth_setUser_def Let_def split: if_splits)
  with qt_stream.auth_message_authenticated [OF q assms(2) s] assms(5,6) out
  have "ch_in ch = (put_msg c AUTHENTICATED @ put_env c (au_environment a)) # []" by auto
  from qt_stream.authenticated_answered [OF q this assms(2,4)] assms(3) show ?thesis
    by (simp add: env_get_insert_all split: option.splits)
qed

lemma environment_reaches_helper_witness:
  "\<exists>ch. env_get (fst (helper_authenticated sd_qds ''joe'' ch)) ''XDG_SEAT'' = Some ''seat0''"
proof -
  let ?a = "(fst sample_disp)\<lparr>au_environment := [(''XDG_SEAT'', ''seat0'')]\<rparr>"
  obtain m a' d' where r: "auth_message sd_qds (display_owner sd_qds \<lparr>se_greeter_exit = None, se_session_exit = None\<rparr>)
      (last (ch_out (snd (helper_authenticated sd_qds ''joe'' \<lparr>ch_out = [], ch_in = []\<rparr>)))) (MSG_UNKNOWN, ?a, snd sample_disp) = (m, a', d')"
    by (metis prod.exhaust)
  have "env_get (fst (helper_authenticated sd_qds ''joe'' \<lparr>ch_out = [], ch_in = [last (ch_out (au_chan a'))]\<rparr>)) ''XDG_SEAT''
      = env_get (au_environment ?a) ''XDG_SEAT''"
    by (rule environment_reaches_helper [OF sd_qds_ok _ _ _ r])
      (simp_all add: env_ok_def env_keys_def)
  then show ?thesis by (auto simp: env_get_Cons)
qed

text \<open>A refused login is announced twice.  The helper reports a failed authentication with an
  error message and then an empty \<open>AUTHENTICATED\<close>, and the display sends \<open>LoginFailed\<close> for each: the
  greeter shows the message and is told of the failure two times.\<close>

theorem refusal_announced_twice:
  assumes "qds_ok c" "\<not> au_autologin a" "d_socket d = Some s" "d_clients d s = []"
  shows "case auth_dataPending c (display_owner c S) (a\<lparr>au_chan := \<lparr>ch_out = [],
      ch_in = [put_msg c ERROR @ enc_str c text @ put_error c ERROR_AUTHENTICATION, put_msg c AUTHENTICATED @ enc_str c []]\<rparr>\<rparr>, d) of
    (a', d') \<Rightarrow> gp_readyRead c (d_clients d' s) = [EvInformation text, EvLoginFailed, EvLoginFailed] \<and> d_socket d' = None"
proof -
  have q: "qt_stream c" using assms(1) by (rule qt_stream.intro)
  from qt_stream.gp_readyRead_all [OF q, of "[EvInformation text, EvLoginFailed, EvLoginFailed]"]
  have g: "gp_readyRead c (ss_loginFailed c (ss_loginFailed c (ss_informationMessage c text []))) = [EvInformation text, EvLoginFailed, EvLoginFailed]"
    by (simp add: socket_defs)
  let ?a = "a\<lparr>au_chan := \<lparr>ch_out = [], ch_in = []\<rparr>\<rparr>"
  let ?d1 = "on_client (ss_loginFailed c) s (on_client (ss_informationMessage c text) s d)"
  have e: "own_signal (display_owner c S) (SigError text ERROR_AUTHENTICATION) (?a, d) = (?a, ?d1)"
    using assms(3) by (simp add: display_owner_def display_signal_def slotAuthError_def emit_loginFailed_def)
  have f: "own_signal (display_owner c S) (SigAuthentication [] False) (?a, ?d1)
      = (?a, (on_client (ss_loginFailed c) s ?d1)\<lparr>d_socket := None\<rparr>)"
    using assms(2,3) by (simp add: display_owner_def display_signal_def slotAuthenticationFinished_def emit_loginFailed_def)
  show ?thesis
    using g assms(4) by (simp add: auth_dataPending_def qt_stream.auth_message_error [OF q] qt_stream.auth_message_refused [OF q] e f)
qed

lemma refusal_announced_twice_witness:
  "case auth_dataPending sd_qds (display_owner sd_qds \<lparr>se_greeter_exit = None, se_session_exit = None\<rparr>)
     ((fst sample_disp)\<lparr>au_autologin := False, au_chan := \<lparr>ch_out = [],
      ch_in = [put_msg sd_qds ERROR @ enc_str sd_qds ''denied'' @ put_error sd_qds ERROR_AUTHENTICATION, put_msg sd_qds AUTHENTICATED @ enc_str sd_qds []]\<rparr>\<rparr>,
      (snd sample_disp)\<lparr>d_socket := Some 7, d_clients := (\<lambda>_. [])\<rparr>) of
    (a', d') \<Rightarrow> gp_readyRead sd_qds (d_clients d' 7) = [EvInformation ''denied'', EvLoginFailed, EvLoginFailed]"
  using refusal_announced_twice [of sd_qds "(fst sample_disp)\<lparr>au_autologin := False\<rparr>" "(snd sample_disp)\<lparr>d_socket := Some 7, d_clients := (\<lambda>_. [])\<rparr>" 7
      "''denied''" "\<lparr>se_greeter_exit = None, se_session_exit = None\<rparr>"]
  by (simp split: prod.splits)

end
